(* ===== verification/GoPrelude.thy ===== *)
theory GoPrelude
  imports Main "HOL-Library.AList"
begin

text \<open>
  The part of Go the components share: strings as byte strings, the functions of the packages
  \<^verbatim>\<open>strings\<close> and \<^verbatim>\<open>strconv\<close> that the sources call, 64-bit integers, maps and error results.

  A Go \<^verbatim>\<open>string\<close> is a \<open>string\<close> (a list of bytes), so \<open>length\<close> is Go's \<^verbatim>\<open>len\<close>. Case mapping and
  white space are those of ASCII: the Unicode cases of \<^verbatim>\<open>strings.ToLower\<close> and
  \<^verbatim>\<open>strings.TrimSpace\<close>, which act on multi-byte runes only, leave such runes unchanged here.

  A Go map is an association list with distinct keys; the order of the list is the iteration
  order of a \<^verbatim>\<open>range\<close> loop, which Go leaves open, so a theorem for every list is a theorem for
  every order. A map that may be nil is an option.
\<close>

named_theorems go_simps \<open>defining equations of the Go library functions\<close>
named_theorems store_simps \<open>what a store operation leaves in each field of the store\<close>

type_synonym 'a gomap = "(string \<times> 'a) list"
type_synonym 'a result = "string + 'a"
  \<comment> \<open>a Go pair (value, error): \<open>Inl\<close> carries the error text\<close>

section \<open>Characters and strings\<close>

definition code :: "char \<Rightarrow> nat" where
  "code c = of_char c"

definition isSpace :: "char \<Rightarrow> bool" where
  "isSpace c \<longleftrightarrow> code c = 32 \<or> (9 \<le> code c \<and> code c \<le> 13)"

definition isDigit :: "char \<Rightarrow> bool" where
  "isDigit c \<longleftrightarrow> 48 \<le> code c \<and> code c \<le> 57"

definition isAlpha :: "char \<Rightarrow> bool" where
  "isAlpha c \<longleftrightarrow> (97 \<le> code c \<and> code c \<le> 122) \<or> (65 \<le> code c \<and> code c \<le> 90)"

definition lowerChar :: "char \<Rightarrow> char" where
  "lowerChar c = (if 65 \<le> code c \<and> code c \<le> 90 then char_of (code c + 32) else c)"

definition upperChar :: "char \<Rightarrow> char" where
  "upperChar c = (if 97 \<le> code c \<and> code c \<le> 122 then char_of (code c - 32) else c)"

definition ToLower :: "string \<Rightarrow> string" where
  "ToLower s = map lowerChar s"

definition ToUpper :: "string \<Rightarrow> string" where
  "ToUpper s = map upperChar s"

definition EqualFold :: "string \<Rightarrow> string \<Rightarrow> bool" where
  "EqualFold s t \<longleftrightarrow> ToLower s = ToLower t"

definition TrimSpace :: "string \<Rightarrow> string" where
  "TrimSpace s = rev (dropWhile isSpace (rev (dropWhile isSpace s)))"

definition HasPrefix :: "string \<Rightarrow> string \<Rightarrow> bool" where
  "HasPrefix s p \<longleftrightarrow> take (length p) s = p"

definition HasSuffix :: "string \<Rightarrow> string \<Rightarrow> bool" where
  "HasSuffix s p \<longleftrightarrow> length p \<le> length s \<and> drop (length s - length p) s = p"

definition TrimPrefix :: "string \<Rightarrow> string \<Rightarrow> string" where
  "TrimPrefix s p = (if HasPrefix s p then drop (length p) s else s)"

definition TrimSuffix :: "string \<Rightarrow> string \<Rightarrow> string" where
  "TrimSuffix s p = (if HasSuffix s p then take (length s - length p) s else s)"

fun Contains :: "string \<Rightarrow> string \<Rightarrow> bool" where
  "Contains [] p = (p = [])"
| "Contains (c # s) p = (HasPrefix (c # s) p \<or> Contains s p)"

definition ContainsAny :: "string \<Rightarrow> string \<Rightarrow> bool" where
  "ContainsAny s cs \<longleftrightarrow> list_ex (\<lambda>c. c \<in> set cs) s"

text \<open>\<^verbatim>\<open>strings.Cut\<close> at the first occurrence of a byte, and \<^verbatim>\<open>strings.Split\<close> at every one.\<close>

fun Cut :: "string \<Rightarrow> char \<Rightarrow> string \<times> string \<times> bool" where
  "Cut [] x = ([], [], False)"
| "Cut (c # s) x = (if c = x then ([], s, True)
     else (case Cut s x of (a, b, f) \<Rightarrow> (c # a, b, f)))"

fun Split :: "string \<Rightarrow> char \<Rightarrow> string list" where
  "Split [] x = [[]]"
| "Split (c # s) x = (if c = x then [] # Split s x
     else (case Split s x of [] \<Rightarrow> [[c]] | w # ws \<Rightarrow> (c # w) # ws))"

fun Join :: "string list \<Rightarrow> string \<Rightarrow> string" where
  "Join [] sep = []"
| "Join [w] sep = w"
| "Join (w # v # ws) sep = w @ sep @ Join (v # ws) sep"

fun Index :: "string \<Rightarrow> char \<Rightarrow> nat option" where
  "Index [] x = None"
| "Index (c # s) x = (if c = x then Some 0 else map_option Suc (Index s x))"

definition LastIndex :: "string \<Rightarrow> char \<Rightarrow> nat option" where
  "LastIndex s x = map_option (\<lambda>i. length s - 1 - i) (Index (rev s) x)"

section \<open>Integers\<close>

text \<open>Go's \<^verbatim>\<open>int\<close>, \<^verbatim>\<open>int64\<close> and \<^verbatim>\<open>time.Duration\<close> are 64-bit two's complement numbers.\<close>

definition minInt64 :: int where "minInt64 = - (2 ^ 63)"
definition maxInt64 :: int where "maxInt64 = 2 ^ 63 - 1"

definition int64 :: "int \<Rightarrow> bool" where
  "int64 i \<longleftrightarrow> minInt64 \<le> i \<and> i \<le> maxInt64"

definition wrap64 :: "int \<Rightarrow> int" where
  "wrap64 i = (i + 2 ^ 63) mod 2 ^ 64 - 2 ^ 63"

definition digitChar :: "nat \<Rightarrow> char" where
  "digitChar d = char_of (48 + d)"

fun digits :: "nat \<Rightarrow> string" where
  "digits n = (if n < 10 then [digitChar n] else digits (n div 10) @ [digitChar (n mod 10)])"

declare digits.simps [simp del]

text \<open>\<^verbatim>\<open>strconv.Itoa\<close>, and the verb \<^verbatim>\<open>%d\<close>.\<close>

definition Itoa :: "int \<Rightarrow> string" where
  "Itoa i = (if i < 0 then CHR ''-'' # digits (nat (- i)) else digits (nat i))"

fun parseDigits :: "nat \<Rightarrow> string \<Rightarrow> nat option" where
  "parseDigits acc [] = Some acc"
| "parseDigits acc (c # s) =
     (if isDigit c then parseDigits (10 * acc + (code c - 48)) s else None)"

text \<open>\<^verbatim>\<open>strconv.Atoi\<close>: an optional sign, at least one digit, and a value of 64 bits.\<close>

definition Atoi :: "string \<Rightarrow> int option" where
  "Atoi s =
     (let neg = HasPrefix s ''-'';
          body = (if neg \<or> HasPrefix s ''+'' then tl s else s)
      in if body = [] then None
         else case parseDigits 0 body of
                None \<Rightarrow> None
              | Some n \<Rightarrow> (let i = (if neg then - int n else int n)
                           in if int64 i then Some i else None))"

section \<open>Quoting\<close>

definition hexChar :: "nat \<Rightarrow> char" where
  "hexChar d = (if d < 10 then char_of (48 + d) else char_of (87 + d))"

definition backslash :: char where "backslash = CHR 0x5C"
definition dquote :: char where "dquote = CHR 0x22"

text \<open>\<^verbatim>\<open>strconv.Quote\<close>, the verb \<^verbatim>\<open>%q\<close>; bytes of printable multi-byte runes are kept.\<close>

definition quoteChar :: "char \<Rightarrow> string" where
  "quoteChar c =
     (if c = dquote then [backslash, dquote]
      else if c = backslash then [backslash, backslash]
      else if code c = 7 then backslash # ''a''
      else if code c = 8 then backslash # ''b''
      else if code c = 12 then backslash # ''f''
      else if code c = 10 then backslash # ''n''
      else if code c = 13 then backslash # ''r''
      else if code c = 9 then backslash # ''t''
      else if code c = 11 then backslash # ''v''
      else if code c < 32 \<or> code c = 127
        then [backslash, CHR ''x'', hexChar (code c div 16), hexChar (code c mod 16)]
      else [c])"

definition Quote :: "string \<Rightarrow> string" where
  "Quote s = dquote # concat (map quoteChar s) @ [dquote]"

section \<open>Maps\<close>

definition mapGet :: "'a gomap \<Rightarrow> string \<Rightarrow> 'a option" where
  "mapGet m k = map_of m k"

definition mapSet :: "string \<Rightarrow> 'a \<Rightarrow> 'a gomap \<Rightarrow> 'a gomap" where
  "mapSet k v m = AList.update k v m"

definition mapDelete :: "string \<Rightarrow> 'a gomap \<Rightarrow> 'a gomap" where
  "mapDelete k m = AList.delete k m"

definition mapWf :: "'a gomap \<Rightarrow> bool" where
  "mapWf m \<longleftrightarrow> distinct (map fst m)"

section \<open>Generic lemmas\<close>

lemma mapGet_mapSet [simp]: "mapGet (mapSet k v m) k' = (if k' = k then Some v else mapGet m k')"
  by (simp add: mapGet_def mapSet_def update_conv')

lemma mapGet_mapDelete [simp]: "mapGet (mapDelete k m) k' = (if k' = k then None else mapGet m k')"
  by (simp add: mapGet_def mapDelete_def delete_conv')

lemma mapGet_Nil [simp]: "mapGet [] k = None"
  by (simp add: mapGet_def)

lemma mapWf_Nil [simp]: "mapWf []"
  by (simp add: mapWf_def)

lemma mapWf_mapSet [simp]: "mapWf m \<Longrightarrow> mapWf (mapSet k v m)"
  by (simp add: mapWf_def mapSet_def distinct_update)

lemma mapWf_mapDelete [simp]: "mapWf m \<Longrightarrow> mapWf (mapDelete k m)"
  by (simp add: mapWf_def mapDelete_def distinct_delete)

lemma mapGet_in_set: "mapGet m k = Some v \<Longrightarrow> (k, v) \<in> set m"
  by (simp add: mapGet_def map_of_SomeD)

lemma in_set_mapGet: "mapWf m \<Longrightarrow> (k, v) \<in> set m \<Longrightarrow> mapGet m k = Some v"
  by (simp add: mapGet_def mapWf_def)

lemma mapGet_map_val [simp]:
  "mapGet (map (\<lambda>(k, v). (k, f v)) m) k = map_option f (mapGet m k)"
  by (induction m) (auto simp: mapGet_def)

lemma TrimSpace_Nil [simp]: "TrimSpace [] = []"
  by (simp add: TrimSpace_def)

lemma HasPrefix_self_append [simp]: "HasPrefix (p @ s) p"
  by (simp add: HasPrefix_def)

lemma HasPrefix_iff: "HasPrefix s p \<longleftrightarrow> (\<exists>r. s = p @ r)"
  by (auto simp: HasPrefix_def) (metis append_take_drop_id)

lemma HasSuffix_self_append [simp]: "HasSuffix (s @ p) p"
  by (simp add: HasSuffix_def)

lemma HasSuffix_iff: "HasSuffix s p \<longleftrightarrow> (\<exists>r. s = r @ p)"
  by (auto simp: HasSuffix_def) (metis append_take_drop_id)

lemma Split_ne_Nil [simp]: "Split s x \<noteq> []"
  by (induction s) (auto split: list.splits)

lemma Join_Split: "Join (Split s x) [x] = s"
proof (induction s)
  case (Cons c s)
  then show ?case
    by (cases "Split s x"; cases "tl (Split s x)") auto
qed simp

lemma wrap64_int64: "int64 i \<Longrightarrow> wrap64 i = i"
  by (simp add: int64_def wrap64_def minInt64_def maxInt64_def)

lemma int64_wrap64 [simp]: "int64 (wrap64 i)"
proof -
  have "0 \<le> (i + 2 ^ 63) mod 2 ^ 64" and "(i + 2 ^ 63) mod 2 ^ 64 < (2 :: int) ^ 64"
    by simp_all
  then show ?thesis
    by (simp add: int64_def wrap64_def minInt64_def maxInt64_def)
qed

lemma code_digitChar [simp]: "d < 10 \<Longrightarrow> code (digitChar d) = 48 + d"
  by (simp add: code_def digitChar_def)

lemma isDigit_digitChar [simp]: "d < 10 \<Longrightarrow> isDigit (digitChar d)"
  by (simp add: isDigit_def)

lemma digits_ne_Nil [simp]: "digits n \<noteq> []"
  by (subst digits.simps) simp

lemma isDigit_digits: "c \<in> set (digits n) \<Longrightarrow> isDigit c"
proof (induction n rule: digits.induct)
  case (1 n)
  then show ?case
    by (cases "n < 10") (auto simp: digits.simps [of n])
qed

lemma parseDigits_append:
  "parseDigits a (s @ t) = (case parseDigits a s of None \<Rightarrow> None | Some b \<Rightarrow> parseDigits b t)"
  by (induction s arbitrary: a) auto

lemma parseDigits_digits: "parseDigits 0 (digits n) = Some n"
proof (induction n rule: digits.induct)
  case (1 n)
  then show ?case
    by (cases "n < 10") (auto simp: digits.simps [of n] parseDigits_append)
qed

lemma hd_digits_no_sign: "\<not> HasPrefix (digits n) ''-''" "\<not> HasPrefix (digits n) ''+''"
proof -
  have "isDigit (hd (digits n))"
    by (rule isDigit_digits [of _ n]) simp
  then show "\<not> HasPrefix (digits n) ''-''" and "\<not> HasPrefix (digits n) ''+''"
    by (cases "digits n"; auto simp: HasPrefix_def isDigit_def code_def)+
qed

text \<open>\<^verbatim>\<open>strconv\<close>'s printing and parsing agree on every value of the type.\<close>

lemma Atoi_Itoa: "int64 i \<Longrightarrow> Atoi (Itoa i) = Some i"
proof (cases "i < 0")
  case True
  moreover assume "int64 i"
  ultimately show ?thesis
    by (simp add: Atoi_def Itoa_def HasPrefix_def parseDigits_digits Let_def)
next
  case False
  moreover assume "int64 i"
  ultimately show ?thesis
    using hd_digits_no_sign [of "nat i"]
    by (simp add: Atoi_def Itoa_def parseDigits_digits Let_def)
qed

lemma Itoa_inj: "int64 i \<Longrightarrow> int64 j \<Longrightarrow> Itoa i = Itoa j \<Longrightarrow> i = j"
  by (metis Atoi_Itoa option.inject)

lemma digits_inj: "digits m = digits n \<Longrightarrow> m = n"
  by (metis option.inject parseDigits_digits)

lemma code_lowerChar: "code (lowerChar c) = (if 65 \<le> code c \<and> code c \<le> 90 then code c + 32 else code c)"
  by (auto simp: lowerChar_def code_def)

lemma code_upperChar: "code (upperChar c) = (if 97 \<le> code c \<and> code c \<le> 122 then code c - 32 else code c)"
  by (auto simp: upperChar_def code_def)

lemma code_inject: "code c = code d \<longleftrightarrow> c = d"
  by (simp add: code_def)

lemma lowerChar_idem [simp]: "lowerChar (lowerChar c) = lowerChar c"
  by (auto simp: code_lowerChar simp flip: code_inject)

lemma upperChar_idem [simp]: "upperChar (upperChar c) = upperChar c"
  by (auto simp: code_upperChar simp flip: code_inject)

lemma ToLower_idem [simp]: "ToLower (ToLower s) = ToLower s"
  by (simp add: ToLower_def)

lemma ToUpper_idem [simp]: "ToUpper (ToUpper s) = ToUpper s"
  by (simp add: ToUpper_def)

lemma ToUpper_Nil [simp]: "ToUpper s = [] \<longleftrightarrow> s = []"
  by (simp add: ToUpper_def)

lemma ToLower_eq_Nil [simp]: "ToLower s = [] \<longleftrightarrow> s = []"
  by (simp add: ToLower_def)

text \<open>The problems of the elements of a list, each labelled with its index.\<close>

lemma concat_enumerate_Nil:
  assumes "\<And>i x. f i x = [] \<longleftrightarrow> P x"
  shows "concat (map (\<lambda>(i, x). f i x) (enumerate n xs)) = [] \<longleftrightarrow> list_all P xs"
  by (induction xs arbitrary: n) (simp_all add: assms)

lemma concat_enumerate_ne_Nil:
  assumes "x \<in> set xs" and "\<And>i. f i x \<noteq> []"
  shows "concat (map (\<lambda>(i, x). f i x) (enumerate n xs)) \<noteq> []"
  using assms by (induction xs arbitrary: n) auto

text \<open>The first occurrence of a byte, and a list of words that do not hold the separator.\<close>

lemma Index_None: "x \<notin> set s \<Longrightarrow> Index s x = None"
  by (induction s) auto

lemma Index_append: "x \<notin> set a \<Longrightarrow> Index (a @ x # b) x = Some (length a)"
  by (induction a) auto

lemma Split_append: "x \<notin> set w \<Longrightarrow> Split (w @ x # s) x = w # Split s x"
  by (induction w) auto

lemma Split_no_sep: "x \<notin> set w \<Longrightarrow> Split w x = [w]"
  by (induction w) auto

lemma Split_Join:
  "ws \<noteq> [] \<Longrightarrow> list_all (\<lambda>w. x \<notin> set w) ws \<Longrightarrow> Split (Join ws [x]) x = ws"
  by (induction ws "[x]" rule: Join.induct) (simp_all add: Split_append Split_no_sep)

lemma digit_neq: "\<not> isDigit x \<Longrightarrow> x \<notin> set (digits n)"
  using isDigit_digits by blast

lemma Atoi_digits: "int64 (int n) \<Longrightarrow> Atoi (digits n) = Some (int n)"
  using Atoi_Itoa [of "int n"] by (simp add: Itoa_def)

lemma last_dropWhile: "dropWhile P xs \<noteq> [] \<Longrightarrow> last (dropWhile P xs) = last xs"
  by (metis last_appendR takeWhile_dropWhile_id)

lemma TrimSpace_idem [simp]: "TrimSpace (TrimSpace s) = TrimSpace s"
proof (cases "TrimSpace s = []")
  case False
  let ?t = "dropWhile isSpace s"
  have ne: "dropWhile isSpace (rev ?t) \<noteq> []"
    using False unfolding TrimSpace_def by (metis rev.simps(1))
  then have "hd (TrimSpace s) = hd ?t"
    unfolding TrimSpace_def by (metis hd_rev last_dropWhile rev_rev_ident)
  moreover have "?t \<noteq> []"
    using ne by (metis dropWhile.simps(1) rev.simps(1))
  then have "\<not> isSpace (hd ?t)"
    by (rule hd_dropWhile)
  ultimately have "dropWhile isSpace (TrimSpace s) = TrimSpace s"
    using False by (simp add: dropWhile_eq_self_iff)
  then show ?thesis
    by (simp add: TrimSpace_def)
qed simp

end
