(* ===== verification/GoFloat.thy ===== *)
theory GoFloat
  imports GoPrelude Complex_Main "HOL-Library.Log_Nat"
begin

text \<open>
  Go's \<^verbatim>\<open>float64\<close>. A finite value is the rational number it denotes, and an arithmetic operation is
  the exact operation followed by \<open>round64\<close>, the rounding to a 53-bit significand, nearest, ties
  to even (IEEE 754, and Go on amd64, which never fuses a product with a sum). The exponent range
  is not bounded: overflow to an infinity, subnormal results, NaN and the sign of zero are outside
  the model. The sources compute with durations in milliseconds, counts and ratios of counts.

  The locale \<open>float_rounding\<close> says what the components rely on (the rounding is monotone and keeps
  the integers up to \<open>2 ^ 53\<close>); \<open>round64\<close> is shown to provide it.
\<close>

type_synonym float64 = rat

section \<open>Rounding to a 53-bit significand\<close>

definition roundHalfEven :: "rat \<Rightarrow> int" where
  "roundHalfEven x =
     (let f = \<lfloor>x\<rfloor>; r = x - of_int f
      in if r < 1 / 2 then f else if 1 / 2 < r then f + 1 else if even f then f else f + 1)"

text \<open>The binary exponent of a positive rational: \<open>2 powi e \<le> x < 2 powi (e + 1)\<close>.\<close>

definition binExp :: "rat \<Rightarrow> int" where
  "binExp x =
     (let (p, q) = quotient_of x; k = int (nat (bitlen p)) - int (nat (bitlen q))
      in if 2 powi k \<le> x then k else k - 1)"

definition roundPos :: "rat \<Rightarrow> rat" where
  "roundPos x = (let e = binExp x in of_int (roundHalfEven (x * 2 powi (52 - e))) * 2 powi (e - 52))"

definition round64 :: "rat \<Rightarrow> float64" where
  "round64 x = (if x = 0 then 0 else if 0 < x then roundPos x else - roundPos (- x))"

definition fadd :: "float64 \<Rightarrow> float64 \<Rightarrow> float64" where "fadd a b = round64 (a + b)"
definition fsub :: "float64 \<Rightarrow> float64 \<Rightarrow> float64" where "fsub a b = round64 (a - b)"
definition fmul :: "float64 \<Rightarrow> float64 \<Rightarrow> float64" where "fmul a b = round64 (a * b)"
definition fdiv :: "float64 \<Rightarrow> float64 \<Rightarrow> float64" where "fdiv a b = round64 (a / b)"
definition float_of_int :: "int \<Rightarrow> float64" where "float_of_int i = round64 (of_int i)"

lemmas float_ops = fadd_def fsub_def fmul_def fdiv_def float_of_int_def

section \<open>Printing\<close>

text \<open>
  The verbs \<^verbatim>\<open>%.1f\<close>, \<^verbatim>\<open>%.2f\<close> and \<^verbatim>\<open>%.4f\<close>: the decimal of so many places nearest to the value, a
  tie to the even digit.
\<close>

definition padZeros :: "nat \<Rightarrow> string \<Rightarrow> string" where
  "padZeros n s = replicate (n - length s) CHR ''0'' @ s"

definition FormatFixed :: "nat \<Rightarrow> float64 \<Rightarrow> string" where
  "FormatFixed prec x =
     (let n = nat (roundHalfEven (\<bar>x\<bar> * 10 ^ prec));
          whole = digits (n div 10 ^ prec);
          frac = padZeros prec (digits (n mod 10 ^ prec))
      in (if x < 0 then ''-'' else '''') @ whole @ (if prec = 0 then '''' else ''.'' @ frac))"

section \<open>What the components rely on\<close>

locale float_rounding =
  fixes rnd :: "rat \<Rightarrow> rat"
  assumes rnd_mono: "x \<le> y \<Longrightarrow> rnd x \<le> rnd y"
    and rnd_int: "\<bar>n\<bar> \<le> 2 ^ 53 \<Longrightarrow> rnd (of_int n) = of_int n"
begin

lemma rnd_zero: "rnd 0 = 0"
  using rnd_int [of 0] by simp

lemma rnd_one: "rnd 1 = 1"
  using rnd_int [of 1] by simp

lemma rnd_nonneg: "0 \<le> x \<Longrightarrow> 0 \<le> rnd x"
  using rnd_mono [of 0 x] by (simp add: rnd_zero)

lemma rnd_le_one: "x \<le> 1 \<Longrightarrow> rnd x \<le> 1"
  using rnd_mono [of x 1] by (simp add: rnd_one)

text \<open>A ratio of two counts is a number between 0 and 1.\<close>

lemma rnd_ratio:
  assumes "0 \<le> a" and "a \<le> b"
  shows "0 \<le> rnd (of_int a / of_int b)" and "rnd (of_int a / of_int b) \<le> 1"
proof -
  have "0 \<le> (of_int a / of_int b :: rat)" and "(of_int a / of_int b :: rat) \<le> 1"
    using assms by (auto simp: divide_le_eq_1)
  then show "0 \<le> rnd (of_int a / of_int b)" and "rnd (of_int a / of_int b) \<le> 1"
    by (auto intro: rnd_nonneg rnd_le_one)
qed

text \<open>A fraction of a length never points past the length, whatever the rounding does.\<close>

lemma rnd_position:
  assumes "0 \<le> p" and "p \<le> 1" and "0 \<le> n" and "n \<le> 2 ^ 53"
  shows "0 \<le> rnd (p * of_int n)" and "rnd (p * of_int n) \<le> of_int n"
proof -
  have "p * of_int n \<le> of_int n"
    using assms(2,3) by (simp add: mult_left_le_one_le assms(1))
  then have "rnd (p * of_int n) \<le> rnd (of_int n)"
    by (rule rnd_mono)
  also have "\<dots> = of_int n"
    using assms(3,4) by (simp add: rnd_int)
  finally show "rnd (p * of_int n) \<le> of_int n" .
  show "0 \<le> rnd (p * of_int n)"
    using assms(1,3) by (simp add: rnd_nonneg)
qed

end

section \<open>The rounding provides it\<close>

lemma roundHalfEven_int [simp]: "roundHalfEven (of_int n) = n"
  by (simp add: roundHalfEven_def)

lemma roundHalfEven_floor: "\<lfloor>x\<rfloor> \<le> roundHalfEven x" "roundHalfEven x \<le> \<lfloor>x\<rfloor> + 1"
  by (auto simp: roundHalfEven_def Let_def)

lemma roundHalfEven_mono:
  assumes "x \<le> y"
  shows "roundHalfEven x \<le> roundHalfEven y"
proof (cases "\<lfloor>x\<rfloor> = \<lfloor>y\<rfloor>")
  case True
  then show ?thesis
    using assms by (auto simp: roundHalfEven_def Let_def)
next
  case False
  then have "\<lfloor>x\<rfloor> + 1 \<le> \<lfloor>y\<rfloor>"
    using floor_mono [OF assms] by linarith
  then show ?thesis
    using roundHalfEven_floor [of x] roundHalfEven_floor [of y] by linarith
qed

lemma bitlen_nat_bounds:
  assumes "0 < p"
  shows "2 powi (int (nat (bitlen p)) - 1) \<le> (of_int p :: rat)"
    and "(of_int p :: rat) < 2 powi (int (nat (bitlen p)))"
proof -
  have n: "int (nat (bitlen p)) = bitlen p" and pos: "0 < bitlen p"
    using assms by (simp_all add: bitlen_nonneg bitlen_eq_zero_iff order_less_le)
  have "2 ^ nat (bitlen p - 1) \<le> p" and "p < 2 ^ nat (bitlen p)"
    using bitlen_bounds [OF assms] by simp_all
  then have "(of_int (2 ^ nat (bitlen p - 1)) :: rat) \<le> of_int p"
    and "(of_int p :: rat) < of_int (2 ^ nat (bitlen p))"
    by (simp_all only: of_int_le_iff of_int_less_iff)
  then show "2 powi (int (nat (bitlen p)) - 1) \<le> (of_int p :: rat)"
    and "(of_int p :: rat) < 2 powi (int (nat (bitlen p)))"
    using pos n by (simp_all add: power_int_def)
qed

lemma binExp_bounds:
  assumes "0 < x"
  shows "2 powi binExp x \<le> x" and "x < 2 powi (binExp x + 1)"
proof -
  obtain p q where pq: "quotient_of x = (p, q)"
    by (cases "quotient_of x")
  then have x: "x = of_int p / of_int q" and q: "0 < q"
    by (simp_all add: quotient_of_div quotient_of_denom_pos)
  with assms have p: "0 < p"
    by (simp add: zero_less_divide_iff)
  define bp bq where b: "bp = int (nat (bitlen p))" "bq = int (nat (bitlen q))"
  note bnds = bitlen_nat_bounds [OF p, folded b] bitlen_nat_bounds [OF q, folded b]
  have "2 powi (bp - 1) / 2 powi bq \<le> (of_int p / of_int q :: rat)"
    using bnds p q by (intro frac_le) auto
  then have lo: "2 powi (bp - bq - 1) \<le> x"
    by (simp add: x power_int_diff mult.commute)
  have "(of_int p / of_int q :: rat) < 2 powi bp / 2 powi (bq - 1)"
    using bnds p by (intro frac_less) auto
  then have hi: "x < 2 powi (bp - bq + 1)"
    by (simp add: x power_int_diff power_int_add mult.commute)
  show "2 powi binExp x \<le> x" and "x < 2 powi (binExp x + 1)"
    using lo hi by (auto simp: binExp_def pq b Let_def)
qed

lemma powi2_less_imp: "(2 :: rat) powi a < 2 powi b \<Longrightarrow> a < b"
  by (metis linorder_not_le one_le_numeral power_int_increasing)

lemma binExp_unique:
  assumes "2 powi e \<le> x" and "x < 2 powi (e + 1)"
  shows "binExp x = e"
proof -
  have "0 < x"
    using assms(1) by (meson less_le_trans zero_less_numeral zero_less_power_int)
  note bnds = binExp_bounds [OF this]
  have "binExp x < e + 1"
    using bnds assms by (intro powi2_less_imp) linarith
  moreover have "e < binExp x + 1"
    using bnds assms by (intro powi2_less_imp) linarith
  ultimately show ?thesis by simp
qed

lemma binExp_mono:
  assumes "0 < x" and "x \<le> y"
  shows "binExp x \<le> binExp y"
proof -
  have "2 powi binExp x < (2 :: rat) powi (binExp y + 1)"
    using binExp_bounds [of x] binExp_bounds [of y] assms by linarith
  then show ?thesis
    using powi2_less_imp by fastforce
qed

text \<open>The significand of a positive value has 53 bits, before and after rounding.\<close>

lemma significand_bounds:
  assumes "0 < x"
  shows "2 ^ 52 \<le> roundHalfEven (x * 2 powi (52 - binExp x))"
    and "roundHalfEven (x * 2 powi (52 - binExp x)) \<le> 2 ^ 53"
proof -
  let ?s = "x * 2 powi (52 - binExp x)"
  have e: "(2 :: rat) powi (52 - binExp x) = 2 ^ 52 / 2 powi binExp x"
    by (simp add: power_int_diff)
  have "2 ^ 52 \<le> ?s" and "?s \<le> 2 ^ 53"
    using binExp_bounds [OF assms] by (simp_all only: e) (simp_all add: field_simps power_int_add)
  then have "roundHalfEven (of_int (2 ^ 52)) \<le> roundHalfEven ?s"
    and "roundHalfEven ?s \<le> roundHalfEven (of_int (2 ^ 53))"
    by (simp_all only: of_int_power of_int_numeral roundHalfEven_mono)
  then show "2 ^ 52 \<le> roundHalfEven ?s" and "roundHalfEven ?s \<le> 2 ^ 53"
    by (simp_all only: roundHalfEven_int)
qed

lemma roundPos_bounds:
  assumes "0 < x"
  shows "2 powi binExp x \<le> roundPos x" and "roundPos x \<le> 2 powi (binExp x + 1)"
proof -
  let ?s = "roundHalfEven (x * 2 powi (52 - binExp x))"
  have "(of_int (2 ^ 52) :: rat) \<le> of_int ?s" and "(of_int ?s :: rat) \<le> of_int (2 ^ 53)"
    using significand_bounds [OF assms] by (simp_all only: of_int_le_iff)
  then have "2 ^ 52 * 2 powi (binExp x - 52) \<le> roundPos x"
    and "roundPos x \<le> 2 ^ 53 * 2 powi (binExp x - 52)"
    unfolding roundPos_def Let_def by (intro mult_right_mono; simp)+
  moreover have "(2 :: rat) ^ 52 * 2 powi (binExp x - 52) = 2 powi binExp x"
    and "(2 :: rat) ^ 53 * 2 powi (binExp x - 52) = 2 powi (binExp x + 1)"
    by (simp_all add: power_int_diff power_int_add)
  ultimately show "2 powi binExp x \<le> roundPos x" and "roundPos x \<le> 2 powi (binExp x + 1)"
    by simp_all
qed

lemma roundPos_mono:
  assumes "0 < x" and "x \<le> y"
  shows "roundPos x \<le> roundPos y"
proof (cases "binExp x = binExp y")
  case True
  have "x * 2 powi (52 - binExp y) \<le> y * 2 powi (52 - binExp y)"
    using assms by (intro mult_right_mono) auto
  then show ?thesis
    using True by (simp add: roundPos_def Let_def roundHalfEven_mono mult_right_mono)
next
  case False
  then have "(2 :: rat) powi (binExp x + 1) \<le> 2 powi binExp y"
    using binExp_mono [OF assms] by (intro power_int_increasing) auto
  then show ?thesis
    using roundPos_bounds [of x] roundPos_bounds [of y] assms by linarith
qed

lemma roundPos_pos: "0 < x \<Longrightarrow> 0 < roundPos x"
  using roundPos_bounds(1) [of x] by (meson less_le_trans zero_less_numeral zero_less_power_int)

lemma round64_mono: "x \<le> y \<Longrightarrow> round64 x \<le> round64 y"
  using roundPos_mono [of x y] roundPos_mono [of "- y" "- x"] roundPos_pos [of y] roundPos_pos [of "- x"]
  by (auto simp: round64_def)

lemma round64_pos: "0 < x \<Longrightarrow> 0 < round64 x"
  by (simp add: round64_def roundPos_pos)

lemma roundPos_exact:
  assumes "x * 2 powi (52 - binExp x) = of_int n"
  shows "roundPos x = x"
proof -
  have "roundPos x = x * 2 powi (52 - binExp x) * 2 powi (binExp x - 52)"
    using assms by (simp add: roundPos_def Let_def)
  also have "\<dots> = x"
    by (simp add: power_int_diff)
  finally show ?thesis .
qed

lemma roundPos_int:
  assumes "0 < n" and "n \<le> 2 ^ 53"
  shows "roundPos (of_int n) = of_int n"
proof (cases "n = 2 ^ 53")
  case True
  have "binExp (of_int n) = 53"
    using True by (intro binExp_unique) (simp_all add: power_int_def)
  then show ?thesis
    using True by (intro roundPos_exact [where n = "2 ^ 52"]) (simp add: power_int_def field_simps)
next
  case False
  then have "n < 2 ^ 53" and "1 \<le> n"
    using assms by simp_all
  then have "(of_int n :: rat) < of_int (2 ^ 53)" and "of_int 1 \<le> (of_int n :: rat)"
    by (simp_all only: of_int_less_iff of_int_le_iff)
  then have "(2 :: rat) powi binExp (of_int n) < 2 powi 53" and "(2 :: rat) powi 0 < 2 powi (binExp (of_int n) + 1)"
    using binExp_bounds [of "of_int n"] by (auto simp: power_int_def)
  from powi2_less_imp [OF this(1)] have e: "0 \<le> 52 - binExp (of_int n)"
    by simp
  have "(of_int n :: rat) * 2 powi (52 - binExp (of_int n)) = of_int (n * 2 ^ nat (52 - binExp (of_int n)))"
    using e by (simp add: power_int_def)
  then show ?thesis
    by (rule roundPos_exact)
qed

lemma round64_int: "\<bar>n\<bar> \<le> 2 ^ 53 \<Longrightarrow> round64 (of_int n) = of_int n"
  using roundPos_int [of n] roundPos_int [of "- n"] by (auto simp: round64_def)

interpretation f64: float_rounding round64
  by unfold_locales (auto intro: round64_mono round64_int)

lemma float_of_int_exact [simp]: "\<bar>n\<bar> \<le> 2 ^ 53 \<Longrightarrow> float_of_int n = of_int n"
  by (simp add: float_of_int_def round64_int)

end
