(* ===== verification/GoJson.thy ===== *)
theory GoJson
  imports GoFloat
begin

text \<open>
  What the sources use of \<^verbatim>\<open>encoding/json\<close>: \<^verbatim>\<open>json.Valid\<close>, \<^verbatim>\<open>json.Unmarshal\<close> into an \<^verbatim>\<open>any\<close>, the
  string encoder, and the verb \<^verbatim>\<open>%v\<close> on decoded values.

  A decoded value is a \<open>json\<close>; the members of an object are kept in the order of the text, and
  a lookup takes the last member of a name, as the decoder's map does. Invalid UTF-8 in a string
  is kept as it is (the decoder replaces it by U+FFFD).

  The parser spends one unit of fuel per call. \<open>Valid\<close> and \<open>parseJSON\<close> start it with
  \<open>2 * length s + 4\<close> units, and \<open>parse_fuel\<close> shows that every larger supply gives the same result,
  so a failure is a syntax error of the text and never a lack of fuel.
\<close>

datatype json =
    JNull
  | JBool bool
  | JNum float64
  | JStr string
  | JArr "json list"
  | JObj "(string \<times> json) list"

section \<open>Lexical elements\<close>

definition isJsonSpace :: "char \<Rightarrow> bool" where
  "isJsonSpace c \<longleftrightarrow> code c = 32 \<or> code c = 9 \<or> code c = 10 \<or> code c = 13"

definition skipWs :: "string \<Rightarrow> string" where
  "skipWs s = dropWhile isJsonSpace s"

definition hexVal :: "char \<Rightarrow> nat option" where
  "hexVal c =
     (if isDigit c then Some (code c - 48)
      else if 97 \<le> code c \<and> code c \<le> 102 then Some (code c - 87)
      else if 65 \<le> code c \<and> code c \<le> 70 then Some (code c - 55)
      else None)"

definition hex4 :: "string \<Rightarrow> nat option" where
  "hex4 s = (case map hexVal (take 4 s) of
     [Some a, Some b, Some c, Some d] \<Rightarrow> Some (((a * 16 + b) * 16 + c) * 16 + d)
   | _ \<Rightarrow> None)"

definition utf8 :: "nat \<Rightarrow> string" where
  "utf8 n =
     (if n < 128 then [char_of n]
      else if n < 2048 then [char_of (192 + n div 64), char_of (128 + n mod 64)]
      else if n < 65536 then
        [char_of (224 + n div 4096), char_of (128 + n div 64 mod 64), char_of (128 + n mod 64)]
      else [char_of (240 + n div 262144), char_of (128 + n div 4096 mod 64),
            char_of (128 + n div 64 mod 64), char_of (128 + n mod 64)])"

definition isSurrogate :: "nat \<Rightarrow> bool" where
  "isSurrogate n \<longleftrightarrow> 55296 \<le> n \<and> n < 57344"

text \<open>
  The text after a \<^verbatim>\<open>\u\<close>: one code unit, or a surrogate pair of two; an unpaired surrogate
  becomes U+FFFD. The result is the bytes and the number of bytes read after the \<^verbatim>\<open>u\<close>.
\<close>

definition unicodeEscape :: "string \<Rightarrow> (string \<times> nat) option" where
  "unicodeEscape s =
     (case hex4 s of
        None \<Rightarrow> None
      | Some n \<Rightarrow>
          if isSurrogate n then
            (if n < 56320 \<and> HasPrefix (drop 4 s) [backslash, CHR ''u''] then
               (case hex4 (drop 6 s) of
                  Some m \<Rightarrow> if 56320 \<le> m \<and> m < 57344
                    then Some (utf8 (65536 + (n - 55296) * 1024 + (m - 56320)), 10)
                    else Some (utf8 65533, 4)
                | None \<Rightarrow> Some (utf8 65533, 4))
             else Some (utf8 65533, 4))
          else Some (utf8 n, 4))"

definition simpleEscape :: "char \<Rightarrow> char option" where
  "simpleEscape c =
     (if c = dquote \<or> c = backslash \<or> c = CHR ''/'' then Some c
      else if c = CHR ''b'' then Some (CHR 8)
      else if c = CHR ''f'' then Some (CHR 12)
      else if c = CHR ''n'' then Some (CHR 10)
      else if c = CHR ''r'' then Some (CHR 13)
      else if c = CHR ''t'' then Some (CHR 9)
      else None)"

text \<open>The body of a string literal, after the opening quote.\<close>

fun parseStr :: "string \<Rightarrow> (string \<times> string) option" where
  "parseStr [] = None"
| "parseStr (c # s) =
     (if c = dquote then Some ([], s)
      else if c = backslash then
        (case s of
           [] \<Rightarrow> None
         | e # r \<Rightarrow>
             if e = CHR ''u'' then
               (case unicodeEscape r of
                  None \<Rightarrow> None
                | Some (bs, n) \<Rightarrow> (case parseStr (drop n r) of None \<Rightarrow> None | Some (t, r') \<Rightarrow> Some (bs @ t, r')))
             else (case simpleEscape e of
                     None \<Rightarrow> None
                   | Some x \<Rightarrow> (case parseStr r of None \<Rightarrow> None | Some (t, r') \<Rightarrow> Some (x # t, r'))))
      else if code c < 32 then None
      else (case parseStr s of None \<Rightarrow> None | Some (t, r') \<Rightarrow> Some (c # t, r')))"

definition spanDigits :: "string \<Rightarrow> string \<times> string" where
  "spanDigits s = (takeWhile isDigit s, dropWhile isDigit s)"

definition digitsVal :: "string \<Rightarrow> nat" where
  "digitsVal s = (case parseDigits 0 s of None \<Rightarrow> 0 | Some n \<Rightarrow> n)"

text \<open>The fraction and the exponent of a number: its digits, its value and the rest.\<close>

definition parseFrac :: "string \<Rightarrow> (string \<times> string) option" where
  "parseFrac s =
     (if HasPrefix s ''.'' then
        (case spanDigits (tl s) of (ds, r) \<Rightarrow> if ds = [] then None else Some (ds, r))
      else Some ([], s))"

definition parseExp :: "string \<Rightarrow> (int \<times> string) option" where
  "parseExp s =
     (if HasPrefix s ''e'' \<or> HasPrefix s ''E'' then
        (let t = tl s; neg = HasPrefix t ''-'';
             t' = (if neg \<or> HasPrefix t ''+'' then tl t else t)
         in case spanDigits t' of (ds, r) \<Rightarrow>
              if ds = [] then None
              else Some (if neg then - int (digitsVal ds) else int (digitsVal ds), r))
      else Some (0, s))"

text \<open>A number literal and its exact value.\<close>

definition parseNum :: "string \<Rightarrow> (rat \<times> string) option" where
  "parseNum s =
     (let neg = HasPrefix s ''-''; t = (if neg then tl s else s)
      in case spanDigits t of (ds, r) \<Rightarrow>
           if ds = [] \<or> (HasPrefix ds ''0'' \<and> ds \<noteq> ''0'') then None
           else case parseFrac r of None \<Rightarrow> None
                | Some (fs, r1) \<Rightarrow>
                    (case parseExp r1 of None \<Rightarrow> None
                     | Some (e, r2) \<Rightarrow>
                         (let v = of_nat (digitsVal (ds @ fs)) * 10 powi (e - int (length fs))
                          in Some (if neg then - v else v, r2))))"

section \<open>Values\<close>

definition maxNestingDepth :: nat where "maxNestingDepth = 10000"

definition parseLit :: "string \<Rightarrow> (json \<times> string) option" where
  "parseLit s =
     (if HasPrefix s ''null'' then Some (JNull, drop 4 s)
      else if HasPrefix s ''true'' then Some (JBool True, drop 4 s)
      else if HasPrefix s ''false'' then Some (JBool False, drop 5 s)
      else map_option (\<lambda>(v, r). (JNum v, r)) (parseNum s))"

fun parseValue :: "nat \<Rightarrow> nat \<Rightarrow> string \<Rightarrow> (json \<times> string) option"
  and parseElems :: "nat \<Rightarrow> nat \<Rightarrow> string \<Rightarrow> (json list \<times> string) option"
  and parseMembers :: "nat \<Rightarrow> nat \<Rightarrow> string \<Rightarrow> ((string \<times> json) list \<times> string) option" where
  "parseValue 0 d s = None"
| "parseValue (Suc f) d s =
     (case skipWs s of
        [] \<Rightarrow> None
      | c # r \<Rightarrow>
          if c = CHR ''{'' then
            (if d = 0 then None
             else if HasPrefix (skipWs r) ''}'' then Some (JObj [], tl (skipWs r))
             else map_option (\<lambda>(ms, r'). (JObj ms, r')) (parseMembers f (d - 1) r))
          else if c = CHR ''['' then
            (if d = 0 then None
             else if HasPrefix (skipWs r) '']'' then Some (JArr [], tl (skipWs r))
             else map_option (\<lambda>(vs, r'). (JArr vs, r')) (parseElems f (d - 1) r))
          else if c = dquote then map_option (\<lambda>(t, r'). (JStr t, r')) (parseStr r)
          else parseLit (c # r))"
| "parseElems 0 d s = None"
| "parseElems (Suc f) d s =
     (case parseValue f d s of
        None \<Rightarrow> None
      | Some (v, r) \<Rightarrow>
          if HasPrefix (skipWs r) '','' then
            map_option (\<lambda>(vs, r'). (v # vs, r')) (parseElems f d (tl (skipWs r)))
          else if HasPrefix (skipWs r) '']'' then Some ([v], tl (skipWs r))
          else None)"
| "parseMembers 0 d s = None"
| "parseMembers (Suc f) d s =
     (if HasPrefix (skipWs s) [dquote] then
        (case parseStr (tl (skipWs s)) of
           None \<Rightarrow> None
         | Some (k, r) \<Rightarrow>
             if HasPrefix (skipWs r) '':'' then
               (case parseValue f d (tl (skipWs r)) of
                  None \<Rightarrow> None
                | Some (v, r1) \<Rightarrow>
                    if HasPrefix (skipWs r1) '','' then
                      map_option (\<lambda>(ms, r'). ((k, v) # ms, r')) (parseMembers f d (tl (skipWs r1)))
                    else if HasPrefix (skipWs r1) ''}'' then Some ([(k, v)], tl (skipWs r1))
                    else None)
             else None)
      else None)"

definition parseJSON :: "string \<Rightarrow> json option" where
  "parseJSON s =
     (case parseValue (2 * length s + 4) maxNestingDepth s of
        Some (v, r) \<Rightarrow> if skipWs r = [] then Some v else None
      | None \<Rightarrow> None)"

definition Valid :: "string \<Rightarrow> bool" where
  "Valid s \<longleftrightarrow> parseJSON s \<noteq> None"

text \<open>
  Decoding into an \<^verbatim>\<open>any\<close>: every number becomes the nearest float64, and one that would round to
  an infinity is an error.
\<close>

definition maxFloat :: rat where "maxFloat = (2 ^ 53 - 1) * 2 ^ 971"

definition decodeNum :: "rat \<Rightarrow> float64 option" where
  "decodeNum x = (if \<bar>round64 x\<bar> \<le> maxFloat then Some (round64 x) else None)"

fun decodeAny :: "json \<Rightarrow> json option"
  and decodeAnys :: "json list \<Rightarrow> json list option"
  and decodeMembers :: "(string \<times> json) list \<Rightarrow> (string \<times> json) list option" where
  "decodeAny (JNum x) = map_option JNum (decodeNum x)"
| "decodeAny (JArr vs) = map_option JArr (decodeAnys vs)"
| "decodeAny (JObj ms) = map_option JObj (decodeMembers ms)"
| "decodeAny v = Some v"
| "decodeAnys [] = Some []"
| "decodeAnys (v # vs) =
     (case (decodeAny v, decodeAnys vs) of (Some w, Some ws) \<Rightarrow> Some (w # ws) | _ \<Rightarrow> None)"
| "decodeMembers [] = Some []"
| "decodeMembers ((k, v) # ms) =
     (case (decodeAny v, decodeMembers ms) of (Some w, Some ns) \<Rightarrow> Some ((k, w) # ns) | _ \<Rightarrow> None)"

definition Unmarshal :: "string \<Rightarrow> json option" where
  "Unmarshal s = Option.bind (parseJSON s) decodeAny"

text \<open>A lookup in a decoded object: the last member of the name.\<close>

definition member :: "(string \<times> json) list \<Rightarrow> string \<Rightarrow> json option" where
  "member ms k = map_of (rev ms) k"

section \<open>The string encoder\<close>

definition hexByte :: "nat \<Rightarrow> string" where
  "hexByte n = [hexChar (n div 16), hexChar (n mod 16)]"

text \<open>The encoder of \<^verbatim>\<open>json.Marshal\<close>, with its escaping of HTML characters, on one byte below 128.\<close>

definition encodeChar :: "char \<Rightarrow> string" where
  "encodeChar c =
     (if c = dquote \<or> c = backslash then [backslash, c]
      else if code c = 8 then backslash # ''b''
      else if code c = 12 then backslash # ''f''
      else if code c = 10 then backslash # ''n''
      else if code c = 13 then backslash # ''r''
      else if code c = 9 then backslash # ''t''
      else if code c < 32 \<or> c \<in> set ''<>&'' then backslash # ''u00'' @ hexByte (code c)
      else [c])"

definition encodeString :: "string \<Rightarrow> string" where
  "encodeString s = dquote # concat (map encodeChar s) @ [dquote]"

section \<open>Every parser reads a prefix of its input\<close>

lemma length_skipWs [simp]: "length (skipWs s) \<le> length s"
  by (simp add: skipWs_def length_dropWhile_le)

lemma length_tl_skipWs: "HasPrefix (skipWs s) (c # p) \<Longrightarrow> length (tl (skipWs s)) < length s"
  using length_skipWs [of s] by (cases "skipWs s") (auto simp: HasPrefix_def)

lemma length_tl_skipWs_le: "length r < n \<Longrightarrow> length (tl (skipWs r)) < n"
  using length_skipWs [of r] by (simp del: length_skipWs)

lemma skipWs_ConsD: "skipWs s = c # r \<Longrightarrow> length r < length s"
  using length_skipWs [of s] by simp

lemma parseStr_length: "parseStr s = Some (t, r) \<Longrightarrow> length r < length s"
proof (induction s arbitrary: t r rule: parseStr.induct)
  case (2 c s)
  then show ?case
    by (fastforce split: if_splits list.splits option.splits prod.splits simp: less_Suc_eq_le)
qed simp

lemma spanDigits_length: "spanDigits s = (ds, r) \<Longrightarrow> length ds + length r = length s"
  by (auto simp: spanDigits_def simp flip: length_append)

lemma length_tl_le: "length s \<le> n \<Longrightarrow> length (tl s) \<le> n"
  by simp

lemma parseFrac_length: "parseFrac s = Some (ds, r) \<Longrightarrow> length r \<le> length s"
  by (auto simp: parseFrac_def split: if_splits prod.splits dest!: spanDigits_length)

lemma parseExp_length: "parseExp s = Some (e, r) \<Longrightarrow> length r \<le> length s"
  by (auto simp: parseExp_def Let_def split: if_splits prod.splits dest!: spanDigits_length)

lemma parseNum_length: "parseNum s = Some (v, r) \<Longrightarrow> length r < length s"
proof -
  assume a: "parseNum s = Some (v, r)"
  obtain ds r0 where ds: "spanDigits (if HasPrefix s ''-'' then tl s else s) = (ds, r0)"
    by fastforce
  then have "length ds + length r0 \<le> length s"
    by (auto dest!: spanDigits_length split: if_splits)
  moreover from a ds obtain fs r1 e where "ds \<noteq> []" "parseFrac r0 = Some (fs, r1)" "parseExp r1 = Some (e, r)"
    by (auto simp: parseNum_def Let_def split: if_splits option.splits prod.splits)
  ultimately show ?thesis
    using parseFrac_length parseExp_length by (fastforce simp: neq_Nil_conv)
qed

lemma parseLit_length: "parseLit s = Some (v, r) \<Longrightarrow> length r < length s"
  by (auto simp: parseLit_def HasPrefix_iff split: if_splits prod.splits dest: parseNum_length)

lemma parse_length:
  "parseValue f d s = Some (v, r) \<Longrightarrow> length r < length s"
  "parseElems f d s = Some (vs, r) \<Longrightarrow> length r < length s"
  "parseMembers f d s = Some (ms, r) \<Longrightarrow> length r < length s"
proof (induction f d s and f d s and f d s arbitrary: v r and vs r and ms r
    rule: parseValue_parseElems_parseMembers.induct)
  case (2 f d s)
  obtain c q where q: "skipWs s = c # q"
    using "2.prems" by (auto split: list.splits)
  consider "parseMembers f (d - 1) q = Some (case v of JObj ms \<Rightarrow> ms, r)" "d \<noteq> 0" "c = CHR ''{''"
      "\<not> HasPrefix (skipWs q) ''}''"
    | "parseElems f (d - 1) q = Some (case v of JArr vs \<Rightarrow> vs, r)" "d \<noteq> 0" "c = CHR ''[''"
      "\<not> HasPrefix (skipWs q) '']''"
    | t where "parseStr q = Some (t, r)"
    | "parseLit (c # q) = Some (v, r)"
    | p where "HasPrefix (skipWs q) p" "p \<noteq> []" "r = tl (skipWs q)"
    using "2.prems" q by (auto split: if_splits)
  then have "length r < length (c # q)"
  proof cases
    case 1
    then show ?thesis using "2.IH"(1) [OF q] by fastforce
  next
    case 2
    then show ?thesis using "2.IH"(2) [OF q] by fastforce
  next
    case 3
    then show ?thesis using parseStr_length by fastforce
  next
    case 4
    then show ?thesis by (rule parseLit_length)
  next
    case 5
    then show ?thesis by (cases p) (auto dest!: length_tl_skipWs)
  qed
  then show ?case
    using q length_skipWs [of s] by simp
next
  case (4 f d s)
  from "4.prems" obtain w q where w: "parseValue f d s = Some (w, q)"
    by (auto split: option.splits)
  have lq: "length q < length s"
    using "4.IH"(1) [OF w] .
  show ?case
  proof (cases "HasPrefix (skipWs q) '',''")
    case True
    with "4.prems" w obtain ws where "parseElems f d (tl (skipWs q)) = Some (ws, r)"
      by auto
    then have "length r < length (tl (skipWs q))"
      using "4.IH"(2) [OF w refl True] by simp
    then show ?thesis using length_tl_skipWs [OF True] lq by simp
  next
    case False
    with "4.prems" w have "HasPrefix (skipWs q) '']''" and "r = tl (skipWs q)"
      by (auto split: if_splits)
    then show ?thesis using length_tl_skipWs [of q] lq by fastforce
  qed
next
  case (6 f d s)
  from "6.prems" have d: "HasPrefix (skipWs s) [dquote]"
    by (auto split: if_splits)
  with "6.prems" obtain k q where k: "parseStr (tl (skipWs s)) = Some (k, q)"
    by (auto split: option.splits)
  with "6.prems" d have col: "HasPrefix (skipWs q) '':''"
    by (auto split: if_splits)
  with "6.prems" d k obtain w q1 where w: "parseValue f d (tl (skipWs q)) = Some (w, q1)"
    by (auto split: option.splits)
  have "length q1 < length (tl (skipWs q))"
    using "6.IH"(1) [OF d k refl col w] .
  then have lq: "length q1 < length s"
    using length_tl_skipWs [OF col] parseStr_length [OF k] length_tl_skipWs [OF d] by simp
  show ?case
  proof (cases "HasPrefix (skipWs q1) '',''")
    case True
    with "6.prems" d k col w obtain ms' where "parseMembers f d (tl (skipWs q1)) = Some (ms', r)"
      by auto
    then have "length r < length (tl (skipWs q1))"
      using "6.IH"(2) [OF d k refl col w refl True] by simp
    then show ?thesis using length_tl_skipWs [OF True] lq by simp
  next
    case False
    with "6.prems" d k col w have "HasPrefix (skipWs q1) ''}''" and "r = tl (skipWs q1)"
      by (auto split: if_splits)
    then show ?thesis using length_tl_skipWs [of q1] lq by fastforce
  qed
qed simp_all

section \<open>The fuel is enough\<close>

lemma parse_fuel_eq:
  "(2 * length s + 2 \<le> f \<longrightarrow> 2 * length s + 2 \<le> g \<longrightarrow> parseValue f d s = parseValue g d s) \<and>
   (2 * length s + 3 \<le> f \<longrightarrow> 2 * length s + 3 \<le> g \<longrightarrow> parseElems f d s = parseElems g d s) \<and>
   (2 * length s + 3 \<le> f \<longrightarrow> 2 * length s + 3 \<le> g \<longrightarrow> parseMembers f d s = parseMembers g d s)"
proof (induction f arbitrary: g d s)
  case 0
  then show ?case by simp
next
  case (Suc f)
  show ?case
  proof (cases g)
    case 0
    then show ?thesis by simp
  next
    case g: (Suc g')
    have V: "parseValue (Suc f) d s = parseValue (Suc g') d s"
      if "2 * length s + 2 \<le> Suc f" and "2 * length s + 2 \<le> Suc g'"
    proof (cases "skipWs s")
      case (Cons c r)
      then have "length r < length s" by (rule skipWs_ConsD)
      then have "parseMembers f (d - 1) r = parseMembers g' (d - 1) r"
        and "parseElems f (d - 1) r = parseElems g' (d - 1) r"
        using Suc.IH [of r g' "d - 1"] that by simp_all
      then show ?thesis using Cons by simp
    qed simp
    have E: "parseElems (Suc f) d s = parseElems (Suc g') d s"
      if "2 * length s + 3 \<le> Suc f" and "2 * length s + 3 \<le> Suc g'"
    proof -
      have v: "parseValue f d s = parseValue g' d s"
        using Suc.IH [of s g' d] that by simp
      have "parseElems f d (tl (skipWs r)) = parseElems g' d (tl (skipWs r))"
        if "parseValue g' d s = Some (w, r)" for w r
        using Suc.IH [of "tl (skipWs r)" g' d] length_tl_skipWs_le [OF parse_length(1) [OF that]]
          \<open>2 * length s + 3 \<le> Suc f\<close> \<open>2 * length s + 3 \<le> Suc g'\<close> by (simp del: length_tl)
      then show ?thesis using v by (simp split: option.split prod.split)
    qed
    have M: "parseMembers (Suc f) d s = parseMembers (Suc g') d s"
      if fg: "2 * length s + 3 \<le> Suc f" "2 * length s + 3 \<le> Suc g'"
    proof -
      have v: "parseValue f d (tl (skipWs r)) = parseValue g' d (tl (skipWs r))"
        and m: "parseValue g' d (tl (skipWs r)) = Some (w, r1) \<Longrightarrow>
          parseMembers f d (tl (skipWs r1)) = parseMembers g' d (tl (skipWs r1))"
        if "parseStr (tl (skipWs s)) = Some (k, r)" for k r w r1
      proof -
        have "length (tl (skipWs s)) \<le> length s"
          using length_skipWs [of s] by (simp del: length_skipWs)
        then have lr: "length (tl (skipWs r)) < length s"
          using length_tl_skipWs_le [OF parseStr_length [OF that]] by (simp del: length_tl)
        then show "parseValue f d (tl (skipWs r)) = parseValue g' d (tl (skipWs r))"
          using Suc.IH [of "tl (skipWs r)" g' d] fg by (simp del: length_tl)
        assume "parseValue g' d (tl (skipWs r)) = Some (w, r1)"
        then have "length (tl (skipWs r1)) < length s"
          using length_tl_skipWs_le [OF parse_length(1)] lr by (meson less_trans)
        then show "parseMembers f d (tl (skipWs r1)) = parseMembers g' d (tl (skipWs r1))"
          using Suc.IH [of "tl (skipWs r1)" g' d] fg by (simp del: length_tl)
      qed
      then show ?thesis by (simp split: option.split prod.split)
    qed
    show ?thesis using V E M g by blast
  qed
qed

text \<open>A supply of fuel larger than the one \<open>parseJSON\<close> starts with changes nothing.\<close>

lemma parse_fuel:
  "2 * length s + 4 \<le> f \<Longrightarrow> parseValue f d s = parseValue (2 * length s + 4) d s"
  using parse_fuel_eq [of s f "2 * length s + 4" d] by simp

section \<open>Decoding what the encoder wrote\<close>

lemma hexVal_hexChar: "d < 16 \<Longrightarrow> hexVal (hexChar d) = Some d"
  by (auto simp: hexVal_def hexChar_def isDigit_def code_def)

lemma hex4_00: "n < 256 \<Longrightarrow> hex4 (CHR ''0'' # CHR ''0'' # hexByte n @ t) = Some n"
  by (simp add: hex4_def hexByte_def hexVal_hexChar) (simp add: hexVal_def isDigit_def code_def)

lemma utf8_code: "code c < 128 \<Longrightarrow> utf8 (code c) = [c]"
  by (simp add: utf8_def code_def)

lemma parseStr_encodeChar:
  "parseStr (encodeChar c @ t) = (case parseStr t of None \<Rightarrow> None | Some (x, r) \<Rightarrow> Some (c # x, r))"
proof -
  have esc: "parseStr (backslash # ''u00'' @ hexByte (code c) @ t) =
      (case parseStr t of None \<Rightarrow> None | Some (x, r) \<Rightarrow> Some (c # x, r))" if "code c < 128"
    using that hex4_00 [of "code c" t]
    by (simp add: unicodeEscape_def isSurrogate_def utf8_code backslash_def dquote_def hexByte_def
        split: option.split)
  have simple: "parseStr (backslash # e # t) =
      (case parseStr t of None \<Rightarrow> None | Some (x, r) \<Rightarrow> Some (c # x, r))"
    if "simpleEscape e = Some c" and "e \<noteq> CHR ''u''" for e
    using that by (simp add: backslash_def dquote_def split: option.split)
  have code: "code c = n \<Longrightarrow> c = char_of n" for n
    by (auto simp: code_def)
  consider (quote) "c = dquote \<or> c = backslash"
    | (ctl) "code c = 8 \<or> code c = 12 \<or> code c = 10 \<or> code c = 13 \<or> code c = 9"
    | (hex) "encodeChar c = backslash # ''u00'' @ hexByte (code c)" "code c < 128"
    | (plain) "encodeChar c = [c]" "c \<noteq> dquote" "c \<noteq> backslash" "\<not> code c < 32"
  proof (cases "c = dquote \<or> c = backslash \<or> code c = 8 \<or> code c = 12 \<or> code c = 10 \<or> code c = 13 \<or> code c = 9")
    case False
    then show ?thesis
    proof (cases "code c < 32 \<or> c \<in> set ''<>&''")
      case True
      then have "code c < 128" by (auto simp: code_def)
      with False True show ?thesis by (intro hex) (simp_all add: encodeChar_def)
    qed (use False plain in \<open>simp add: encodeChar_def\<close>)
  qed (use quote ctl in blast)
  then show ?thesis
  proof cases
    case quote
    then show ?thesis
      using simple [of c]
      by (auto simp: encodeChar_def simpleEscape_def dquote_def backslash_def simp del: parseStr.simps)
  next
    case ctl
    then have "c = CHR 8 \<or> c = CHR 12 \<or> c = CHR 10 \<or> c = CHR 13 \<or> c = CHR 9"
      using code [of 8] code [of 12] code [of 10] code [of 13] code [of 9]
      by (auto simp: char_of_def bit_0)
    then have "\<exists>e. encodeChar c = [backslash, e] \<and> simpleEscape e = Some c \<and> e \<noteq> CHR ''u''"
      by (elim disjE) (simp_all add: encodeChar_def simpleEscape_def dquote_def backslash_def code_def)
    then show ?thesis
      using simple by (auto simp del: parseStr.simps)
  next
    case hex
    then show ?thesis using esc by simp
  next
    case plain
    then show ?thesis by (simp split: option.split)
  qed
qed

lemma parseStr_encode: "parseStr (concat (map encodeChar s) @ dquote # t) = Some (s, t)"
  by (induction s) (simp_all add: parseStr_encodeChar)

end
