(* ===== verification/GoUrl.thy ===== *)
theory GoUrl
  imports GoPrelude
begin

text \<open>
  What the sources use of Go's \<^verbatim>\<open>net/url\<close> and \<^verbatim>\<open>net\<close>: \<^verbatim>\<open>url.Parse\<close>, \<^verbatim>\<open>IsAbs\<close>, \<^verbatim>\<open>Hostname\<close>,
  \<^verbatim>\<open>ResolveReference\<close>, \<^verbatim>\<open>String\<close>, \<^verbatim>\<open>net.ParseIP\<close> and \<^verbatim>\<open>IP.Equal\<close>, written after the functions of the
  Go 1.24 library. An error is the text that \<^verbatim>\<open>Error()\<close> of the library's error gives, wrapped as
  \<^verbatim>\<open>url.Parse\<close> wraps it.
\<close>

datatype escMode = encodePath | encodeHost | encodeZone | encodeUserPassword | encodeFragment

record URL =
  Scheme :: string
  Opaque :: string
  User :: "(string \<times> string option) option"  \<comment> \<open>user name and, when set, password\<close>
  Host :: string
  Path :: string
  RawPath :: string
  OmitHost :: bool
  ForceQuery :: bool
  RawQuery :: string
  Fragment :: string
  RawFragment :: string

definition emptyURL :: URL where
  "emptyURL = \<lparr>Scheme = '''', Opaque = '''', User = None, Host = '''', Path = '''', RawPath = '''',
     OmitHost = False, ForceQuery = False, RawQuery = '''', Fragment = '''', RawFragment = ''''\<rparr>"

section \<open>Percent-encoding\<close>

definition isAlnum :: "char \<Rightarrow> bool" where
  "isAlnum c \<longleftrightarrow> isAlpha c \<or> isDigit c"

definition shouldEscape :: "char \<Rightarrow> escMode \<Rightarrow> bool" where
  "shouldEscape c mode =
     (if isAlnum c then False
      else if (mode = encodeHost \<or> mode = encodeZone) \<and> c \<in> set (''!$&()*+,;=:[]<>'' @ [CHR 0x27, CHR 0x22])
        then False
      else if c \<in> set ''-_.~'' then False
      else if c \<in> set ''$&+,/:;=?@'' then
        (case mode of
           encodePath \<Rightarrow> c = CHR ''?''
         | encodeUserPassword \<Rightarrow> c \<in> set ''@/?:''
         | encodeFragment \<Rightarrow> False
         | _ \<Rightarrow> True)
      else if mode = encodeFragment \<and> c \<in> set ''!()*'' then False
      else True)"

definition unhex :: "char \<Rightarrow> nat option" where
  "unhex c =
     (if isDigit c then Some (code c - 48)
      else if 97 \<le> code c \<and> code c \<le> 102 then Some (code c - 87)
      else if 65 \<le> code c \<and> code c \<le> 70 then Some (code c - 55)
      else None)"

definition escapeError :: "string \<Rightarrow> string" where
  "escapeError s = ''invalid URL escape '' @ Quote s"

definition invalidHostError :: "char \<Rightarrow> string" where
  "invalidHostError c = ''invalid character '' @ Quote [c] @ '' in host name''"

fun unescape :: "escMode \<Rightarrow> string \<Rightarrow> string result" where
  "unescape mode [] = Inr []"
| "unescape mode (c # s) =
     (if c = CHR ''%'' then
        (case s of
           a # b # rest \<Rightarrow>
             (case (unhex a, unhex b) of
                (Some h, Some l) \<Rightarrow>
                  (let v = char_of (16 * h + l) in
                   if mode = encodeHost \<and> h < 8 \<and> \<not> (a = CHR ''2'' \<and> b = CHR ''5'')
                     then Inl (escapeError [c, a, b])
                   else if mode = encodeZone \<and> \<not> (a = CHR ''2'' \<and> b = CHR ''5'') \<and> v \<noteq> CHR '' '' \<and>
                        shouldEscape v encodeHost
                     then Inl (escapeError [c, a, b])
                   else (case unescape mode rest of Inl e \<Rightarrow> Inl e | Inr r \<Rightarrow> Inr (v # r)))
              | _ \<Rightarrow> Inl (escapeError [c, a, b]))
         | _ \<Rightarrow> Inl (escapeError (c # s)))
      else if (mode = encodeHost \<or> mode = encodeZone) \<and> code c < 128 \<and> shouldEscape c mode
        then Inl (invalidHostError c)
      else (case unescape mode s of Inl e \<Rightarrow> Inl e | Inr r \<Rightarrow> Inr (c # r)))"

definition upperHex :: "nat \<Rightarrow> char" where
  "upperHex d = (if d < 10 then char_of (48 + d) else char_of (55 + d))"

definition escape :: "escMode \<Rightarrow> string \<Rightarrow> string" where
  "escape mode s = concat (map (\<lambda>c. if shouldEscape c mode
     then [CHR ''%'', upperHex (code c div 16), upperHex (code c mod 16)] else [c]) s)"

section \<open>Parsing\<close>

fun getScheme_from :: "string \<Rightarrow> nat \<Rightarrow> string \<Rightarrow> (string \<times> string) result" where
  "getScheme_from raw i [] = Inr ([], raw)"
| "getScheme_from raw i (c # s) =
     (if isAlpha c then getScheme_from raw (Suc i) s
      else if isDigit c \<or> c \<in> set ''+-.'' then
        (if i = 0 then Inr ([], raw) else getScheme_from raw (Suc i) s)
      else if c = CHR '':'' then
        (if i = 0 then Inl ''missing protocol scheme'' else Inr (take i raw, s))
      else Inr ([], raw))"

definition getScheme :: "string \<Rightarrow> (string \<times> string) result" where
  "getScheme raw = getScheme_from raw 0 raw"

definition validOptionalPort :: "string \<Rightarrow> bool" where
  "validOptionalPort p = (case p of [] \<Rightarrow> True | c # s \<Rightarrow> c = CHR '':'' \<and> list_all isDigit s)"

text \<open>The index of the first \<^verbatim>\<open>%25\<close>, the zone mark of an IPv6 literal.\<close>

fun zoneIndex :: "string \<Rightarrow> nat option" where
  "zoneIndex [] = None"
| "zoneIndex (c # s) = (if HasPrefix (c # s) ''%25'' then Some 0 else map_option Suc (zoneIndex s))"

definition portError :: "string \<Rightarrow> string" where
  "portError p = ''invalid port '' @ Quote p @ '' after host''"

definition parseHost :: "string \<Rightarrow> string result" where
  "parseHost host =
     (if HasPrefix host ''['' then
        (case LastIndex host CHR '']'' of
           None \<Rightarrow> Inl ''missing ']' in host''
         | Some i \<Rightarrow>
             if \<not> validOptionalPort (drop (Suc i) host) then Inl (portError (drop (Suc i) host))
             else (case zoneIndex (take i host) of
                     None \<Rightarrow> unescape encodeHost host
                   | Some z \<Rightarrow>
                       (case unescape encodeHost (take z host) of Inl e \<Rightarrow> Inl e | Inr h1 \<Rightarrow>
                        (case unescape encodeZone (drop z (take i host)) of Inl e \<Rightarrow> Inl e | Inr h2 \<Rightarrow>
                         (case unescape encodeHost (drop i host) of Inl e \<Rightarrow> Inl e | Inr h3 \<Rightarrow>
                            Inr (h1 @ h2 @ h3))))))
      else case LastIndex host CHR '':'' of
             None \<Rightarrow> unescape encodeHost host
           | Some i \<Rightarrow>
               if \<not> validOptionalPort (drop i host) then Inl (portError (drop i host))
               else unescape encodeHost host)"

definition validUserinfo :: "string \<Rightarrow> bool" where
  "validUserinfo s = list_all (\<lambda>c. isAlnum c \<or> c \<in> set (''-._:~!$&()*+,;=%@'' @ [CHR 0x27])) s"

definition parseAuthority :: "string \<Rightarrow> ((string \<times> string option) option \<times> string) result" where
  "parseAuthority authority =
     (case LastIndex authority CHR ''@'' of
        None \<Rightarrow> (case parseHost authority of Inl e \<Rightarrow> Inl e | Inr h \<Rightarrow> Inr (None, h))
      | Some i \<Rightarrow>
          (case parseHost (drop (Suc i) authority) of Inl e \<Rightarrow> Inl e | Inr h \<Rightarrow>
           (let userinfo = take i authority in
            if \<not> validUserinfo userinfo then Inl ''net/url: invalid userinfo''
            else case Cut userinfo CHR '':'' of
                   (u, p, hasPw) \<Rightarrow>
                     (case unescape encodeUserPassword u of Inl e \<Rightarrow> Inl e | Inr u' \<Rightarrow>
                      if \<not> hasPw then Inr (Some (u', None), h)
                      else (case unescape encodeUserPassword p of Inl e \<Rightarrow> Inl e | Inr p' \<Rightarrow>
                            Inr (Some (u', Some p'), h))))))"

definition setPath :: "URL \<Rightarrow> string \<Rightarrow> URL result" where
  "setPath u p =
     (case unescape encodePath p of Inl e \<Rightarrow> Inl e
      | Inr path \<Rightarrow> Inr (u\<lparr>Path := path, RawPath := (if escape encodePath path = p then '''' else p)\<rparr>))"

definition setFragment :: "URL \<Rightarrow> string \<Rightarrow> URL result" where
  "setFragment u f =
     (case unescape encodeFragment f of Inl e \<Rightarrow> Inl e
      | Inr frag \<Rightarrow> Inr (u\<lparr>Fragment := frag,
                         RawFragment := (if escape encodeFragment frag = f then '''' else f)\<rparr>))"

definition containsCTL :: "string \<Rightarrow> bool" where
  "containsCTL s = list_ex (\<lambda>c. code c < 32 \<or> code c = 127) s"

text \<open>Splitting off the query: a single question mark at the end is kept as \<^verbatim>\<open>ForceQuery\<close>.\<close>

definition splitQuery :: "string \<Rightarrow> bool \<times> string \<times> string" where
  "splitQuery rest =
     (if HasSuffix rest ''?'' \<and> length (filter (\<lambda>c. c = CHR ''?'') rest) = 1
      then (True, take (length rest - 1) rest, '''')
      else case Cut rest CHR ''?'' of (r, q, _) \<Rightarrow> (False, r, q))"

text \<open>The authority and the path of \<^verbatim>\<open>//authority/path\<close>, after the two slashes.\<close>

definition splitAuthority :: "string \<Rightarrow> string \<times> string" where
  "splitAuthority s = (takeWhile (\<lambda>c. c \<noteq> CHR ''/'') s, dropWhile (\<lambda>c. c \<noteq> CHR ''/'') s)"

definition parseRest :: "URL \<Rightarrow> string \<Rightarrow> URL result" where
  "parseRest u rest =
     (if \<not> HasPrefix rest ''/'' \<and> Scheme u \<noteq> '''' then Inr (u\<lparr>Opaque := rest\<rparr>)
      else if \<not> HasPrefix rest ''/'' \<and> CHR '':'' \<in> set (fst (Cut rest CHR ''/''))
        then Inl ''first path segment in URL cannot contain colon''
      else if (Scheme u \<noteq> '''' \<or> \<not> HasPrefix rest ''///'') \<and> HasPrefix rest ''//'' then
        (case splitAuthority (drop 2 rest) of
           (authority, path) \<Rightarrow>
             (case parseAuthority authority of Inl e \<Rightarrow> Inl e
              | Inr (usr, h) \<Rightarrow> setPath (u\<lparr>User := usr, Host := h\<rparr>) path))
      else setPath (u\<lparr>OmitHost := (Scheme u \<noteq> '''' \<and> HasPrefix rest ''/'')\<rparr>) rest)"

definition parseNoFragment :: "string \<Rightarrow> URL result" where
  "parseNoFragment raw =
     (if containsCTL raw then Inl ''net/url: invalid control character in URL''
      else if raw = ''*'' then Inr (emptyURL\<lparr>Path := ''*''\<rparr>)
      else case getScheme raw of Inl e \<Rightarrow> Inl e
           | Inr (scheme, rest) \<Rightarrow>
               (case splitQuery rest of (fq, rest', q) \<Rightarrow>
                  parseRest (emptyURL\<lparr>Scheme := ToLower scheme, ForceQuery := fq, RawQuery := q\<rparr>) rest'))"

definition parseError :: "string \<Rightarrow> string \<Rightarrow> string" where
  "parseError raw e = ''parse '' @ Quote raw @ '': '' @ e"

definition Parse :: "string \<Rightarrow> URL result" where
  "Parse raw =
     (case Cut raw CHR ''#'' of (u, frag, _) \<Rightarrow>
        (case parseNoFragment u of Inl e \<Rightarrow> Inl (parseError u e)
         | Inr url \<Rightarrow> if frag = '''' then Inr url
                      else (case setFragment url frag of Inl e \<Rightarrow> Inl (parseError raw e)
                            | Inr url' \<Rightarrow> Inr url')))"

section \<open>Hosts, references and printing\<close>

definition IsAbs :: "URL \<Rightarrow> bool" where
  "IsAbs u \<longleftrightarrow> Scheme u \<noteq> ''''"

definition Hostname :: "URL \<Rightarrow> string" where
  "Hostname u =
     (let h = Host u;
          h' = (case LastIndex h CHR '':'' of None \<Rightarrow> h
                | Some i \<Rightarrow> if validOptionalPort (drop i h) then take i h else h)
      in if HasPrefix h' ''['' \<and> HasSuffix h' '']'' then take (length h' - 2) (drop 1 h') else h')"

text \<open>\<^verbatim>\<open>validEncoded\<close> and \<^verbatim>\<open>EscapedPath\<close>.\<close>

definition validEncodedPath :: "string \<Rightarrow> bool" where
  "validEncodedPath s =
     list_all (\<lambda>c. c \<in> set (''!$&()*+,;=:@[]%'' @ [CHR 0x27]) \<or> \<not> shouldEscape c encodePath) s"

definition EscapedPath :: "URL \<Rightarrow> string" where
  "EscapedPath u =
     (if RawPath u \<noteq> '''' \<and> validEncodedPath (RawPath u) \<and> unescape encodePath (RawPath u) = Inr (Path u)
      then RawPath u
      else if Path u = ''*'' then ''*''
      else escape encodePath (Path u))"

text \<open>
  The loop of \<^verbatim>\<open>resolvePath\<close> over the elements of the path; \<open>dst\<close> is the builder's content
  without the slash it starts with.
\<close>

fun resolveElems :: "string \<Rightarrow> bool \<Rightarrow> string list \<Rightarrow> string" where
  "resolveElems dst first [] = dst"
| "resolveElems dst first (e # es) =
     (let final = (es = [] \<and> (e = ''.'' \<or> e = ''..''));
          tailr = (\<lambda>d f. if final then d @ ''/'' else resolveElems d f es)
      in if e = ''.'' then tailr dst False
         else if e = ''..'' then
           (case LastIndex dst CHR ''/'' of
              None \<Rightarrow> tailr '''' True
            | Some i \<Rightarrow> tailr (take i dst) first)
         else resolveElems (dst @ (if first then '''' else ''/'') @ e) False es)"

definition resolvePath :: "string \<Rightarrow> string \<Rightarrow> string" where
  "resolvePath base ref =
     (let full = (if ref = '''' then base
                  else if \<not> HasPrefix ref ''/'' then
                    (case LastIndex base CHR ''/'' of None \<Rightarrow> ref | Some i \<Rightarrow> take (Suc i) base @ ref)
                  else ref)
      in if full = '''' then ''''
         else let r = CHR ''/'' # resolveElems '''' True (Split full CHR ''/'')
              in if HasPrefix r ''//'' then tl r else r)"

text \<open>\<^verbatim>\<open>ResolveReference\<close> ignores an error of \<^verbatim>\<open>setPath\<close>, which leaves the path as it was.\<close>

definition setPathOr :: "URL \<Rightarrow> string \<Rightarrow> URL" where
  "setPathOr u p = (case setPath u p of Inl _ \<Rightarrow> u | Inr u' \<Rightarrow> u')"

definition ResolveReference :: "URL \<Rightarrow> URL \<Rightarrow> URL" where
  "ResolveReference u ref =
     (let url = (if Scheme ref = '''' then ref\<lparr>Scheme := Scheme u\<rparr> else ref)
      in if Scheme ref \<noteq> '''' \<or> Host ref \<noteq> '''' \<or> User ref \<noteq> None
           then setPathOr url (resolvePath (EscapedPath ref) '''')
         else if Opaque ref \<noteq> '''' then url\<lparr>User := None, Host := '''', Path := ''''\<rparr>
         else let noQuery = (Path ref = '''' \<and> \<not> ForceQuery ref \<and> RawQuery ref = '''');
                  url1 = (if noQuery then url\<lparr>RawQuery := RawQuery u\<rparr> else url);
                  url2 = (if noQuery \<and> Fragment ref = ''''
                          then url1\<lparr>Fragment := Fragment u, RawFragment := RawFragment u\<rparr> else url1)
              in if Path ref = '''' \<and> Opaque u \<noteq> ''''
                   then url2\<lparr>Opaque := Opaque u, User := None, Host := '''', Path := ''''\<rparr>
                 else setPathOr (url2\<lparr>Host := Host u, User := User u\<rparr>)
                        (resolvePath (EscapedPath u) (EscapedPath ref)))"

definition userinfoString :: "string \<times> string option \<Rightarrow> string" where
  "userinfoString ui = (case ui of (u, p) \<Rightarrow> escape encodeUserPassword u @
     (case p of None \<Rightarrow> '''' | Some pw \<Rightarrow> '':'' @ escape encodeUserPassword pw))"

definition EscapedFragment :: "URL \<Rightarrow> string" where
  "EscapedFragment u =
     (if RawFragment u \<noteq> '''' \<and>
         list_all (\<lambda>c. c \<in> set (''!$&()*+,;=:@[]%'' @ [CHR 0x27]) \<or> \<not> shouldEscape c encodeFragment) (RawFragment u) \<and>
         unescape encodeFragment (RawFragment u) = Inr (Fragment u)
      then RawFragment u else escape encodeFragment (Fragment u))"

definition URLString :: "URL \<Rightarrow> string" where
  "URLString u =
     (let scheme = (if Scheme u \<noteq> '''' then Scheme u @ '':'' else '''');
          body = (if Opaque u \<noteq> '''' then Opaque u
                  else
                    let auth = (if Scheme u \<noteq> '''' \<or> Host u \<noteq> '''' \<or> User u \<noteq> None
                                then (if OmitHost u \<and> Host u = '''' \<and> User u = None then ''''
                                      else (if Host u \<noteq> '''' \<or> Path u \<noteq> '''' \<or> User u \<noteq> None then ''//'' else '''') @
                                           (case User u of None \<Rightarrow> '''' | Some ui \<Rightarrow> userinfoString ui @ ''@'') @
                                           escape encodeHost (Host u))
                                else '''');
                        path = EscapedPath u;
                        slash = (if path \<noteq> '''' \<and> \<not> HasPrefix path ''/'' \<and> Host u \<noteq> '''' then ''/'' else '''');
                        dot = (if scheme @ auth @ slash = '''' \<and> CHR '':'' \<in> set (fst (Cut path CHR ''/''))
                               then ''./'' else '''')
                    in auth @ slash @ dot @ path);
          query = (if ForceQuery u \<or> RawQuery u \<noteq> '''' then ''?'' @ RawQuery u else '''');
          frag = (if Fragment u \<noteq> '''' then ''#'' @ EscapedFragment u else '''')
      in scheme @ body @ query @ frag)"

section \<open>IP addresses\<close>

text \<open>
  \<^verbatim>\<open>net.ParseIP\<close>: an address is its sixteen bytes, an IPv4 address in its IPv6-mapped form, so
  \<^verbatim>\<open>IP.Equal\<close>, which identifies the two forms, is equality.
\<close>

type_synonym IP = "nat list"

definition ipv4Field :: "string \<Rightarrow> nat option" where
  "ipv4Field f =
     (if f = '''' \<or> length f > 3 \<or> (HasPrefix f ''0'' \<and> f \<noteq> ''0'') then None
      else case parseDigits 0 f of Some n \<Rightarrow> if n \<le> 255 then Some n else None | None \<Rightarrow> None)"

definition parseIPv4 :: "string \<Rightarrow> (nat list) option" where
  "parseIPv4 s =
     (case map ipv4Field (Split s CHR ''.'') of
        [Some a, Some b, Some c, Some d] \<Rightarrow> Some [a, b, c, d]
      | _ \<Rightarrow> None)"

text \<open>The two bytes of a group of at most four hexadecimal digits.\<close>

definition hexGroup :: "string \<Rightarrow> nat list" where
  "hexGroup s =
     (case replicate (4 - length s) 0 @ map (\<lambda>c. case unhex c of Some d \<Rightarrow> d | None \<Rightarrow> 0) s of
        [a, b, c, d] \<Rightarrow> [16 * a + b, 16 * c + d]
      | _ \<Rightarrow> [])"

text \<open>
  The loop of \<^verbatim>\<open>parseIPv6\<close>: \<open>k\<close> groups may still be read, \<open>gs\<close> are the bytes read, \<open>el\<close> is the
  position of the ellipsis. It ends with the bytes and the ellipsis when the text is used up.
\<close>

fun parseGroups :: "nat \<Rightarrow> nat list \<Rightarrow> nat option \<Rightarrow> string \<Rightarrow> (nat list \<times> nat option) option" where
  "parseGroups 0 gs el s = (if s = '''' then Some (gs, el) else None)"
| "parseGroups (Suc k) gs el s =
     (let h = takeWhile (\<lambda>c. unhex c \<noteq> None) s; r = dropWhile (\<lambda>c. unhex c \<noteq> None) s
      in if h = '''' \<or> length h > 4 then None
         else if HasPrefix r ''.'' then
           (if (el = None \<and> length gs \<noteq> 12) \<or> length gs > 12 then None
            else case parseIPv4 s of None \<Rightarrow> None | Some bs \<Rightarrow> Some (gs @ bs, el))
         else let gs' = gs @ hexGroup h in
           if r = '''' then Some (gs', el)
           else if \<not> HasPrefix r '':'' \<or> length r = 1 then None
           else if HasPrefix r ''::'' then
             (if el \<noteq> None then None
              else if length r = 2 then Some (gs', Some (length gs'))
              else parseGroups k gs' (Some (length gs')) (drop 2 r))
           else parseGroups k gs' el (drop 1 r))"

definition expandGroups :: "nat list \<Rightarrow> nat option \<Rightarrow> IP option" where
  "expandGroups gs el =
     (if length gs < 16 then
        (case el of None \<Rightarrow> None
         | Some i \<Rightarrow> Some (take i gs @ replicate (16 - length gs) 0 @ drop i gs))
      else if el = None then Some gs else None)"

definition parseIPv6 :: "string \<Rightarrow> IP option" where
  "parseIPv6 s =
     (if CHR ''%'' \<in> set s then None
      else if s = ''::'' then Some (replicate 16 0)
      else case (if HasPrefix s ''::'' then parseGroups 8 [] (Some 0) (drop 2 s) else parseGroups 8 [] None s) of
             None \<Rightarrow> None
           | Some (gs, el) \<Rightarrow> expandGroups gs el)"

definition ParseIP :: "string \<Rightarrow> IP option" where
  "ParseIP s =
     (case find (\<lambda>c. c \<in> set ''.:%'') s of
        None \<Rightarrow> None
      | Some c \<Rightarrow>
          if c = CHR ''.'' then
            (case parseIPv4 s of None \<Rightarrow> None | Some bs \<Rightarrow> Some (replicate 10 0 @ [255, 255] @ bs))
          else if c = CHR '':'' then parseIPv6 s
          else None)"

section \<open>Facts on references\<close>

lemma setPathOr_fields [simp]:
  "Scheme (setPathOr u p) = Scheme u" "Host (setPathOr u p) = Host u" "User (setPathOr u p) = User u"
  by (simp_all add: setPathOr_def setPath_def split: sum.split)

lemma ResolveReference_Scheme [simp]:
  "Scheme (ResolveReference u ref) = (if Scheme ref = '''' then Scheme u else Scheme ref)"
  by (simp add: ResolveReference_def Let_def)

text \<open>A reference with no scheme and no host stays on the host of its base, or has none.\<close>

lemma ResolveReference_Host:
  "Host (ResolveReference u ref) =
     (if Scheme ref \<noteq> '''' \<or> Host ref \<noteq> '''' then Host ref
      else if User ref \<noteq> None \<or> Opaque ref \<noteq> '''' \<or> (Path ref = '''' \<and> Opaque u \<noteq> '''') then ''''
      else Host u)"
  by (auto simp: ResolveReference_def Let_def)

lemma ResolveReference_User:
  "User (ResolveReference u ref) =
     (if Scheme ref \<noteq> '''' \<or> Host ref \<noteq> '''' \<or> User ref \<noteq> None then User ref
      else if Opaque ref \<noteq> '''' \<or> (Path ref = '''' \<and> Opaque u \<noteq> '''') then None
      else User u)"
  by (auto simp: ResolveReference_def Let_def)

lemma Hostname_cong: "Host u = Host v \<Longrightarrow> Hostname u = Hostname v"
  by (simp add: Hostname_def)

end
