(* ===== verification/Scenario.thy ===== *)
theory Scenario
  imports GoJson GoUrl
begin

text \<open>
  \<^verbatim>\<open>internal/scenario/schema.go\<close>: the scenario contract, its defaults (\<^verbatim>\<open>Normalized\<close>), the expansion of
  environment variables (\<^verbatim>\<open>WithEnv\<close>), its validation (\<^verbatim>\<open>Validate\<close>) and the loading of a scenario file.

  The environment is a parameter \<open>env\<close>, the function \<^verbatim>\<open>os.Getenv\<close> (the empty string for a variable
  that is not set). The Go code writes through the slices and maps it is given; the model returns
  the new value, which is what every caller uses.
\<close>

definition CurrentVersion :: int where "CurrentVersion = 1"

text \<open>\<^verbatim>\<open>TrafficType\<close> is a string type; these are its five constants.\<close>

definition TrafficLoad :: string where "TrafficLoad = ''load''"
definition TrafficBurst :: string where "TrafficBurst = ''burst''"
definition TrafficSpike :: string where "TrafficSpike = ''spike''"
definition TrafficRace :: string where "TrafficRace = ''race''"
definition TrafficRetryStorm :: string where "TrafficRetryStorm = ''retry_storm''"

lemmas traffic_types = TrafficLoad_def TrafficBurst_def TrafficSpike_def TrafficRace_def TrafficRetryStorm_def

type_synonym headers = "string gomap option"

record RetryPolicy =
  rp_Attempts :: int
  rp_BackoffMS :: int

record Traffic =
  tr_Type :: string
  tr_Concurrency :: int
  tr_Iterations :: int
  tr_RatePerSecond :: int
  tr_Retry :: RetryPolicy

record Target =
  tg_ID :: string
  tg_BaseURL :: string
  tg_Headers :: headers

record Request =
  rq_Name :: string
  rq_Method :: string
  rq_Path :: string
  rq_Headers :: headers
  rq_JSON :: string
  rq_Body :: string
  rq_ExpectStatus :: "int list option"

text \<open>The statuses a request expects; a nil slice has none.\<close>

definition expectedStatuses :: "Request \<Rightarrow> int list" where
  "expectedStatuses req = (case rq_ExpectStatus req of None \<Rightarrow> [] | Some s \<Rightarrow> s)"

record Thresholds =
  th_MaxErrorRate :: "float64 option"
  th_P95MS :: "float64 option"

record Invariant =
  iv_Name :: string
  iv_Type :: string
  iv_Request :: string
  iv_Method :: string
  iv_Path :: string
  iv_Headers :: headers
  iv_Status :: "int option"
  iv_Equals :: "int option"
  iv_Min :: "int option"
  iv_Max :: "int option"
  iv_ExpectJSONPath :: string
  iv_ExpectEquals :: json

record Scenario =
  sc_Version :: int
  sc_Name :: string
  sc_Description :: string
  sc_Target :: Target
  sc_Traffic :: Traffic
  sc_Setup :: "Request list"
  sc_Requests :: "Request list"
  sc_Teardown :: "Request list"
  sc_Thresholds :: Thresholds
  sc_Invariants :: "Invariant list"

section \<open>Defaults\<close>

definition emptyIfNil :: "headers \<Rightarrow> headers" where
  "emptyIfNil h = (case h of None \<Rightarrow> Some [] | Some m \<Rightarrow> Some m)"

definition normalizeMethod :: "string \<Rightarrow> string" where
  "normalizeMethod m = ToUpper (if m = '''' then ''GET'' else m)"

definition normalizeRequest :: "Request \<Rightarrow> Request" where
  "normalizeRequest r = r\<lparr>rq_Method := normalizeMethod (rq_Method r), rq_Headers := emptyIfNil (rq_Headers r)\<rparr>"

definition normalizeRequests :: "Request list \<Rightarrow> Request list" where
  "normalizeRequests rs = map normalizeRequest rs"

definition normalizeInvariant :: "Invariant \<Rightarrow> Invariant" where
  "normalizeInvariant i = i\<lparr>iv_Method := normalizeMethod (iv_Method i), iv_Headers := emptyIfNil (iv_Headers i)\<rparr>"

definition normalizeTraffic :: "Traffic \<Rightarrow> Traffic" where
  "normalizeTraffic t =
     (let t1 = (if tr_Type t = '''' then t\<lparr>tr_Type := TrafficLoad\<rparr> else t);
          t2 = (if tr_Concurrency t1 \<le> 0 then t1\<lparr>tr_Concurrency := 1\<rparr> else t1);
          t3 = (if tr_Iterations t2 \<le> 0 then t2\<lparr>tr_Iterations := 1\<rparr> else t2)
      in if tr_Type t3 = TrafficRetryStorm \<and> rp_Attempts (tr_Retry t3) \<le> 0
         then t3\<lparr>tr_Retry := (tr_Retry t3)\<lparr>rp_Attempts := 3\<rparr>\<rparr> else t3)"

definition Normalized :: "Scenario \<Rightarrow> Scenario" where
  "Normalized s =
     s\<lparr>sc_Version := (if sc_Version s = 0 then CurrentVersion else sc_Version s),
       sc_Traffic := normalizeTraffic (sc_Traffic s),
       sc_Target := (sc_Target s)\<lparr>tg_Headers := emptyIfNil (tg_Headers (sc_Target s))\<rparr>,
       sc_Setup := normalizeRequests (sc_Setup s),
       sc_Requests := normalizeRequests (sc_Requests s),
       sc_Teardown := normalizeRequests (sc_Teardown s),
       sc_Invariants := map normalizeInvariant (sc_Invariants s)\<rparr>"

section \<open>Environment variables\<close>

text \<open>\<^verbatim>\<open>os.ExpandEnv\<close> and its helper \<^verbatim>\<open>getShellName\<close>: the name and the number of bytes it takes.\<close>

definition isShellSpecialVar :: "char \<Rightarrow> bool" where
  "isShellSpecialVar c \<longleftrightarrow> c \<in> set ''*#$@!?-'' \<or> isDigit c"

definition isShellNameChar :: "char \<Rightarrow> bool" where
  "isShellNameChar c \<longleftrightarrow> c = CHR ''_'' \<or> isDigit c \<or> isAlpha c"

definition getShellName :: "string \<Rightarrow> string \<times> nat" where
  "getShellName s =
     (case s of
        [] \<Rightarrow> ([], 0)
      | c # r \<Rightarrow>
          if c = CHR ''{'' then
            (case r of
               a # b # _ \<Rightarrow>
                 if isShellSpecialVar a \<and> b = CHR ''}'' then ([a], 3)
                 else (case Index r CHR ''}'' of
                         None \<Rightarrow> ([], 1)
                       | Some i \<Rightarrow> if i = 0 then ([], 2) else (take i r, i + 2))
             | _ \<Rightarrow> (case Index r CHR ''}'' of
                       None \<Rightarrow> ([], 1)
                     | Some i \<Rightarrow> if i = 0 then ([], 2) else (take i r, i + 2)))
          else if isShellSpecialVar c then ([c], 1)
          else (let name = takeWhile isShellNameChar s in (name, length name)))"

function ExpandEnv :: "(string \<Rightarrow> string) \<Rightarrow> string \<Rightarrow> string" where
  "ExpandEnv env [] = []"
| "ExpandEnv env (c # s) =
     (if c = CHR ''$'' \<and> s \<noteq> [] then
        (case getShellName s of (name, w) \<Rightarrow>
           (if name = [] \<and> w > 0 then [] else if name = [] then [c] else env name) @
           ExpandEnv env (drop w s))
      else c # ExpandEnv env s)"
  by pat_completeness auto
termination
  by (relation "measure (\<lambda>(env, s). length s)") auto

definition expandHeaders :: "(string \<Rightarrow> string) \<Rightarrow> headers \<Rightarrow> headers" where
  "expandHeaders env h = map_option (map (\<lambda>(k, v). (k, ExpandEnv env v))) h"

definition expandRequest :: "(string \<Rightarrow> string) \<Rightarrow> Request \<Rightarrow> Request" where
  "expandRequest env r =
     r\<lparr>rq_Name := ExpandEnv env (rq_Name r),
       rq_Path := ExpandEnv env (rq_Path r),
       rq_Body := ExpandEnv env (rq_Body r),
       rq_JSON := (if length (rq_JSON r) > 0 then ExpandEnv env (rq_JSON r) else rq_JSON r),
       rq_Headers := expandHeaders env (rq_Headers r)\<rparr>"

definition expandRequestEnv :: "(string \<Rightarrow> string) \<Rightarrow> Request list \<Rightarrow> Request list" where
  "expandRequestEnv env rs = map (expandRequest env) rs"

definition expandInvariant :: "(string \<Rightarrow> string) \<Rightarrow> Invariant \<Rightarrow> Invariant" where
  "expandInvariant env i =
     i\<lparr>iv_Name := ExpandEnv env (iv_Name i),
       iv_Request := ExpandEnv env (iv_Request i),
       iv_Path := ExpandEnv env (iv_Path i),
       iv_Headers := expandHeaders env (iv_Headers i)\<rparr>"

definition WithEnv :: "(string \<Rightarrow> string) \<Rightarrow> Scenario \<Rightarrow> Scenario" where
  "WithEnv env s =
     s\<lparr>sc_Name := ExpandEnv env (sc_Name s),
       sc_Description := ExpandEnv env (sc_Description s),
       sc_Target := (sc_Target s)\<lparr>tg_BaseURL := ExpandEnv env (tg_BaseURL (sc_Target s)),
                                   tg_Headers := expandHeaders env (tg_Headers (sc_Target s))\<rparr>,
       sc_Setup := expandRequestEnv env (sc_Setup s),
       sc_Requests := expandRequestEnv env (sc_Requests s),
       sc_Teardown := expandRequestEnv env (sc_Teardown s),
       sc_Invariants := map (expandInvariant env) (sc_Invariants s)\<rparr>"

section \<open>Validation\<close>

definition parseHTTPURL :: "string \<Rightarrow> URL result" where
  "parseHTTPURL raw =
     (if TrimSpace raw = '''' then Inl ''is required''
      else case Parse raw of
             Inl e \<Rightarrow> Inl e
           | Inr u \<Rightarrow>
               if Scheme u \<noteq> ''http'' \<and> Scheme u \<noteq> ''https'' then Inl ''must use http or https''
               else if Host u = '''' then Inl ''must include a host''
               else Inr u)"

text \<open>The element \<^verbatim>\<open>prefix[i]\<close> in a message.\<close>

definition indexed :: "string \<Rightarrow> nat \<Rightarrow> string" where
  "indexed prefix i = prefix @ ''['' @ Itoa (int i) @ '']''"

definition requestProblems :: "string \<Rightarrow> nat \<Rightarrow> Request \<Rightarrow> string list" where
  "requestProblems prefix i r =
     (if TrimSpace (rq_Name r) = '''' then [indexed prefix i @ ''.name is required''] else []) @
     (if rq_Path r = '''' then [indexed prefix i @ ''.path is required''] else []) @
     (if length (rq_JSON r) > 0 \<and> \<not> Valid (rq_JSON r) then [indexed prefix i @ ''.json must be valid JSON''] else [])"

definition validateRequests :: "string \<Rightarrow> Request list \<Rightarrow> string list" where
  "validateRequests prefix rs = concat (map (\<lambda>(i, r). requestProblems prefix i r) (enumerate 0 rs))"

definition invariantProblems :: "nat \<Rightarrow> Invariant \<Rightarrow> string list" where
  "invariantProblems i v =
     (if TrimSpace (iv_Name v) = '''' then [indexed ''invariants'' i @ ''.name is required''] else []) @
     (if iv_Type v = ''response_count'' then
        (if iv_Equals v = None \<and> iv_Min v = None \<and> iv_Max v = None
         then [indexed ''invariants'' i @ '' response_count needs equals, min, or max''] else [])
      else if iv_Type v = ''http_probe'' then
        (if iv_Path v = '''' then [indexed ''invariants'' i @ '' http_probe needs path''] else []) @
        (if iv_ExpectJSONPath v = '''' then [indexed ''invariants'' i @ '' http_probe needs expect.json_path''] else [])
      else [indexed ''invariants'' i @ ''.type must be response_count or http_probe''])"

definition knownTrafficType :: "string \<Rightarrow> bool" where
  "knownTrafficType t \<longleftrightarrow> t \<in> set [TrafficLoad, TrafficBurst, TrafficSpike, TrafficRace, TrafficRetryStorm]"

definition trafficProblems :: "Traffic \<Rightarrow> string list" where
  "trafficProblems t =
     (if knownTrafficType (tr_Type t) then []
      else [''traffic.type must be one of load, burst, spike, race, retry_storm'']) @
     (if tr_Concurrency t < 1 then [''traffic.concurrency must be >= 1''] else []) @
     (if tr_Iterations t < 1 then [''traffic.iterations must be >= 1''] else []) @
     (if tr_RatePerSecond t < 0 then [''traffic.rate_per_second must be >= 0''] else []) @
     (if rp_Attempts (tr_Retry t) < 0 then [''traffic.retry.attempts must be >= 0''] else []) @
     (if rp_BackoffMS (tr_Retry t) < 0 then [''traffic.retry.backoff_ms must be >= 0''] else [])"

definition scenarioProblems :: "Scenario \<Rightarrow> string list" where
  "scenarioProblems s =
     (if sc_Version s \<noteq> CurrentVersion then [''version must be '' @ Itoa CurrentVersion] else []) @
     (if TrimSpace (sc_Name s) = '''' then [''name is required''] else []) @
     (case parseHTTPURL (tg_BaseURL (sc_Target s)) of
        Inl e \<Rightarrow> [''target.base_url '' @ e] | Inr _ \<Rightarrow> []) @
     (if length (sc_Requests s) = 0 then [''at least one request is required''] else []) @
     trafficProblems (sc_Traffic s) @
     validateRequests ''setup'' (sc_Setup s) @
     validateRequests ''requests'' (sc_Requests s) @
     validateRequests ''teardown'' (sc_Teardown s) @
     concat (map (\<lambda>(i, v). invariantProblems i v) (enumerate 0 (sc_Invariants s)))"

text \<open>The error of \<^verbatim>\<open>Validate\<close>, or None for nil.\<close>

definition Validate :: "Scenario \<Rightarrow> string option" where
  "Validate s = (let problems = scenarioProblems s
     in if length problems > 0 then Some (Join problems ''; '') else None)"

section \<open>Loading\<close>

text \<open>
  \<^verbatim>\<open>LoadFile\<close>; \<open>content\<close> is the result of \<^verbatim>\<open>os.ReadFile\<close> and \<open>decode\<close> the decoder of the file's
  bytes into a \<^verbatim>\<open>Scenario\<close>.
\<close>

definition LoadFile :: "(string \<Rightarrow> string) \<Rightarrow> (string \<Rightarrow> Scenario result) \<Rightarrow> string result \<Rightarrow> Scenario result" where
  "LoadFile env decode content =
     (case content of
        Inl e \<Rightarrow> Inl e
      | Inr raw \<Rightarrow>
          (case decode raw of
             Inl e \<Rightarrow> Inl (''parse scenario: '' @ e)
           | Inr sc \<Rightarrow>
               (let sc' = Normalized (WithEnv env sc)
                in case Validate sc' of Some e \<Rightarrow> Inl e | None \<Rightarrow> Inr sc')))"

section \<open>Normalisation\<close>

lemma emptyIfNil_idem [simp]: "emptyIfNil (emptyIfNil h) = emptyIfNil h"
  by (simp add: emptyIfNil_def split: option.split)

lemma normalizeMethod_idem [simp]: "normalizeMethod (normalizeMethod m) = normalizeMethod m"
  by (simp add: normalizeMethod_def)

lemma normalizeRequests_idem [simp]: "normalizeRequests (normalizeRequests rs) = normalizeRequests rs"
  by (simp add: normalizeRequests_def normalizeRequest_def)

lemma normalizeInvariant_idem [simp]: "normalizeInvariant (normalizeInvariant i) = normalizeInvariant i"
  by (simp add: normalizeInvariant_def)

lemma normalizeTraffic_idem [simp]: "normalizeTraffic (normalizeTraffic t) = normalizeTraffic t"
  by (simp add: normalizeTraffic_def Let_def traffic_types)

text \<open>
  C38: \<^verbatim>\<open>Normalized\<close> is a normal form. Normalising a scenario twice (the API normalises before it stores, and
  the runner normalises what it loads) is normalising it once.
\<close>

theorem Normalized_idempotent: "Normalized (Normalized s) = Normalized s"
  by (simp add: Normalized_def CurrentVersion_def)

lemma normalizeTraffic_problems:
  "trafficProblems (normalizeTraffic t) = [] \<longleftrightarrow>
     (tr_Type t = '''' \<or> knownTrafficType (tr_Type t)) \<and> 0 \<le> tr_RatePerSecond t \<and>
     0 \<le> rp_BackoffMS (tr_Retry t) \<and> (tr_Type t = TrafficRetryStorm \<or> 0 \<le> rp_Attempts (tr_Retry t))"
  by (simp add: normalizeTraffic_def trafficProblems_def knownTrafficType_def Let_def traffic_types)

text \<open>
  After normalisation only the fields without a default can make the traffic block invalid: an unknown type,
  a negative rate or backoff, or a negative number of attempts outside a retry storm. Concurrency and
  iterations are at least one whatever the file says.
\<close>

theorem Normalized_traffic_valid:
  "trafficProblems (sc_Traffic (Normalized s)) = [] \<longleftrightarrow>
     (tr_Type (sc_Traffic s) = '''' \<or> knownTrafficType (tr_Type (sc_Traffic s))) \<and>
     0 \<le> tr_RatePerSecond (sc_Traffic s) \<and> 0 \<le> rp_BackoffMS (tr_Retry (sc_Traffic s)) \<and>
     (tr_Type (sc_Traffic s) = TrafficRetryStorm \<or> 0 \<le> rp_Attempts (tr_Retry (sc_Traffic s)))"
  by (simp add: Normalized_def normalizeTraffic_problems)

section \<open>Validation\<close>

text \<open>What \<^verbatim>\<open>Validate\<close> is meant to accept, stated without its list of problems.\<close>

definition goodRequest :: "Request \<Rightarrow> bool" where
  "goodRequest r \<longleftrightarrow> TrimSpace (rq_Name r) \<noteq> '''' \<and> rq_Path r \<noteq> '''' \<and> (rq_JSON r = '''' \<or> Valid (rq_JSON r))"

definition goodInvariant :: "Invariant \<Rightarrow> bool" where
  "goodInvariant v \<longleftrightarrow> TrimSpace (iv_Name v) \<noteq> '''' \<and>
     (iv_Type v = ''response_count'' \<and> (iv_Equals v, iv_Min v, iv_Max v) \<noteq> (None, None, None) \<or>
      iv_Type v = ''http_probe'' \<and> iv_Path v \<noteq> '''' \<and> iv_ExpectJSONPath v \<noteq> '''')"

definition httpBase :: "string \<Rightarrow> bool" where
  "httpBase raw \<longleftrightarrow> TrimSpace raw \<noteq> '''' \<and>
     (\<exists>u. Parse raw = Inr u \<and> (Scheme u = ''http'' \<or> Scheme u = ''https'') \<and> Host u \<noteq> '''')"

lemma parseHTTPURL_ok: "(\<exists>u. parseHTTPURL raw = Inr u) \<longleftrightarrow> httpBase raw"
  by (auto simp: parseHTTPURL_def httpBase_def split: sum.split)

lemma requestProblems_Nil: "requestProblems p i r = [] \<longleftrightarrow> goodRequest r"
  by (auto simp: requestProblems_def goodRequest_def)

lemma validateRequests_Nil: "validateRequests p rs = [] \<longleftrightarrow> list_all goodRequest rs"
  unfolding validateRequests_def by (rule concat_enumerate_Nil) (rule requestProblems_Nil)

lemma invariantProblems_Nil: "invariantProblems i v = [] \<longleftrightarrow> goodInvariant v"
  by (simp add: invariantProblems_def goodInvariant_def)

lemma Validate_None_iff: "Validate s = None \<longleftrightarrow> scenarioProblems s = []"
  by (simp add: Validate_def Let_def)


section \<open>Environment variables\<close>

text \<open>
  A byte that cannot start a name after a dollar sign. The expansion leaves a dollar sign only
  before such a byte or at the end, so what it leaves is not expanded again.
\<close>

definition noName :: "char \<Rightarrow> bool" where
  "noName c \<longleftrightarrow> c \<noteq> CHR ''{'' \<and> \<not> isShellSpecialVar c \<and> \<not> isShellNameChar c"

fun settled :: "string \<Rightarrow> bool" where
  "settled [] = True"
| "settled (c # s) = ((c = CHR ''$'' \<longrightarrow> s = [] \<or> noName (hd s)) \<and> settled s)"

lemma getShellName_empty: "s \<noteq> [] \<Longrightarrow> getShellName s = ([], 0) \<longleftrightarrow> noName (hd s)"
  by (cases s) (auto simp: getShellName_def noName_def Let_def split: list.split option.split)

lemma settled_append: "CHR ''$'' \<notin> set a \<Longrightarrow> settled (a @ b) = settled b"
  by (induction a) auto

lemma ExpandEnv_settled: "settled s \<Longrightarrow> ExpandEnv env s = s"
proof (induction s)
  case (Cons c s)
  then show ?case
    using getShellName_empty [of s] by (cases "c = CHR ''$'' \<and> s \<noteq> []") auto
qed simp

lemma hd_ExpandEnv: "s \<noteq> [] \<Longrightarrow> hd s \<noteq> CHR ''$'' \<Longrightarrow> ExpandEnv env s \<noteq> [] \<and> hd (ExpandEnv env s) = hd s"
  by (cases s) auto

lemma settled_ExpandEnv:
  assumes "\<And>n. CHR ''$'' \<notin> set (env n)"
  shows "settled (ExpandEnv env s)"
  using assms
proof (induction env s rule: ExpandEnv.induct)
  case (2 env c s)
  show ?case
  proof (cases "c = CHR ''$'' \<and> s \<noteq> []")
    case True
    obtain name w where nw: "getShellName s = (name, w)"
      by fastforce
    have rest: "settled (ExpandEnv env (drop w s))"
      using "2.IH"(1) [OF True nw [symmetric] "2.prems"] .
    show ?thesis
    proof (cases "name = [] \<and> w = 0")
      case True': True
      then have "noName (hd s)"
        using getShellName_empty [of s] nw True by simp
      moreover from this have "hd s \<noteq> CHR ''$''"
        by (auto simp: noName_def isShellSpecialVar_def)
      ultimately show ?thesis
        using True True' nw rest hd_ExpandEnv [of s env] by simp
    next
      case False
      then show ?thesis
        using True nw rest "2.prems" [of name] by (auto simp: settled_append)
    qed
  next
    case False
    then show ?thesis
      using "2.IH"(2) "2.prems" by (auto split: if_splits)
  qed
qed simp

lemma ExpandEnv_idem:
  "(\<And>n. CHR ''$'' \<notin> set (env n)) \<Longrightarrow> ExpandEnv env (ExpandEnv env s) = ExpandEnv env s"
  by (rule ExpandEnv_settled) (rule settled_ExpandEnv)

lemma expandHeaders_idem:
  "(\<And>n. CHR ''$'' \<notin> set (env n)) \<Longrightarrow> expandHeaders env (expandHeaders env h) = expandHeaders env h"
  by (cases h) (auto simp: expandHeaders_def ExpandEnv_idem)

lemma expandRequest_idem:
  "(\<And>n. CHR ''$'' \<notin> set (env n)) \<Longrightarrow> expandRequest env (expandRequest env r) = expandRequest env r"
  by (auto simp: expandRequest_def ExpandEnv_idem expandHeaders_idem)

lemma expandInvariant_idem:
  "(\<And>n. CHR ''$'' \<notin> set (env n)) \<Longrightarrow> expandInvariant env (expandInvariant env i) = expandInvariant env i"
  by (auto simp: expandInvariant_def ExpandEnv_idem expandHeaders_idem)

text \<open>
  When no environment variable holds a dollar sign, expanding a scenario twice is expanding it once: the
  scenario that the runner expands again is the one that was validated.
\<close>

theorem WithEnv_idempotent:
  assumes "\<And>n. CHR ''$'' \<notin> set (env n)"
  shows "WithEnv env (WithEnv env s) = WithEnv env s"
  using assms
  by (simp add: WithEnv_def expandRequestEnv_def ExpandEnv_idem expandHeaders_idem expandRequest_idem
      expandInvariant_idem)

section \<open>A concrete scenario\<close>

text \<open>The scenario of \<^verbatim>\<open>examples/scenarios/checkout-idempotency-race.json\<close>, for the witnesses.\<close>

definition checkoutRequest :: Request where
  "checkoutRequest = \<lparr>rq_Name = ''checkout'', rq_Method = ''POST'', rq_Path = ''/checkout'',
     rq_Headers = Some [(''Idempotency-Key'', ''same-key-123'')], rq_JSON = '''', rq_Body = ''user-123'',
     rq_ExpectStatus = Some [201, 409]\<rparr>"

definition resetRequest :: Request where
  "resetRequest = \<lparr>rq_Name = ''reset-demo-state'', rq_Method = ''POST'', rq_Path = ''/reset'',
     rq_Headers = None, rq_JSON = '''', rq_Body = '''', rq_ExpectStatus = Some [200]\<rparr>"

definition oneOrderProbe :: Invariant where
  "oneOrderProbe = \<lparr>iv_Name = ''only-one-order-created'', iv_Type = ''http_probe'', iv_Request = '''',
     iv_Method = ''GET'', iv_Path = ''/orders'', iv_Headers = None, iv_Status = None, iv_Equals = None,
     iv_Min = None, iv_Max = None, iv_ExpectJSONPath = ''$.count'', iv_ExpectEquals = JNum 1\<rparr>"

definition checkoutRace :: Scenario where
  "checkoutRace = \<lparr>sc_Version = 1, sc_Name = ''checkout-idempotency-race'', sc_Description = '''',
     sc_Target = \<lparr>tg_ID = '''', tg_BaseURL = ''http://localhost:9090'', tg_Headers = None\<rparr>,
     sc_Traffic = \<lparr>tr_Type = ''race'', tr_Concurrency = 2, tr_Iterations = 1, tr_RatePerSecond = 0,
                   tr_Retry = \<lparr>rp_Attempts = 0, rp_BackoffMS = 0\<rparr>\<rparr>,
     sc_Setup = [resetRequest], sc_Requests = [checkoutRequest], sc_Teardown = [],
     sc_Thresholds = \<lparr>th_MaxErrorRate = None, th_P95MS = None\<rparr>, sc_Invariants = [oneOrderProbe]\<rparr>"

definition portEnv :: "string \<Rightarrow> string" where
  "portEnv n = (if n = ''PORT'' then ''9090'' else '''')"

theorem WithEnv_idempotent_witness:
  "(\<forall>n. CHR ''$'' \<notin> set (portEnv n)) \<and>
   WithEnv portEnv (WithEnv portEnv (checkoutRace\<lparr>sc_Name := ''on $PORT''\<rparr>)) =
     WithEnv portEnv (checkoutRace\<lparr>sc_Name := ''on $PORT''\<rparr>)"
proof -
  have h: "CHR ''$'' \<notin> set (portEnv n)" for n
    by (simp add: portEnv_def)
  show ?thesis
    using h WithEnv_idempotent [of portEnv, OF h] by blast
qed

end
