(* ===== verification/JsonPath.thy ===== *)
theory JsonPath
  imports Scenario
begin

text \<open>
  \<^verbatim>\<open>internal/scenario/jsonpath.go\<close>: \<^verbatim>\<open>LookupJSONPath\<close> and \<^verbatim>\<open>parseSegment\<close>. The three results of the Go function
  (value, found, error) are the three constructors of \<open>lookup\<close>. The error of a text that is not
  JSON carries the text of the decoder's message, a parameter \<open>jsonErr\<close>.
\<close>

datatype lookup = LookupError string | NotFound | Found json

section \<open>Segments\<close>

text \<open>The loop of \<^verbatim>\<open>parseSegment\<close> over the text after the name; \<open>segment\<close> is quoted in its errors.\<close>

function parseIndexes :: "string \<Rightarrow> int list \<Rightarrow> string \<Rightarrow> (int list) result" where
  "parseIndexes segment indexes rest =
     (if rest = '''' then Inr indexes
      else if \<not> HasPrefix rest ''['' then Inl (''invalid index segment '' @ Quote segment)
      else case Index rest CHR '']'' of
             None \<Rightarrow> Inl (''unterminated index segment '' @ Quote segment)
           | Some end \<Rightarrow>
               (case Atoi (drop 1 (take end rest)) of
                  None \<Rightarrow> Inl (''invalid array index '' @ Quote (drop 1 (take end rest)))
                | Some n \<Rightarrow> parseIndexes segment (indexes @ [n]) (drop (Suc end) rest)))"
  by pat_completeness auto
termination
  by (relation "measure (\<lambda>(segment, indexes, rest). length rest)") auto

declare parseIndexes.simps [simp del]

definition parseSegment :: "string \<Rightarrow> (string \<times> int list) result" where
  "parseSegment segment =
     (case Index segment CHR ''['' of
        None \<Rightarrow> Inr (segment, [])
      | Some idx \<Rightarrow>
          (case parseIndexes segment [] (drop idx segment) of
             Inl e \<Rightarrow> Inl e
           | Inr is \<Rightarrow> Inr (take idx segment, is)))"

section \<open>Lookup\<close>

text \<open>The loop over the indexes of one segment; None is Go's "not found".\<close>

fun lookupIndexes :: "json \<Rightarrow> int list \<Rightarrow> json option" where
  "lookupIndexes current [] = Some current"
| "lookupIndexes current (index # is) =
     (case current of
        JArr vs \<Rightarrow>
          if index < 0 \<or> index \<ge> int (length vs) then None else lookupIndexes (vs ! nat index) is
      | _ \<Rightarrow> None)"

definition lookupName :: "json \<Rightarrow> string \<Rightarrow> json option" where
  "lookupName current name =
     (if name = '''' then Some current
      else case current of JObj ms \<Rightarrow> member ms name | _ \<Rightarrow> None)"

fun lookupSegments :: "json \<Rightarrow> string list \<Rightarrow> lookup" where
  "lookupSegments current [] = Found current"
| "lookupSegments current (segment # segments) =
     (if segment = '''' then LookupError ''invalid empty path segment''
      else if segment = ''length'' then
        (case current of
           JArr vs \<Rightarrow> lookupSegments (JNum (float_of_int (int (length vs)))) segments
         | _ \<Rightarrow> NotFound)
      else case parseSegment segment of
             Inl e \<Rightarrow> LookupError e
           | Inr (name, indexes) \<Rightarrow>
               (case lookupName current name of
                  None \<Rightarrow> NotFound
                | Some next \<Rightarrow>
                    (case lookupIndexes next indexes of
                       None \<Rightarrow> NotFound
                     | Some v \<Rightarrow> lookupSegments v segments)))"

definition LookupJSONPath :: "(string \<Rightarrow> string) \<Rightarrow> string \<Rightarrow> string \<Rightarrow> lookup" where
  "LookupJSONPath jsonErr raw path =
     (if path = '''' \<or> path = ''$'' then
        (case Unmarshal raw of None \<Rightarrow> LookupError (jsonErr raw) | Some v \<Rightarrow> Found v)
      else if \<not> HasPrefix path ''$.'' then LookupError ''only simple $.field paths are supported''
      else case Unmarshal raw of
             None \<Rightarrow> LookupError (jsonErr raw)
           | Some current \<Rightarrow> lookupSegments current (Split (TrimPrefix path ''$.'') CHR ''.''))"

section \<open>What a path means\<close>

text \<open>
  A specification of paths without their text: a path is a list of steps, each into a member, into
  an element or to the length, and \<open>walk\<close> follows them.
\<close>

datatype pathStep = Field string | Elem nat | Len

fun walk1 :: "json \<Rightarrow> pathStep \<Rightarrow> json option" where
  "walk1 (JObj ms) (Field k) = member ms k"
| "walk1 (JArr vs) (Elem i) = (if i < length vs then Some (vs ! i) else None)"
| "walk1 (JArr vs) Len = Some (JNum (float_of_int (int (length vs))))"
| "walk1 _ _ = None"

fun walk :: "json \<Rightarrow> pathStep list \<Rightarrow> json option" where
  "walk v [] = Some v"
| "walk v (p # ps) = Option.bind (walk1 v p) (\<lambda>w. walk w ps)"

text \<open>The text of a segment \<^verbatim>\<open>name[i][j]\<close> and of a path \<^verbatim>\<open>$.seg.seg\<close>, and the steps it stands for.\<close>

datatype segment = Named string "nat list" | LengthOf

definition segText :: "segment \<Rightarrow> string" where
  "segText s = (case s of
     Named name is \<Rightarrow> name @ concat (map (\<lambda>i. ''['' @ digits i @ '']'') is)
   | LengthOf \<Rightarrow> ''length'')"

definition pathText :: "segment list \<Rightarrow> string" where
  "pathText ss = ''$.'' @ Join (map segText ss) ''.''"

definition segSteps :: "segment \<Rightarrow> pathStep list" where
  "segSteps s = (case s of
     Named name is \<Rightarrow> (if name = '''' then [] else [Field name]) @ map Elem is
   | LengthOf \<Rightarrow> [Len])"

text \<open>
  A segment whose text reads back: its name holds no dot or bracket, its text is not empty and is not
  the word \<^verbatim>\<open>length\<close>, and its indexes fit in an \<^verbatim>\<open>int\<close>.
\<close>

fun goodSegment :: "segment \<Rightarrow> bool" where
  "goodSegment (Named name is) =
     (CHR ''.'' \<notin> set name \<and> CHR ''['' \<notin> set name \<and> (name \<noteq> '''' \<or> is \<noteq> []) \<and>
      (name \<noteq> ''length'' \<or> is \<noteq> []) \<and> list_all (\<lambda>i. int64 (int i)) is)"
| "goodSegment LengthOf = True"

section \<open>The lookup follows the path\<close>

lemma parseIndexes_texts:
  assumes "list_all (\<lambda>i. int64 (int i)) is"
  shows "parseIndexes seg acc (concat (map (\<lambda>i. ''['' @ digits i @ '']'') is)) = Inr (acc @ map int is)"
  using assms
proof (induction "is" arbitrary: acc)
  case Nil
  then show ?case by (simp add: parseIndexes.simps)
next
  case (Cons i "is")
  let ?rest = "concat (map (\<lambda>i. ''['' @ digits i @ '']'') is)"
  have "CHR '']'' \<notin> set (digits i)"
    by (rule digit_neq) (simp add: isDigit_def code_def)
  then have "Index (''['' @ digits i @ '']'' @ ?rest) CHR '']'' = Some (Suc (length (digits i)))"
    using Index_append [of "CHR '']''" "''['' @ digits i" ?rest] by simp
  then show ?case
    using Cons by (subst parseIndexes.simps) (simp add: HasPrefix_def Atoi_digits)
qed

lemma parseSegment_text:
  assumes "goodSegment (Named name is)"
  shows "parseSegment (segText (Named name is)) = Inr (name, map int is)"
proof (cases "is")
  case Nil
  then show ?thesis
    using assms by (simp add: parseSegment_def segText_def Index_None)
next
  case (Cons i js)
  have "Index (segText (Named name is)) CHR ''['' = Some (length name)"
    using assms Cons Index_append [of "CHR ''[''" name] by (simp add: segText_def)
  then show ?thesis
    using assms parseIndexes_texts [of "is" _ "[]"] by (simp add: parseSegment_def segText_def)
qed

lemma lookupIndexes_walk: "lookupIndexes v (map int is) = walk v (map Elem is)"
  by (induction "is" arbitrary: v) (auto split: json.split)

lemma walk_append: "walk v (ps @ qs) = Option.bind (walk v ps) (\<lambda>w. walk w qs)"
  by (induction ps arbitrary: v) (auto simp: bind_assoc)

lemma lookupName_walk: "lookupName v name = walk v (if name = '''' then [] else [Field name])"
  by (cases v) (auto simp: lookupName_def)

lemma segText_nonempty: "goodSegment s \<Longrightarrow> segText s \<noteq> ''''"
  by (cases s rule: goodSegment.cases) (auto simp: segText_def)

lemma segText_length:
  assumes "goodSegment (Named name is)"
  shows "segText (Named name is) \<noteq> ''length''"
proof (cases "is")
  case (Cons i js)
  then have "CHR ''['' \<in> set (segText (Named name is))"
    by (simp add: segText_def)
  then show ?thesis by auto
qed (use assms in \<open>simp add: segText_def\<close>)

lemma segText_no_dot: "goodSegment s \<Longrightarrow> CHR ''.'' \<notin> set (segText s)"
  by (cases s rule: goodSegment.cases) (auto simp: segText_def digit_neq isDigit_def code_def)

definition asLookup :: "json option \<Rightarrow> lookup" where
  "asLookup r = (case r of None \<Rightarrow> NotFound | Some v \<Rightarrow> Found v)"

lemma lookupSegments_walk:
  "list_all goodSegment ss \<Longrightarrow>
     lookupSegments v (map segText ss) = asLookup (walk v (concat (map segSteps ss)))"
proof (induction ss arbitrary: v)
  case Nil
  then show ?case by (simp add: asLookup_def)
next
  case (Cons s ss)
  show ?case
  proof (cases s)
    case (Named name "is")
    then show ?thesis
      using Cons segText_nonempty [of s] segText_length [of name "is"]
      by (auto simp: parseSegment_text lookupName_walk lookupIndexes_walk segSteps_def walk_append asLookup_def
          split: option.split bind_split)
  next
    case LengthOf
    then show ?thesis
      using Cons by (auto simp: segText_def segSteps_def asLookup_def split: json.split)
  qed
qed

text \<open>
  C39: \<^verbatim>\<open>LookupJSONPath\<close> does what a path says. On every path \<^verbatim>\<open>$.name[i].length...\<close> it returns the value that
  following the members, elements and lengths one after the other reaches in the decoded document,
  "not found" where there is none, and an error only for a text that is not JSON.
\<close>

theorem LookupJSONPath_correct:
  assumes "ss \<noteq> []" and "list_all goodSegment ss"
  shows "LookupJSONPath jsonErr raw (pathText ss) =
     (case Unmarshal raw of
        None \<Rightarrow> LookupError (jsonErr raw)
      | Some v \<Rightarrow> asLookup (walk v (concat (map segSteps ss))))"
proof -
  have "Split (Join (map segText ss) ''.'') CHR ''.'' = map segText ss"
    using assms by (intro Split_Join) (auto simp: list_all_iff segText_no_dot)
  moreover have "pathText ss \<noteq> '''' \<and> pathText ss \<noteq> ''$'' \<and> HasPrefix (pathText ss) ''$.'' \<and>
      TrimPrefix (pathText ss) ''$.'' = Join (map segText ss) ''.''"
    by (simp add: pathText_def TrimPrefix_def HasPrefix_def)
  ultimately show ?thesis
    using assms(2) by (simp add: LookupJSONPath_def lookupSegments_walk split: option.split)
qed

lemma decode_small_int: "\<bar>n\<bar> \<le> 2 ^ 53 \<Longrightarrow> decodeNum (of_int n) = Some (of_int n)"
proof -
  assume n: "\<bar>n\<bar> \<le> 2 ^ 53"
  then have "(of_int \<bar>n\<bar> :: rat) \<le> of_int (2 ^ 53)"
    by (simp only: of_int_le_iff)
  also have "\<dots> \<le> maxFloat"
    by (simp add: maxFloat_def)
  finally show ?thesis
    using n by (simp add: decodeNum_def round64_int)
qed

theorem LookupJSONPath_correct_witness:
  \<open>[Named ''orders'' [1], LengthOf] \<noteq> [] \<and> list_all goodSegment [Named ''orders'' [1], LengthOf] \<and>
   pathText [Named ''orders'' [1], LengthOf] = ''$.orders[1].length'' \<and>
   LookupJSONPath (\<lambda>_. ''bad'') ''{"orders":[3,[4,5]]}'' (pathText [Named ''orders'' [1], LengthOf]) =
     Found (JNum 2)\<close>
proof -
  let ?ss = "[Named ''orders'' [1], LengthOf]"
  have ne: "?ss \<noteq> []" and good: "list_all goodSegment ?ss"
    by (simp_all add: int64_def minInt64_def maxInt64_def)
  have p: \<open>parseJSON ''{"orders":[3,[4,5]]}'' = Some (JObj [(''orders'', JArr [JNum 3, JArr [JNum 4, JNum 5]])])\<close>
    by code_simp
  have u: \<open>Unmarshal ''{"orders":[3,[4,5]]}'' = Some (JObj [(''orders'', JArr [JNum 3, JArr [JNum 4, JNum 5]])])\<close>
    unfolding Unmarshal_def p
    using decode_small_int [of 3] decode_small_int [of 4] decode_small_int [of 5] by simp
  have t: "pathText ?ss = ''$.orders[1].length''"
    by (simp add: pathText_def segText_def digits.simps digitChar_def char_of_def bit_0)
  show ?thesis
    using ne good t LookupJSONPath_correct [OF ne good, of "\<lambda>_. ''bad''" \<open>''{"orders":[3,[4,5]]}''\<close>]
      round64_int [of 2]
    unfolding u by (simp add: segSteps_def member_def asLookup_def float_of_int_def)
qed

end
