(* ===== verification/Guardrails.thy ===== *)
theory Guardrails
  imports Scenario Config
begin

text \<open>
  \<^verbatim>\<open>internal/guardrails/guardrails.go\<close>: the limits and the network policy a scenario must satisfy before it is
  stored or executed. Each check appends its messages to a list of problems; the model returns the
  messages a check appends, and \<open>GuardrailsValidate\<close> concatenates them in the order of the code.
\<close>

section \<open>Hosts and the allowlist\<close>

definition isMetadataHost :: "string \<Rightarrow> bool" where
  "isMetadataHost host =
     (let h = ToLower (TrimSpace host)
      in if h = ''metadata.google.internal'' then True
         else ParseIP h \<noteq> None \<and> ParseIP h = ParseIP ''169.254.169.254'')"

definition normalizeAllowlistEntry :: "string \<Rightarrow> string" where
  "normalizeAllowlistEntry raw =
     (let entry = ToLower (TrimSpace raw)
      in if entry = '''' then ''''
         else if Contains entry ''://'' then
           (case Parse entry of
              Inr u \<Rightarrow> if Host u \<noteq> '''' then ToLower (Host u) else TrimSuffix entry ''/''
            | Inl _ \<Rightarrow> TrimSuffix entry ''/'')
         else TrimSuffix entry ''/'')"

fun matchesEntries :: "string \<Rightarrow> string \<Rightarrow> string list \<Rightarrow> bool" where
  "matchesEntries host hostport [] = False"
| "matchesEntries host hostport (entry # entries) =
     (let pattern = normalizeAllowlistEntry entry
      in if pattern = '''' then matchesEntries host hostport entries
         else if pattern = ''*'' then True
         else if HasPrefix pattern ''*.'' then
           (let suf = TrimPrefix pattern ''*.''
            in if host = suf \<or> HasSuffix host (''.'' @ suf) then True
               else matchesEntries host hostport entries)
         else if Contains pattern '':'' then
           (if pattern = hostport then True else matchesEntries host hostport entries)
         else if pattern = host then True
         else matchesEntries host hostport entries)"

definition matchesAllowlist :: "URL \<Rightarrow> string list \<Rightarrow> bool" where
  "matchesAllowlist u allowlist = matchesEntries (ToLower (Hostname u)) (ToLower (Host u)) allowlist"

definition sameOrigin :: "URL \<Rightarrow> URL \<Rightarrow> bool" where
  "sameOrigin l r \<longleftrightarrow> EqualFold (Scheme l) (Scheme r) \<and> EqualFold (Host l) (Host r)"

definition parseTargetURL :: "string \<Rightarrow> URL result" where
  "parseTargetURL raw = (if TrimSpace raw = '''' then Inl ''is required'' else Parse raw)"

definition resolveURL :: "URL \<Rightarrow> string \<Rightarrow> (URL \<times> bool) result" where
  "resolveURL base rawPath =
     (case Parse rawPath of
        Inl e \<Rightarrow> Inl e
      | Inr rel \<Rightarrow> Inr (ResolveReference base rel, IsAbs rel \<or> Host rel \<noteq> ''''))"

section \<open>The checks\<close>

definition validateTargetURL :: "string \<Rightarrow> URL \<Rightarrow> string list \<Rightarrow> bool \<Rightarrow> string list" where
  "validateTargetURL field u allowlist allowMetadataTarget =
     (if Scheme u \<noteq> ''http'' \<and> Scheme u \<noteq> ''https'' then [field @ '' must use http or https''] else []) @
     (if Host u = '''' then [field @ '' must include a host''] else []) @
     (if User u \<noteq> None then [field @ '' must not include credentials''] else []) @
     (if ContainsAny (Host u) [CHR 32, CHR 9, CHR 13, CHR 10] then [field @ '' host must not contain whitespace''] else []) @
     (if isMetadataHost (Hostname u) \<and> \<not> allowMetadataTarget \<and> \<not> matchesAllowlist u allowlist
      then [field @ '' host '' @ Quote (Hostname u) @ '' is blocked because it targets instance metadata''] else []) @
     (if length allowlist > 0 \<and> \<not> matchesAllowlist u allowlist
      then [field @ '' host '' @ Quote (Host u) @ '' is not in target allowlist''] else [])"

definition validatePathTarget :: "string \<Rightarrow> URL \<Rightarrow> string \<Rightarrow> string list \<Rightarrow> string list" where
  "validatePathTarget field base rawPath allowlist =
     (case resolveURL base rawPath of
        Inl e \<Rightarrow> [field @ '' '' @ e]
      | Inr (u, absolute) \<Rightarrow>
          validateTargetURL field u allowlist False @
          (if absolute \<and> length allowlist = 0 \<and> \<not> sameOrigin base u
           then [field @ '' absolute URL host '' @ Quote (Host u) @ '' does not match target.base_url host '' @
                 Quote (Host base) @ ''; configure target allowlist to permit external targets'']
           else []))"

definition validateRequestTargets :: "string \<Rightarrow> URL \<Rightarrow> Request list \<Rightarrow> string list \<Rightarrow> string list" where
  "validateRequestTargets prefix base rs allowlist =
     concat (map (\<lambda>(i, r). validatePathTarget (indexed prefix i @ ''.path'') base (rq_Path r) allowlist) (enumerate 0 rs))"

definition validateInvariantTarget :: "URL \<Rightarrow> string list \<Rightarrow> nat \<Rightarrow> Invariant \<Rightarrow> string list" where
  "validateInvariantTarget base allowlist i v =
     (if iv_Type v \<noteq> ''http_probe'' then []
      else validatePathTarget (indexed ''invariants'' i @ ''.path'') base (iv_Path v) allowlist)"

definition validateInvariantTargets :: "URL \<Rightarrow> Invariant list \<Rightarrow> string list \<Rightarrow> string list" where
  "validateInvariantTargets base vs allowlist =
     concat (map (\<lambda>(i, v). validateInvariantTarget base allowlist i v) (enumerate 0 vs))"

definition bodyProblems :: "string \<Rightarrow> int \<Rightarrow> nat \<Rightarrow> Request \<Rightarrow> string list" where
  "bodyProblems prefix maxBytes i r =
     (let js = int (length (rq_JSON r)); bs = int (length (rq_Body r))
      in (if js > maxBytes then [indexed prefix i @ ''.json size '' @ Itoa js @
            '' exceeds max_request_body_bytes '' @ Itoa maxBytes] else []) @
         (if bs > maxBytes then [indexed prefix i @ ''.body size '' @ Itoa bs @
            '' exceeds max_request_body_bytes '' @ Itoa maxBytes] else []))"

definition validateRequestBodies :: "string \<Rightarrow> Request list \<Rightarrow> int \<Rightarrow> string list" where
  "validateRequestBodies prefix rs maxBytes =
     (if maxBytes \<le> 0 then []
      else concat (map (\<lambda>(i, r). bodyProblems prefix maxBytes i r) (enumerate 0 rs)))"

definition guardrailProblems :: "Scenario \<Rightarrow> Guardrails \<Rightarrow> string list" where
  "guardrailProblems sc cfg =
     (let t = sc_Traffic sc; allowlist = gr_TargetAllowlist cfg; maxBytes = gr_MaxRequestBodyBytes cfg
      in (if gr_MaxConcurrency cfg > 0 \<and> tr_Concurrency t > gr_MaxConcurrency cfg
          then [''traffic.concurrency '' @ Itoa (tr_Concurrency t) @ '' exceeds max_concurrency '' @
                Itoa (gr_MaxConcurrency cfg)] else []) @
         (if gr_MaxRequestRate cfg > 0 \<and> tr_RatePerSecond t > gr_MaxRequestRate cfg
          then [''traffic.rate_per_second '' @ Itoa (tr_RatePerSecond t) @
                '' exceeds max_request_rate_per_second '' @ Itoa (gr_MaxRequestRate cfg)] else []) @
         validateRequestBodies ''setup'' (sc_Setup sc) maxBytes @
         validateRequestBodies ''requests'' (sc_Requests sc) maxBytes @
         validateRequestBodies ''teardown'' (sc_Teardown sc) maxBytes @
         (case parseTargetURL (tg_BaseURL (sc_Target sc)) of
            Inl e \<Rightarrow> [''target.base_url '' @ e]
          | Inr base \<Rightarrow>
              validateTargetURL ''target.base_url'' base allowlist (gr_AllowMetadataTarget cfg) @
              validateRequestTargets ''setup'' base (sc_Setup sc) allowlist @
              validateRequestTargets ''requests'' base (sc_Requests sc) allowlist @
              validateRequestTargets ''teardown'' base (sc_Teardown sc) allowlist @
              validateInvariantTargets base (sc_Invariants sc) allowlist))"

text \<open>\<^verbatim>\<open>ViolationError\<close> and its text.\<close>

record ViolationError =
  ve_Problems :: "string list"

definition violationText :: "ViolationError \<Rightarrow> string" where
  "violationText e = ''guardrail violation: '' @ Join (ve_Problems e) ''; ''"

definition GuardrailsValidate :: "Scenario \<Rightarrow> Guardrails \<Rightarrow> ViolationError option" where
  "GuardrailsValidate sc cfg =
     (let problems = guardrailProblems sc cfg
      in if length problems > 0 then Some \<lparr>ve_Problems = problems\<rparr> else None)"

definition ValidateTargetBaseURL :: "string \<Rightarrow> Guardrails \<Rightarrow> ViolationError option" where
  "ValidateTargetBaseURL raw cfg =
     (case parseTargetURL raw of
        Inl e \<Rightarrow> Some \<lparr>ve_Problems = [''target.base_url '' @ e]\<rparr>
      | Inr base \<Rightarrow>
          (let problems = validateTargetURL ''target.base_url'' base (gr_TargetAllowlist cfg) (gr_AllowMetadataTarget cfg)
           in if length problems > 0 then Some \<lparr>ve_Problems = problems\<rparr> else None))"

section \<open>The policy\<close>

text \<open>What a URL must satisfy, without the messages.\<close>

definition permitted :: "string list \<Rightarrow> bool \<Rightarrow> URL \<Rightarrow> bool" where
  "permitted allowlist allowMeta u \<longleftrightarrow>
     (Scheme u = ''http'' \<or> Scheme u = ''https'') \<and> Host u \<noteq> '''' \<and> User u = None \<and>
     \<not> ContainsAny (Host u) [CHR 32, CHR 9, CHR 13, CHR 10] \<and>
     (isMetadataHost (Hostname u) \<longrightarrow> allowMeta \<or> matchesAllowlist u allowlist) \<and>
     (allowlist \<noteq> [] \<longrightarrow> matchesAllowlist u allowlist)"

definition permittedPath :: "string list \<Rightarrow> URL \<Rightarrow> string \<Rightarrow> bool" where
  "permittedPath allowlist base path \<longleftrightarrow>
     (\<exists>rel. Parse path = Inr rel \<and> permitted allowlist False (ResolveReference base rel) \<and>
        ((IsAbs rel \<or> Host rel \<noteq> '''') \<and> allowlist = [] \<longrightarrow> sameOrigin base (ResolveReference base rel)))"

definition withinBody :: "int \<Rightarrow> Request \<Rightarrow> bool" where
  "withinBody maxBytes r \<longleftrightarrow> maxBytes \<le> 0 \<or> (int (length (rq_JSON r)) \<le> maxBytes \<and> int (length (rq_Body r)) \<le> maxBytes)"

lemma validateTargetURL_Nil: "validateTargetURL f u al meta = [] \<longleftrightarrow> permitted al meta u"
  by (cases "User u"; cases "al = []") (auto simp: validateTargetURL_def permitted_def)

lemma validatePathTarget_Nil: "validatePathTarget f base p al = [] \<longleftrightarrow> permittedPath al base p"
  by (auto simp: validatePathTarget_def permittedPath_def resolveURL_def validateTargetURL_Nil split: sum.split)

lemma validateRequestTargets_Nil:
  "validateRequestTargets p base rs al = [] \<longleftrightarrow> list_all (\<lambda>r. permittedPath al base (rq_Path r)) rs"
  unfolding validateRequestTargets_def by (rule concat_enumerate_Nil) (rule validatePathTarget_Nil)

lemma validateInvariantTargets_Nil:
  "validateInvariantTargets base vs al = [] \<longleftrightarrow>
     list_all (\<lambda>v. iv_Type v = ''http_probe'' \<longrightarrow> permittedPath al base (iv_Path v)) vs"
  unfolding validateInvariantTargets_def
  by (rule concat_enumerate_Nil) (simp add: validateInvariantTarget_def validatePathTarget_Nil)

lemma validateRequestBodies_Nil: "validateRequestBodies p rs m = [] \<longleftrightarrow> list_all (withinBody m) rs"
proof (cases "m \<le> 0")
  case True
  then show ?thesis
    by (simp add: validateRequestBodies_def withinBody_def list_all_iff)
next
  case False
  have "concat (map (\<lambda>(i, r). bodyProblems p m i r) (enumerate 0 rs)) = [] \<longleftrightarrow> list_all (withinBody m) rs"
    by (rule concat_enumerate_Nil) (use False in \<open>auto simp: bodyProblems_def withinBody_def Let_def\<close>)
  with False show ?thesis
    by (simp add: validateRequestBodies_def)
qed

text \<open>The requests a run sends apart from the probes.\<close>

definition allRequests :: "Scenario \<Rightarrow> Request list" where
  "allRequests sc = sc_Setup sc @ sc_Requests sc @ sc_Teardown sc"

definition probes :: "Scenario \<Rightarrow> Invariant list" where
  "probes sc = filter (\<lambda>v. iv_Type v = ''http_probe'') (sc_Invariants sc)"

definition withinLimits :: "Guardrails \<Rightarrow> Scenario \<Rightarrow> bool" where
  "withinLimits cfg sc \<longleftrightarrow>
     (gr_MaxConcurrency cfg \<le> 0 \<or> tr_Concurrency (sc_Traffic sc) \<le> gr_MaxConcurrency cfg) \<and>
     (gr_MaxRequestRate cfg \<le> 0 \<or> tr_RatePerSecond (sc_Traffic sc) \<le> gr_MaxRequestRate cfg) \<and>
     list_all (withinBody (gr_MaxRequestBodyBytes cfg)) (allRequests sc)"

lemma GuardrailsValidate_None_iff: "GuardrailsValidate sc cfg = None \<longleftrightarrow> guardrailProblems sc cfg = []"
  by (simp add: GuardrailsValidate_def Let_def)

text \<open>Every path a run resolves against the base URL.\<close>

definition sentPaths :: "Scenario \<Rightarrow> string list" where
  "sentPaths sc = map rq_Path (allRequests sc) @ map iv_Path (probes sc)"

definition targetsPermitted :: "Guardrails \<Rightarrow> Scenario \<Rightarrow> URL \<Rightarrow> bool" where
  "targetsPermitted cfg sc base \<longleftrightarrow>
     permitted (gr_TargetAllowlist cfg) (gr_AllowMetadataTarget cfg) base \<and>
     list_all (permittedPath (gr_TargetAllowlist cfg) base) (sentPaths sc)"

lemma GuardrailsValidate_ok:
  "GuardrailsValidate sc cfg = None \<longleftrightarrow>
     withinLimits cfg sc \<and>
     (\<exists>base. parseTargetURL (tg_BaseURL (sc_Target sc)) = Inr base \<and> targetsPermitted cfg sc base)"
proof (cases "parseTargetURL (tg_BaseURL (sc_Target sc))")
  case (Inl e)
  then show ?thesis
    by (simp add: GuardrailsValidate_None_iff guardrailProblems_def Let_def)
next
  case (Inr base)
  then show ?thesis
    unfolding GuardrailsValidate_None_iff guardrailProblems_def Let_def withinLimits_def allRequests_def
      targetsPermitted_def sentPaths_def probes_def
    by (auto simp: validateRequestBodies_Nil validateTargetURL_Nil validateRequestTargets_Nil
        validateInvariantTargets_Nil list_all_iff)
qed


section \<open>Where an accepted scenario can send requests\<close>

lemma matchesAllowlist_Nil [simp]: "\<not> matchesAllowlist u []"
  by (simp add: matchesAllowlist_def)

lemma permittedPath_no_allowlist:
  assumes "permittedPath [] base path"
  shows "\<exists>rel. Parse path = Inr rel \<and> permitted [] False (ResolveReference base rel) \<and>
    EqualFold (Host (ResolveReference base rel)) (Host base)"
proof -
  obtain rel where rel: "Parse path = Inr rel" and ok: "permitted [] False (ResolveReference base rel)"
    and org: "IsAbs rel \<or> Host rel \<noteq> '''' \<Longrightarrow> sameOrigin base (ResolveReference base rel)"
    using assms by (auto simp: permittedPath_def)
  have "EqualFold (Host (ResolveReference base rel)) (Host base)"
  proof (cases "IsAbs rel \<or> Host rel \<noteq> ''''")
    case True
    then show ?thesis using org by (simp add: sameOrigin_def EqualFold_def)
  next
    case False
    moreover have "Host (ResolveReference base rel) \<noteq> ''''"
      using ok by (simp add: permitted_def)
    ultimately show ?thesis
      by (auto simp: ResolveReference_Host IsAbs_def EqualFold_def split: if_splits)
  qed
  with rel ok show ?thesis by blast
qed


definition defaultGuardrails :: Guardrails where
  "defaultGuardrails = cf_Guardrails (FromEnv (\<lambda>_. ''''))"


text \<open>
  C40: The check of request paths ignores the setting that permits metadata targets. A target on an
  instance-metadata host with an empty allowlist is rejected as soon as it has one relative request,
  whatever \<^verbatim>\<open>AllowMetadataTarget\<close> says.
\<close>

theorem metadata_setting_has_no_effect:
  assumes "parseTargetURL (tg_BaseURL (sc_Target sc)) = Inr base" and "isMetadataHost (Hostname base)"
    and "gr_TargetAllowlist cfg = []"
    and "r \<in> set (allRequests sc)" and "Parse (rq_Path r) = Inr rel"
    and "Scheme rel = ''''" and "Host rel = ''''"
  shows "GuardrailsValidate sc cfg \<noteq> None"
proof
  assume "GuardrailsValidate sc cfg = None"
  then have "permittedPath [] base (rq_Path r)"
    using assms(1,3,4) by (auto simp: GuardrailsValidate_ok targetsPermitted_def sentPaths_def list_all_iff)
  then have p: "permitted [] False (ResolveReference base rel)"
    using assms(5) by (auto simp: permittedPath_def)
  then have "Host (ResolveReference base rel) = Host base"
    using assms(6,7) by (auto simp: permitted_def ResolveReference_Host split: if_splits)
  then have "isMetadataHost (Hostname (ResolveReference base rel))"
    using assms(2) Hostname_cong by metis
  with p show False
    by (simp add: permitted_def)
qed

theorem metadata_setting_has_no_effect_witness:
  "gr_AllowMetadataTarget (defaultGuardrails\<lparr>gr_AllowMetadataTarget := True\<rparr>) \<and>
   GuardrailsValidate
     (checkoutRace\<lparr>sc_Target := \<lparr>tg_ID = '''', tg_BaseURL = ''http://169.254.169.254'', tg_Headers = None\<rparr>\<rparr>)
     (defaultGuardrails\<lparr>gr_AllowMetadataTarget := True\<rparr>) \<noteq> None"
proof -
  let ?sc = "checkoutRace\<lparr>sc_Target := \<lparr>tg_ID = '''', tg_BaseURL = ''http://169.254.169.254'', tg_Headers = None\<rparr>\<rparr>"
  let ?base = "emptyURL\<lparr>Scheme := ''http'', Host := ''169.254.169.254''\<rparr>"
  let ?rel = "emptyURL\<lparr>Path := ''/checkout''\<rparr>"
  have "GuardrailsValidate ?sc (defaultGuardrails\<lparr>gr_AllowMetadataTarget := True\<rparr>) \<noteq> None"
  proof (rule metadata_setting_has_no_effect)
    show "parseTargetURL (tg_BaseURL (sc_Target ?sc)) = Inr ?base" by code_simp
    show "isMetadataHost (Hostname ?base)" by code_simp
    show "gr_TargetAllowlist (defaultGuardrails\<lparr>gr_AllowMetadataTarget := True\<rparr>) = []"
      by (simp add: defaultGuardrails_def FromEnv_def Let_def envCSV_def)
    show "checkoutRequest \<in> set (allRequests ?sc)"
      by (simp add: allRequests_def checkoutRace_def)
    show "Parse (rq_Path checkoutRequest) = Inr ?rel" by code_simp
  qed (simp_all add: emptyURL_def)
  then show ?thesis by simp
qed

section \<open>The allowlist\<close>

text \<open>What one normalised entry means.\<close>

definition entryMatches :: "string \<Rightarrow> string \<Rightarrow> string \<Rightarrow> bool" where
  "entryMatches host hostport pattern \<longleftrightarrow> pattern \<noteq> '''' \<and>
     (pattern = ''*'' \<or>
      (\<exists>d. pattern = ''*.'' @ d \<and> (host = d \<or> (\<exists>sub. host = sub @ ''.'' @ d))) \<or>
      (\<not> HasPrefix pattern ''*.'' \<and> pattern = (if Contains pattern '':'' then hostport else host)))"

text \<open>
  C32: A URL matches the allowlist exactly when one entry matches it: the star matches all, a wildcard
  \<^verbatim>\<open>*.domain\<close> matches the domain and the hosts below it at a dot boundary, an entry with a port matches
  host and port, every other entry the host. No entry matches by a mere suffix.
\<close>

theorem matchesAllowlist_iff:
  "matchesAllowlist u allowlist \<longleftrightarrow>
     list_ex (\<lambda>e. entryMatches (ToLower (Hostname u)) (ToLower (Host u)) (normalizeAllowlistEntry e)) allowlist"
proof -
  have "matchesEntries h hp es \<longleftrightarrow> list_ex (\<lambda>e. entryMatches h hp (normalizeAllowlistEntry e)) es" for h hp es
  proof (induction es)
    case (Cons e es)
    define p where "p = normalizeAllowlistEntry e"
    have wild: "(\<exists>d. p = ''*.'' @ d \<and> (h = d \<or> (\<exists>sub. h = sub @ ''.'' @ d))) \<longleftrightarrow>
        HasPrefix p ''*.'' \<and> (h = TrimPrefix p ''*.'' \<or> HasSuffix h (''.'' @ TrimPrefix p ''*.''))"
      by (auto simp: HasPrefix_iff HasSuffix_iff TrimPrefix_def)
    have e: "entryMatches h hp p \<longleftrightarrow> p \<noteq> '''' \<and> (p = ''*'' \<or>
        HasPrefix p ''*.'' \<and> (h = TrimPrefix p ''*.'' \<or> HasSuffix h (''.'' @ TrimPrefix p ''*.'')) \<or>
        \<not> HasPrefix p ''*.'' \<and> p = (if Contains p '':'' then hp else h))"
      unfolding entryMatches_def wild ..
    show ?case
      unfolding matchesEntries.simps list_ex_Cons_iff Let_def p_def [symmetric] Cons.IH e
      by (cases "Contains p '':''"; simp only: if_True if_False if_bool_eq_conj simp_thms; blast)
  qed simp
  then show ?thesis
    by (simp add: matchesAllowlist_def)
qed

end
