(* ===== verification/Report.thy ===== *)
theory Report
  imports GoFloat Config "HOL-Library.List_Lexorder" "HOL-Library.Char_ord" "HOL-Library.Multiset"
begin

text \<open>
  \<^verbatim>\<open>internal/report/report.go\<close>: response records, check results, the summary of a run and the report built from
  them. A \<^verbatim>\<open>time.Time\<close> is its number of nanoseconds since 1970; the current time is a parameter. Go's
  byte order of strings is the lexicographic order of \<^theory_text>\<open>List_Lexorder\<close>.
\<close>

definition StatusPassed :: string where "StatusPassed = ''passed''"
definition StatusFailed :: string where "StatusFailed = ''failed''"
definition StatusCanceled :: string where "StatusCanceled = ''canceled''"

lemmas report_status = StatusPassed_def StatusFailed_def StatusCanceled_def

record ResponseRecord =
  rr_RequestName :: string
  rr_Iteration :: int
  rr_Attempt :: int
  rr_StatusCode :: int
  rr_DurationMS :: float64
  rr_Error :: string
  rr_BodyPreview :: string
  rr_StartedAt :: int

record LatencyStats =
  la_MinMS :: float64
  la_AvgMS :: float64
  la_P50MS :: float64
  la_P95MS :: float64
  la_P99MS :: float64
  la_MaxMS :: float64

record Summary =
  sm_TotalRequests :: int
  sm_FailedRequests :: int
  sm_ErrorRate :: float64
  sm_StatusCodes :: "int gomap"
  sm_Latency :: LatencyStats

record CheckResult =
  ck_Name :: string
  ck_Passed :: bool
  ck_Message :: string
  ck_Expected :: string
  ck_Actual :: string

record Report =
  rp_RunID :: string
  rp_Scenario :: string
  rp_ScenarioVersionID :: string
  rp_ScenarioVersionNumber :: int
  rp_Status :: string
  rp_StartedAt :: int
  rp_FinishedAt :: int
  rp_DurationMS :: float64
  rp_Summary :: Summary
  rp_Thresholds :: "CheckResult list"
  rp_Invariants :: "CheckResult list"
  rp_Failures :: "string list"
  rp_Responses :: "ResponseRecord list"

definition zeroLatency :: LatencyStats where
  "zeroLatency = \<lparr>la_MinMS = 0, la_AvgMS = 0, la_P50MS = 0, la_P95MS = 0, la_P99MS = 0, la_MaxMS = 0\<rparr>"

definition zeroSummary :: Summary where
  "zeroSummary = \<lparr>sm_TotalRequests = 0, sm_FailedRequests = 0, sm_ErrorRate = 0, sm_StatusCodes = [],
     sm_Latency = zeroLatency\<rparr>"

section \<open>Percentiles\<close>

definition percentilePos :: "nat \<Rightarrow> float64 \<Rightarrow> float64" where
  "percentilePos n p = fmul p (float_of_int (int n - 1))"

definition percentile :: "float64 list \<Rightarrow> float64 \<Rightarrow> float64" where
  "percentile xs p =
     (if length xs = 0 then 0
      else if length xs = 1 then xs ! 0
      else let pos = percentilePos (length xs) p; lower = \<lfloor>pos\<rfloor>; upper = \<lceil>pos\<rceil>
           in if lower = upper then xs ! nat lower
              else let weight = fsub pos (float_of_int lower)
                   in fadd (fmul (xs ! nat lower) (fsub 1 weight)) (fmul (xs ! nat upper) weight))"

section \<open>The summary\<close>

definition statusKey :: "ResponseRecord \<Rightarrow> string" where
  "statusKey r = (if rr_StatusCode r > 0 then Itoa (rr_StatusCode r) else ''error'')"

definition bumpCode :: "string \<Rightarrow> int gomap \<Rightarrow> int gomap" where
  "bumpCode k m = mapSet k ((case mapGet m k of None \<Rightarrow> 0 | Some n \<Rightarrow> n) + 1) m"

text \<open>The loop of \<^verbatim>\<open>Summarize\<close>: the summary, the durations and their running sum.\<close>

fun summarizeLoop :: "Summary \<Rightarrow> float64 list \<Rightarrow> float64 \<Rightarrow> ResponseRecord list \<Rightarrow> Summary \<times> float64 list \<times> float64" where
  "summarizeLoop s durations tot [] = (s, durations, tot)"
| "summarizeLoop s durations tot (r # rs) =
     summarizeLoop
       (s\<lparr>sm_TotalRequests := sm_TotalRequests s + 1,
          sm_FailedRequests := sm_FailedRequests s + (if rr_Error r \<noteq> '''' then 1 else 0),
          sm_StatusCodes := bumpCode (statusKey r) (sm_StatusCodes s)\<rparr>)
       (durations @ [rr_DurationMS r]) (fadd tot (rr_DurationMS r)) rs"

definition p50 :: float64 where "p50 = round64 (50 / 100)"
definition p95 :: float64 where "p95 = round64 (95 / 100)"
definition p99 :: float64 where "p99 = round64 (99 / 100)"

definition Summarize :: "ResponseRecord list \<Rightarrow> Summary" where
  "Summarize records =
     (if length records = 0 then zeroSummary
      else case summarizeLoop zeroSummary [] 0 records of
             (s, unsorted, tot) \<Rightarrow>
               (let durations = sort unsorted
                in s\<lparr>sm_ErrorRate := fdiv (float_of_int (sm_FailedRequests s)) (float_of_int (sm_TotalRequests s)),
                     sm_Latency :=
                       \<lparr>la_MinMS = durations ! 0,
                        la_AvgMS = fdiv tot (float_of_int (int (length durations))),
                        la_P50MS = percentile durations p50,
                        la_P95MS = percentile durations p95,
                        la_P99MS = percentile durations p99,
                        la_MaxMS = durations ! (length durations - 1)\<rparr>\<rparr>))"

section \<open>The report\<close>

text \<open>\<^verbatim>\<open>Time.Sub\<close>, which saturates, and \<^verbatim>\<open>Duration.Microseconds\<close> as milliseconds of a float64.\<close>

definition timeSub :: "int \<Rightarrow> int \<Rightarrow> int" where
  "timeSub a b = max minInt64 (min maxInt64 (a - b))"

definition durationMS :: "int \<Rightarrow> float64" where
  "durationMS d = fdiv (float_of_int (quot d 1000)) 1000"

definition failureText :: "CheckResult \<Rightarrow> string" where
  "failureText c = ck_Name c @ '': '' @ ck_Message c"

fun collectChecks :: "Report \<Rightarrow> CheckResult list \<Rightarrow> Report" where
  "collectChecks r [] = r"
| "collectChecks r (c # cs) =
     collectChecks (if ck_Passed c then r
                    else r\<lparr>rp_Status := StatusFailed, rp_Failures := rp_Failures r @ [failureText c]\<rparr>) cs"

fun collectRecords :: "Report \<Rightarrow> ResponseRecord list \<Rightarrow> Report" where
  "collectRecords r [] = r"
| "collectRecords r (x # xs) =
     (if rr_Error x \<noteq> '''' then r\<lparr>rp_Status := StatusFailed\<rparr> else collectRecords r xs)"

definition Build :: "int \<Rightarrow> string \<Rightarrow> string \<Rightarrow> int \<Rightarrow> ResponseRecord list \<Rightarrow> CheckResult list \<Rightarrow> CheckResult list \<Rightarrow> Report" where
  "Build finishedAt runID scenarioName startedAt records thresholds invariants =
     (let r = \<lparr>rp_RunID = runID, rp_Scenario = scenarioName, rp_ScenarioVersionID = '''',
               rp_ScenarioVersionNumber = 0, rp_Status = StatusPassed, rp_StartedAt = startedAt,
               rp_FinishedAt = finishedAt, rp_DurationMS = durationMS (timeSub finishedAt startedAt),
               rp_Summary = Summarize records, rp_Thresholds = thresholds, rp_Invariants = invariants,
               rp_Failures = [], rp_Responses = records\<rparr>
      in collectRecords (collectChecks r (thresholds @ invariants)) records)"

section \<open>Text\<close>

definition formatStatusCodes :: "int gomap \<Rightarrow> string" where
  "formatStatusCodes codes =
     (if length codes = 0 then ''none''
      else Join (map (\<lambda>k. k @ ''='' @ Itoa (case mapGet codes k of None \<Rightarrow> 0 | Some n \<Rightarrow> n)) (sort (map fst codes))) '', '')"

definition newline :: string where "newline = [CHR 10]"

definition ReportText :: "Report \<Rightarrow> string" where
  "ReportText r =
     ToUpper (rp_Status r) @ newline @ newline @
     ''Scenario: '' @ rp_Scenario r @ newline @
     ''Run ID:   '' @ rp_RunID r @ newline @
     ''Duration: '' @ FormatFixed 1 (rp_DurationMS r) @ ''ms'' @ newline @ newline @
     ''Technical summary:'' @ newline @
     ''- Requests: '' @ Itoa (sm_TotalRequests (rp_Summary r)) @ newline @
     ''- Failed:   '' @ Itoa (sm_FailedRequests (rp_Summary r)) @ newline @
     ''- Errors:   '' @ FormatFixed 2 (fmul (sm_ErrorRate (rp_Summary r)) 100) @ ''%'' @ newline @
     ''- p95:      '' @ FormatFixed 1 (la_P95MS (sm_Latency (rp_Summary r))) @ ''ms'' @ newline @
     ''- Status:   '' @ formatStatusCodes (sm_StatusCodes (rp_Summary r)) @ newline @
     (if length (rp_Failures r) > 0
      then newline @ ''Failures:'' @ newline @ concat (map (\<lambda>f. ''- '' @ f @ newline) (rp_Failures r))
      else [])"

section \<open>The summary counts every response once\<close>

definition failedRecord :: "ResponseRecord \<Rightarrow> bool" where
  "failedRecord r \<longleftrightarrow> rr_Error r \<noteq> ''''"

definition countCode :: "int gomap \<Rightarrow> string \<Rightarrow> int" where
  "countCode m k = (case mapGet m k of None \<Rightarrow> 0 | Some n \<Rightarrow> n)"

lemma countCode_bumpCode [simp]:
  "countCode (bumpCode k m) k' = countCode m k' + (if k' = k then 1 else 0)"
  by (simp add: countCode_def bumpCode_def)

lemma mapWf_bumpCode: "mapWf m \<Longrightarrow> mapWf (bumpCode k m)"
  by (simp add: bumpCode_def mapWf_mapSet)

lemma summarizeLoop_counts:
  "sm_TotalRequests (fst (summarizeLoop s ds t rs)) = sm_TotalRequests s + int (length rs)"
  "sm_FailedRequests (fst (summarizeLoop s ds t rs)) = sm_FailedRequests s + int (length (filter failedRecord rs))"
  "countCode (sm_StatusCodes (fst (summarizeLoop s ds t rs))) k =
     countCode (sm_StatusCodes s) k + int (length (filter (\<lambda>r. statusKey r = k) rs))"
  "fst (snd (summarizeLoop s ds t rs)) = ds @ map rr_DurationMS rs"
  by (induction s ds t rs rule: summarizeLoop.induct) (simp_all add: failedRecord_def)

lemma summarizeLoop_mapWf:
  "mapWf (sm_StatusCodes s) \<Longrightarrow> mapWf (sm_StatusCodes (fst (summarizeLoop s ds t rs)))"
  by (induction s ds t rs rule: summarizeLoop.induct) (simp_all add: mapWf_bumpCode)

lemma zeroSummary_fields [simp]:
  "sm_TotalRequests zeroSummary = 0" "sm_FailedRequests zeroSummary = 0" "sm_StatusCodes zeroSummary = []"
  by (simp_all add: zeroSummary_def)

lemma countCode_Nil [simp]: "countCode [] k = 0"
  by (simp add: countCode_def)

lemma Summarize_fields:
  shows "sm_TotalRequests (Summarize rs) = int (length rs)"
    and "sm_FailedRequests (Summarize rs) = int (length (filter failedRecord rs))"
    and "countCode (sm_StatusCodes (Summarize rs)) k = int (length (filter (\<lambda>r. statusKey r = k) rs))"
    and "mapWf (sm_StatusCodes (Summarize rs))"
    and "rs \<noteq> [] \<Longrightarrow> sm_ErrorRate (Summarize rs) =
           fdiv (float_of_int (int (length (filter failedRecord rs)))) (float_of_int (int (length rs)))"
proof -
  obtain s ds t where l: "summarizeLoop zeroSummary [] 0 rs = (s, ds, t)"
    by (cases "summarizeLoop zeroSummary [] 0 rs")
  note spec = summarizeLoop_counts [of zeroSummary "[]" 0 rs] summarizeLoop_mapWf [of zeroSummary "[]" 0 rs]
  show "sm_TotalRequests (Summarize rs) = int (length rs)"
    and "sm_FailedRequests (Summarize rs) = int (length (filter failedRecord rs))"
    and "countCode (sm_StatusCodes (Summarize rs)) k = int (length (filter (\<lambda>r. statusKey r = k) rs))"
    and "mapWf (sm_StatusCodes (Summarize rs))"
    and "rs \<noteq> [] \<Longrightarrow> sm_ErrorRate (Summarize rs) =
           fdiv (float_of_int (int (length (filter failedRecord rs)))) (float_of_int (int (length rs)))"
    using spec by (auto simp: Summarize_def l Let_def)
qed

lemma Summarize_latency:
  assumes "rs \<noteq> []"
  shows "la_MinMS (sm_Latency (Summarize rs)) = sort (map rr_DurationMS rs) ! 0"
    and "la_MaxMS (sm_Latency (Summarize rs)) = sort (map rr_DurationMS rs) ! (length rs - 1)"
    and "la_P50MS (sm_Latency (Summarize rs)) = percentile (sort (map rr_DurationMS rs)) p50"
    and "la_P95MS (sm_Latency (Summarize rs)) = percentile (sort (map rr_DurationMS rs)) p95"
    and "la_P99MS (sm_Latency (Summarize rs)) = percentile (sort (map rr_DurationMS rs)) p99"
proof -
  obtain s ds t where l: "summarizeLoop zeroSummary [] 0 rs = (s, ds, t)"
    by (cases "summarizeLoop zeroSummary [] 0 rs")
  with summarizeLoop_counts(4) [of zeroSummary "[]" 0 rs] assms
  show "la_MinMS (sm_Latency (Summarize rs)) = sort (map rr_DurationMS rs) ! 0"
    and "la_MaxMS (sm_Latency (Summarize rs)) = sort (map rr_DurationMS rs) ! (length rs - 1)"
    and "la_P50MS (sm_Latency (Summarize rs)) = percentile (sort (map rr_DurationMS rs)) p50"
    and "la_P95MS (sm_Latency (Summarize rs)) = percentile (sort (map rr_DurationMS rs)) p95"
    and "la_P99MS (sm_Latency (Summarize rs)) = percentile (sort (map rr_DurationMS rs)) p99"
    by (simp_all add: Summarize_def l Let_def)
qed

lemma sum_filter_length:
  assumes "distinct ks" and "list_all (\<lambda>x. f x \<in> set ks) xs"
  shows "(\<Sum>k\<leftarrow>ks. int (length (filter (\<lambda>x. f x = k) xs))) = int (length xs)"
  using assms(2)
proof (induction xs)
  case (Cons x xs)
  have "(\<Sum>k\<leftarrow>ks. int (length (filter (\<lambda>x. f x = k) (x # xs))))
      = (\<Sum>k\<leftarrow>ks. int (length (filter (\<lambda>x. f x = k) xs))) + (\<Sum>k\<leftarrow>ks. if f x = k then 1 else 0)"
    by (subst sum_list_addf [symmetric]) (rule arg_cong [where f = sum_list], simp)
  moreover have "(\<Sum>k\<leftarrow>ks. if f x = k then 1 else 0) = (1 :: int)"
    using assms(1) Cons.prems
    by (simp add: sum_list_distinct_conv_sum_set)
  ultimately show ?case
    using Cons by simp
qed simp

text \<open>
  The summary counts every response once: the total and the failed count are the numbers of records and of records
  with an error, the count under each status key is the number of responses with that key, the counts of the map add
  up to the total, and the error rate is a number from 0 to 1.
\<close>

theorem Summarize_counts:
  "sm_TotalRequests (Summarize rs) = int (length rs) \<and>
   sm_FailedRequests (Summarize rs) = int (length (filter failedRecord rs)) \<and>
   (\<forall>k. countCode (sm_StatusCodes (Summarize rs)) k = int (length (filter (\<lambda>r. statusKey r = k) rs))) \<and>
   (\<Sum>k\<leftarrow>map fst (sm_StatusCodes (Summarize rs)). countCode (sm_StatusCodes (Summarize rs)) k) = int (length rs) \<and>
   0 \<le> sm_ErrorRate (Summarize rs) \<and> sm_ErrorRate (Summarize rs) \<le> 1"
proof (intro conjI allI)
  let ?m = "sm_StatusCodes (Summarize rs)"
  have "statusKey r \<in> set (map fst ?m)" if "r \<in> set rs" for r
  proof -
    have "0 < length (filter (\<lambda>x. statusKey x = statusKey r) rs)"
      using that by (auto simp: filter_empty_conv)
    then have "countCode ?m (statusKey r) \<noteq> 0"
      by (simp add: Summarize_fields(3))
    then show ?thesis
      by (auto simp: countCode_def mapGet_def split: option.splits dest!: map_of_SomeD intro: rev_image_eqI)
  qed
  then show "(\<Sum>k\<leftarrow>map fst ?m. countCode ?m k) = int (length rs)"
    using Summarize_fields(4) [of rs]
    by (simp add: Summarize_fields(3) mapWf_def list_all_iff sum_filter_length del: map_map)
  have "0 \<le> sm_ErrorRate (Summarize rs) \<and> sm_ErrorRate (Summarize rs) \<le> 1"
  proof (cases "rs = []")
    case True
    then show ?thesis
      by (simp add: Summarize_def zeroSummary_def)
  next
    case False
    have "float_of_int (int (length (filter failedRecord rs))) \<le> float_of_int (int (length rs))"
      by (simp add: float_of_int_def round64_mono)
    moreover have "0 \<le> float_of_int (int (length (filter failedRecord rs)))"
      by (simp add: float_of_int_def f64.rnd_nonneg)
    ultimately have "0 \<le> float_of_int (int (length (filter failedRecord rs))) / float_of_int (int (length rs))"
      and "float_of_int (int (length (filter failedRecord rs))) / float_of_int (int (length rs)) \<le> 1"
      by (auto simp: divide_le_eq_1)
    then show ?thesis
      using False by (auto simp: Summarize_fields(5) fdiv_def f64.rnd_nonneg f64.rnd_le_one)
  qed
  then show "0 \<le> sm_ErrorRate (Summarize rs)" and "sm_ErrorRate (Summarize rs) \<le> 1"
    by simp_all
qed (simp_all add: Summarize_fields)

text \<open>
  C39: the smallest and the largest latency of the summary are the bounds of the recorded durations, and both are
  durations of recorded responses.
\<close>

theorem Summarize_latency_bounds:
  assumes "rs \<noteq> []"
  shows "(\<exists>r \<in> set rs. la_MinMS (sm_Latency (Summarize rs)) = rr_DurationMS r) \<and>
         (\<exists>r \<in> set rs. la_MaxMS (sm_Latency (Summarize rs)) = rr_DurationMS r) \<and>
         list_all (\<lambda>r. la_MinMS (sm_Latency (Summarize rs)) \<le> rr_DurationMS r \<and>
                       rr_DurationMS r \<le> la_MaxMS (sm_Latency (Summarize rs))) rs"
proof -
  let ?ds = "sort (map rr_DurationMS rs)"
  have n: "length ?ds = length rs" and ne: "0 < length rs"
    using assms by simp_all
  have mem: "?ds ! i \<in> set (map rr_DurationMS rs)" if "i < length rs" for i
    using nth_mem [of i ?ds] that by simp
  have bnd: "?ds ! 0 \<le> rr_DurationMS r \<and> rr_DurationMS r \<le> ?ds ! (length rs - 1)" if "r \<in> set rs" for r
  proof -
    have "rr_DurationMS r \<in> set ?ds"
      using that by simp
    then obtain i where "i < length ?ds" and "?ds ! i = rr_DurationMS r"
      by (auto simp only: in_set_conv_nth)
    then show ?thesis
      using sorted_nth_mono [of ?ds 0 i] sorted_nth_mono [of ?ds i "length rs - 1"] n by auto
  qed
  show ?thesis
    using mem [of 0] mem [of "length rs - 1"] bnd ne
    by (auto simp: Summarize_latency [OF assms] list_all_iff)
qed

text \<open>
  A percentile never reads outside the durations: for a fraction between 0 and 1 both positions it interpolates
  between are indexes of the slice, whatever the rounding of the position does.
\<close>

theorem percentile_in_range:
  assumes "0 \<le> p" and "p \<le> 1" and "0 < n" and "int n \<le> 2 ^ 53"
  shows "0 \<le> \<lfloor>percentilePos n p\<rfloor> \<and> \<lfloor>percentilePos n p\<rfloor> \<le> \<lceil>percentilePos n p\<rceil> \<and> \<lceil>percentilePos n p\<rceil> < int n"
proof -
  have n: "0 \<le> int n - 1" "int n - 1 \<le> 2 ^ 53"
    using assms(3,4) by linarith+
  have "0 \<le> percentilePos n p" and "percentilePos n p \<le> of_int (int n - 1)"
    using f64.rnd_position [OF assms(1,2) n] n by (simp_all add: percentilePos_def fmul_def)
  then have "\<lceil>percentilePos n p\<rceil> \<le> int n - 1"
    by (simp only: ceiling_le_iff)
  then show ?thesis
    using \<open>0 \<le> percentilePos n p\<close> by (simp add: floor_le_ceiling)
qed

theorem percentile_in_range_witness:
  "0 \<le> \<lfloor>percentilePos 3 p50\<rfloor> \<and> \<lfloor>percentilePos 3 p50\<rfloor> \<le> \<lceil>percentilePos 3 p50\<rceil> \<and> \<lceil>percentilePos 3 p50\<rceil> < int 3"
proof -
  have "0 \<le> p50" "p50 \<le> 1"
    by (simp_all add: p50_def f64.rnd_nonneg f64.rnd_le_one)
  then show ?thesis
    by (rule percentile_in_range) simp_all
qed

definition sampleRecord :: "float64 \<Rightarrow> int \<Rightarrow> string \<Rightarrow> ResponseRecord" where
  "sampleRecord ms status err =
     \<lparr>rr_RequestName = ''checkout'', rr_Iteration = 1, rr_Attempt = 1, rr_StatusCode = status, rr_DurationMS = ms,
      rr_Error = err, rr_BodyPreview = '''', rr_StartedAt = 0\<rparr>"

theorem Summarize_latency_bounds_witness:
  "list_all (\<lambda>r. la_MinMS (sm_Latency (Summarize [sampleRecord 7 200 '''', sampleRecord 3 500 ''boom''])) \<le> rr_DurationMS r)
     [sampleRecord 7 200 '''', sampleRecord 3 500 ''boom'']"
  using Summarize_latency_bounds [of "[sampleRecord 7 200 '''', sampleRecord 3 500 ''boom'']"]
  by (simp add: list_all_iff)

section \<open>The verdict\<close>

lemma collectChecks_fields:
  "rp_Failures (collectChecks r cs) = rp_Failures r @ map failureText (filter (\<lambda>c. \<not> ck_Passed c) cs)"
  "rp_Status (collectChecks r cs) = (if list_all ck_Passed cs then rp_Status r else StatusFailed)"
  "rp_Summary (collectChecks r cs) = rp_Summary r" "rp_Responses (collectChecks r cs) = rp_Responses r"
  "rp_RunID (collectChecks r cs) = rp_RunID r" "rp_Scenario (collectChecks r cs) = rp_Scenario r"
  "rp_Thresholds (collectChecks r cs) = rp_Thresholds r" "rp_Invariants (collectChecks r cs) = rp_Invariants r"
  "rp_StartedAt (collectChecks r cs) = rp_StartedAt r" "rp_FinishedAt (collectChecks r cs) = rp_FinishedAt r"
  by (induction r cs rule: collectChecks.induct) simp_all

lemma collectRecords_fields:
  "rp_Status (collectRecords r xs) = (if list_ex failedRecord xs then StatusFailed else rp_Status r)"
  "rp_Failures (collectRecords r xs) = rp_Failures r"
  "rp_Summary (collectRecords r xs) = rp_Summary r" "rp_Responses (collectRecords r xs) = rp_Responses r"
  "rp_RunID (collectRecords r xs) = rp_RunID r" "rp_Scenario (collectRecords r xs) = rp_Scenario r"
  "rp_Thresholds (collectRecords r xs) = rp_Thresholds r" "rp_Invariants (collectRecords r xs) = rp_Invariants r"
  "rp_StartedAt (collectRecords r xs) = rp_StartedAt r" "rp_FinishedAt (collectRecords r xs) = rp_FinishedAt r"
  by (induction r xs rule: collectRecords.induct) (simp_all add: failedRecord_def)

lemmas Build_fields [simp] = collectChecks_fields collectRecords_fields

lemma Build_kept [simp]:
  "rp_RunID (Build now i n t rs ths ivs) = i" "rp_Scenario (Build now i n t rs ths ivs) = n"
  "rp_Summary (Build now i n t rs ths ivs) = Summarize rs" "rp_Responses (Build now i n t rs ths ivs) = rs"
  "rp_Thresholds (Build now i n t rs ths ivs) = ths" "rp_Invariants (Build now i n t rs ths ivs) = ivs"
  "rp_StartedAt (Build now i n t rs ths ivs) = t" "rp_FinishedAt (Build now i n t rs ths ivs) = now"
  by (simp_all add: Build_def)

lemma Build_Status:
  "rp_Status (Build now i n t rs ths ivs) =
     (if list_all ck_Passed (ths @ ivs) \<and> \<not> list_ex failedRecord rs then StatusPassed else StatusFailed)"
  by (simp add: Build_def)

lemma Build_Failures:
  "rp_Failures (Build now i n t rs ths ivs) = map failureText (filter (\<lambda>c. \<not> ck_Passed c) (ths @ ivs))"
  by (simp add: Build_def)

text \<open>
  A built report says passed exactly when every threshold and every invariant passed and the summary counts no
  failed request, and failed otherwise; its failures are the texts of the failed checks, thresholds first, in order.
\<close>

theorem Build_verdict:
  "(rp_Status (Build now i n t rs ths ivs) = StatusPassed \<longleftrightarrow>
      list_all ck_Passed ths \<and> list_all ck_Passed ivs \<and>
      sm_FailedRequests (rp_Summary (Build now i n t rs ths ivs)) = 0) \<and>
   rp_Status (Build now i n t rs ths ivs) \<in> {StatusPassed, StatusFailed} \<and>
   rp_Failures (Build now i n t rs ths ivs) =
     map failureText (filter (\<lambda>c. \<not> ck_Passed c) ths) @ map failureText (filter (\<lambda>c. \<not> ck_Passed c) ivs)"
proof -
  have "sm_FailedRequests (Summarize rs) = 0 \<longleftrightarrow> \<not> list_ex failedRecord rs"
    by (auto simp: Summarize_fields filter_empty_conv list_ex_iff)
  then show ?thesis
    by (auto simp: Build_Status Build_Failures report_status)
qed

end
