(* ===== verification/Store.thy ===== *)
theory Store
  imports Scenario Report
begin

text \<open>
  \<^verbatim>\<open>internal/runevent/event.go\<close>, the records of \<^verbatim>\<open>internal/store\<close> and its interface \<^verbatim>\<open>Store\<close>
  (\<^verbatim>\<open>internal/store/store.go\<close>).

  A value of the Go interface \<^verbatim>\<open>Store\<close> is a record of operations over a state of any type. Its callers
  are written over that record, and the locale \<open>run_store\<close> states what they rely on. A clock is a parameter of each
  operation that reads the time: \<open>clock i\<close> is the \<open>i\<close>th reading during the call. A run status, an event type and a level
  are strings, as in the code.
\<close>

type_synonym clock = "nat \<Rightarrow> int"

section \<open>Run events\<close>

definition TypeRunQueued :: string where "TypeRunQueued = ''run_queued''"
definition TypeRunStarted :: string where "TypeRunStarted = ''run_started''"
definition TypeSetupStarted :: string where "TypeSetupStarted = ''setup_started''"
definition TypeSetupCompleted :: string where "TypeSetupCompleted = ''setup_completed''"
definition TypeTeardownStarted :: string where "TypeTeardownStarted = ''teardown_started''"
definition TypeTeardownCompleted :: string where "TypeTeardownCompleted = ''teardown_completed''"
definition TypeRequestStarted :: string where "TypeRequestStarted = ''request_started''"
definition TypeRequestCompleted :: string where "TypeRequestCompleted = ''request_completed''"
definition TypeAssertionFailed :: string where "TypeAssertionFailed = ''assertion_failed''"
definition TypeInvariantFailed :: string where "TypeInvariantFailed = ''invariant_failed''"
definition TypeThresholdFailed :: string where "TypeThresholdFailed = ''threshold_failed''"
definition TypeCancelRequested :: string where "TypeCancelRequested = ''cancel_requested''"
definition TypeWorkerAttemptStarted :: string where "TypeWorkerAttemptStarted = ''worker_attempt_started''"
definition TypeWorkerAttemptFailed :: string where "TypeWorkerAttemptFailed = ''worker_attempt_failed''"
definition TypeWorkerRetryScheduled :: string where "TypeWorkerRetryScheduled = ''worker_retry_scheduled''"
definition TypeWorkerDeadLettered :: string where "TypeWorkerDeadLettered = ''worker_dead_lettered''"
definition TypeRunCompleted :: string where "TypeRunCompleted = ''run_completed''"
definition TypeRunFailed :: string where "TypeRunFailed = ''run_failed''"
definition TypeRunCanceled :: string where "TypeRunCanceled = ''run_canceled''"

definition LevelInfo :: string where "LevelInfo = ''info''"
definition LevelWarn :: string where "LevelWarn = ''warn''"
definition LevelError :: string where "LevelError = ''error''"

lemmas event_types = TypeRunQueued_def TypeRunStarted_def TypeSetupStarted_def TypeSetupCompleted_def
  TypeTeardownStarted_def TypeTeardownCompleted_def TypeRequestStarted_def TypeRequestCompleted_def
  TypeAssertionFailed_def TypeInvariantFailed_def TypeThresholdFailed_def TypeCancelRequested_def
  TypeWorkerAttemptStarted_def TypeWorkerAttemptFailed_def TypeWorkerRetryScheduled_def
  TypeWorkerDeadLettered_def TypeRunCompleted_def TypeRunFailed_def TypeRunCanceled_def
lemmas event_levels = LevelInfo_def LevelWarn_def LevelError_def

text \<open>The dynamic types the code puts into the metadata of an event.\<close>

datatype meta = MString string | MInt int | MFloat float64 | MBool bool | MStrings "string list" | MInts "int list"

record Event =
  ev_ID :: string
  ev_RunID :: string
  ev_Sequence :: int
  ev_Level :: string
  ev_Type :: string
  ev_Message :: string
  ev_Metadata :: "meta gomap option"
  ev_CreatedAt :: int

text \<open>The zero value of \<^verbatim>\<open>time.Time\<close>, the first instant of year 1, in nanoseconds since 1970.\<close>

definition zeroTime :: int where "zeroTime = - 62135596800000000000"

text \<open>An event literal of the code: the fields it does not name are zero.\<close>

definition newEvent :: "string \<Rightarrow> string \<Rightarrow> string \<Rightarrow> meta gomap option \<Rightarrow> Event" where
  "newEvent level type message metadata =
     \<lparr>ev_ID = '''', ev_RunID = '''', ev_Sequence = 0, ev_Level = level, ev_Type = type, ev_Message = message,
      ev_Metadata = metadata, ev_CreatedAt = zeroTime\<rparr>"

section \<open>Records of the store\<close>

definition RunQueued :: string where "RunQueued = ''queued''"
definition RunRunning :: string where "RunRunning = ''running''"
definition RunPassed :: string where "RunPassed = ''passed''"
definition RunFailed :: string where "RunFailed = ''failed''"
definition RunErrored :: string where "RunErrored = ''errored''"
definition RunCanceled :: string where "RunCanceled = ''canceled''"

lemmas run_status = RunQueued_def RunRunning_def RunPassed_def RunFailed_def RunErrored_def RunCanceled_def

definition TargetLocal :: string where "TargetLocal = ''local''"
definition TargetDevelopment :: string where "TargetDevelopment = ''development''"
definition TargetStaging :: string where "TargetStaging = ''staging''"
definition TargetProduction :: string where "TargetProduction = ''production''"

lemmas target_environments = TargetLocal_def TargetDevelopment_def TargetStaging_def TargetProduction_def

record TargetRecord =
  tgr_ID :: string
  tgr_Name :: string
  tgr_BaseURL :: string
  tgr_Environment :: string
  tgr_Description :: string
  tgr_Headers :: headers
  tgr_CreatedAt :: int
  tgr_UpdatedAt :: int

record ScenarioRecord =
  scr_ID :: string
  scr_Scenario :: Scenario
  scr_CurrentVersionID :: string
  scr_CurrentVersionNumber :: int
  scr_CreatedAt :: int

record RunRecord =
  run_ID :: string
  run_TargetID :: string
  run_ScenarioID :: string
  run_ScenarioVersionID :: string
  run_ScenarioVersionNumber :: int
  run_Status :: string
  run_Scenario :: Scenario
  run_Report :: "Report option"
  run_Error :: string
  run_CreatedAt :: int
  run_StartedAt :: "int option"
  run_FinishedAt :: "int option"

record ScenarioVersionRecord =
  sv_ID :: string
  sv_ScenarioID :: string
  sv_VersionNumber :: int
  sv_Scenario :: Scenario
  sv_CreatedAt :: int

text \<open>The zero values of the record types, which a failed \<^verbatim>\<open>GetRun\<close> returns.\<close>

definition zeroScenario :: Scenario where
  "zeroScenario = \<lparr>sc_Version = 0, sc_Name = '''', sc_Description = '''',
     sc_Target = \<lparr>tg_ID = '''', tg_BaseURL = '''', tg_Headers = None\<rparr>,
     sc_Traffic = \<lparr>tr_Type = '''', tr_Concurrency = 0, tr_Iterations = 0, tr_RatePerSecond = 0,
       tr_Retry = \<lparr>rp_Attempts = 0, rp_BackoffMS = 0\<rparr>\<rparr>,
     sc_Setup = [], sc_Requests = [], sc_Teardown = [],
     sc_Thresholds = \<lparr>th_MaxErrorRate = None, th_P95MS = None\<rparr>, sc_Invariants = []\<rparr>"

definition zeroRun :: RunRecord where
  "zeroRun = \<lparr>run_ID = '''', run_TargetID = '''', run_ScenarioID = '''', run_ScenarioVersionID = '''',
     run_ScenarioVersionNumber = 0, run_Status = '''', run_Scenario = zeroScenario, run_Report = None, run_Error = '''',
     run_CreatedAt = zeroTime, run_StartedAt = None, run_FinishedAt = None\<rparr>"

definition isCancelableRunStatus :: "string \<Rightarrow> bool" where
  "isCancelableRunStatus status \<longleftrightarrow> status = RunQueued \<or> status = RunRunning"

definition isTerminalRunStatus :: "string \<Rightarrow> bool" where
  "isTerminalRunStatus status \<longleftrightarrow> status \<in> {RunPassed, RunFailed, RunErrored, RunCanceled}"

definition knownRunStatus :: "string \<Rightarrow> bool" where
  "knownRunStatus status \<longleftrightarrow> isCancelableRunStatus status \<or> isTerminalRunStatus status"

lemma status_disjoint [simp]:
  "isTerminalRunStatus status \<Longrightarrow> \<not> isCancelableRunStatus status"
  "\<not> isTerminalRunStatus RunQueued" "\<not> isTerminalRunStatus RunRunning"
  "isTerminalRunStatus RunPassed" "isTerminalRunStatus RunFailed"
  "isTerminalRunStatus RunErrored" "isTerminalRunStatus RunCanceled"
  "isCancelableRunStatus RunQueued" "isCancelableRunStatus RunRunning"
  by (auto simp: isTerminalRunStatus_def isCancelableRunStatus_def run_status)

lemma status_distinct [simp]:
  "RunQueued \<noteq> RunRunning" "RunRunning \<noteq> RunQueued" "RunCanceled \<noteq> RunErrored" "RunErrored \<noteq> RunCanceled"
  "RunCanceled \<noteq> RunRunning" "RunErrored \<noteq> RunRunning" "RunRunning \<noteq> RunCanceled" "RunRunning \<noteq> RunErrored"
  "RunPassed \<noteq> RunFailed" "RunFailed \<noteq> RunPassed"
  by (simp_all add: run_status)

text \<open>The status a finished run takes from its report.\<close>

definition runStatusOf :: "Report \<Rightarrow> string" where
  "runStatusOf rep = (if rp_Status rep = StatusFailed then RunFailed else RunPassed)"

lemma runStatusOf_terminal [simp]: "isTerminalRunStatus (runStatusOf rep)"
  by (simp add: runStatusOf_def)

section \<open>The interface\<close>

record 's StoreOps =
  so_CreateTarget :: "clock \<Rightarrow> TargetRecord \<Rightarrow> 's \<Rightarrow> TargetRecord \<times> 's"
  so_UpdateTarget :: "clock \<Rightarrow> string \<Rightarrow> TargetRecord \<Rightarrow> 's \<Rightarrow> TargetRecord option \<times> 's"
  so_DeleteTarget :: "string \<Rightarrow> 's \<Rightarrow> bool \<times> 's"
  so_GetTarget :: "string \<Rightarrow> 's \<Rightarrow> TargetRecord option"
  so_ListTargets :: "'s \<Rightarrow> TargetRecord list"
  so_CreateScenario :: "clock \<Rightarrow> Scenario \<Rightarrow> 's \<Rightarrow> ScenarioRecord \<times> 's"
  so_UpdateScenario :: "clock \<Rightarrow> string \<Rightarrow> Scenario \<Rightarrow> 's \<Rightarrow> ScenarioRecord option \<times> 's"
  so_GetScenario :: "string \<Rightarrow> 's \<Rightarrow> ScenarioRecord option"
  so_ListScenarios :: "'s \<Rightarrow> ScenarioRecord list"
  so_ListScenarioVersions :: "string \<Rightarrow> 's \<Rightarrow> ScenarioVersionRecord list"
  so_GetScenarioVersion :: "string \<Rightarrow> int \<Rightarrow> 's \<Rightarrow> ScenarioVersionRecord option"
  so_CreateRun :: "clock \<Rightarrow> string \<Rightarrow> string \<Rightarrow> Scenario \<Rightarrow> ScenarioVersionRecord list \<Rightarrow> 's \<Rightarrow> RunRecord \<times> 's"
  so_MarkRunStarted :: "clock \<Rightarrow> string \<Rightarrow> 's \<Rightarrow> 's"
  so_CompleteRun :: "clock \<Rightarrow> string \<Rightarrow> Report \<Rightarrow> 's \<Rightarrow> 's"
  so_CancelRun :: "clock \<Rightarrow> string \<Rightarrow> Report \<Rightarrow> 's \<Rightarrow> 's"
  so_ErrorRun :: "clock \<Rightarrow> string \<Rightarrow> string \<Rightarrow> 's \<Rightarrow> 's"
  so_GetRun :: "string \<Rightarrow> 's \<Rightarrow> RunRecord option"
  so_ListRuns :: "'s \<Rightarrow> RunRecord list"
  so_RequestRunCancel :: "clock \<Rightarrow> string \<Rightarrow> 's \<Rightarrow> bool \<times> 's"
  so_IsRunCancelRequested :: "string \<Rightarrow> 's \<Rightarrow> bool"
  so_AppendRunEvent :: "clock \<Rightarrow> string \<Rightarrow> Event \<Rightarrow> 's \<Rightarrow> Event \<times> 's"
  so_ListRunEvents :: "string \<Rightarrow> 's \<Rightarrow> Event list"

text \<open>The calls that move a run through its lifecycle.\<close>

inductive runWrite :: "'s StoreOps \<Rightarrow> string \<Rightarrow> 's \<Rightarrow> 's \<Rightarrow> bool" for ops rid where
  start: "runWrite ops rid s (so_MarkRunStarted ops clock rid s)"
| complete: "runWrite ops rid s (so_CompleteRun ops clock rid rep s)"
| cancel: "runWrite ops rid s (so_CancelRun ops clock rid rep s)"
| fail: "runWrite ops rid s (so_ErrorRun ops clock rid err s)"

text \<open>
  A call that is not about the run \<open>rid\<close>, or about it but not of its lifecycle. The only call excluded is one that creates
  another run under the same identifier.
\<close>

inductive clientStep :: "'s StoreOps \<Rightarrow> string \<Rightarrow> 's \<Rightarrow> 's \<Rightarrow> bool" for ops rid where
  other: "runWrite ops j s s' \<Longrightarrow> j \<noteq> rid \<Longrightarrow> clientStep ops rid s s'"
| append: "clientStep ops rid s (snd (so_AppendRunEvent ops clock j event s))"
| request: "clientStep ops rid s (snd (so_RequestRunCancel ops clock j s))"
| create: "run_ID (fst (so_CreateRun ops clock scenarioID targetID sc ref s)) \<noteq> rid \<Longrightarrow>
    clientStep ops rid s (snd (so_CreateRun ops clock scenarioID targetID sc ref s))"
| createTarget: "clientStep ops rid s (snd (so_CreateTarget ops clock target s))"
| updateTarget: "clientStep ops rid s (snd (so_UpdateTarget ops clock targetID target s))"
| deleteTarget: "clientStep ops rid s (snd (so_DeleteTarget ops targetID s))"
| createScenario: "clientStep ops rid s (snd (so_CreateScenario ops clock sc s))"
| updateScenario: "clientStep ops rid s (snd (so_UpdateScenario ops clock scenarioID sc s))"

text \<open>Any call; and a call of a client that, about the run itself, does no more than cancel it.\<close>

inductive storeStep :: "'s StoreOps \<Rightarrow> string \<Rightarrow> 's \<Rightarrow> 's \<Rightarrow> bool" for ops rid where
  lifecycle: "runWrite ops rid s s' \<Longrightarrow> storeStep ops rid s s'"
| client: "clientStep ops rid s s' \<Longrightarrow> storeStep ops rid s s'"

inductive apiStep :: "'s StoreOps \<Rightarrow> string \<Rightarrow> 's \<Rightarrow> 's \<Rightarrow> bool" for ops rid where
  cancels: "apiStep ops rid s (so_CancelRun ops clock rid rep s)"
| calls: "clientStep ops rid s s' \<Longrightarrow> apiStep ops rid s s'"

abbreviation apiSteps :: "'s StoreOps \<Rightarrow> string \<Rightarrow> 's \<Rightarrow> 's \<Rightarrow> bool" where
  "apiSteps ops rid \<equiv> (apiStep ops rid)\<^sup>*\<^sup>*"

abbreviation storeSteps :: "'s StoreOps \<Rightarrow> string \<Rightarrow> 's \<Rightarrow> 's \<Rightarrow> bool" where
  "storeSteps ops rid \<equiv> (storeStep ops rid)\<^sup>*\<^sup>*"

text \<open>
  Two records of the same run: deleting a target may clear the reference of its runs to it (the foreign key of the
  database does, the memory store keeps it); everything else agrees.
\<close>

definition sameRun :: "RunRecord \<Rightarrow> RunRecord \<Rightarrow> bool" where
  "sameRun r r' \<longleftrightarrow> r\<lparr>run_TargetID := ''''\<rparr> = r'\<lparr>run_TargetID := ''''\<rparr>"

lemma sameRun_refl [simp]: "sameRun r r"
  by (simp add: sameRun_def)

lemma sameRun_trans: "sameRun a b \<Longrightarrow> sameRun b c \<Longrightarrow> sameRun a c"
  by (simp add: sameRun_def)

lemma sameRun_Status: "sameRun r r' \<Longrightarrow> run_Status r' = run_Status r"
  by (cases r; cases r') (simp add: sameRun_def)

text \<open>
  What the executor, the worker and the server rely on, whatever implements the store: a finished run never changes,
  a lifecycle call on an unfinished run takes effect, other runs are left alone, and a cancellation request stays
  visible.
\<close>

locale run_store =
  fixes ops :: "'s StoreOps"
  assumes started: "so_GetRun ops rid s = Some r \<Longrightarrow> \<not> isTerminalRunStatus (run_Status r) \<Longrightarrow>
      \<exists>r'. so_GetRun ops rid (so_MarkRunStarted ops clock rid s) = Some r' \<and> run_Status r' = RunRunning"
    and completed: "so_GetRun ops rid s = Some r \<Longrightarrow> \<not> isTerminalRunStatus (run_Status r) \<Longrightarrow>
      \<exists>r'. so_GetRun ops rid (so_CompleteRun ops clock rid rep s) = Some r' \<and> run_Status r' = runStatusOf rep"
    and canceled: "so_GetRun ops rid s = Some r \<Longrightarrow> \<not> isTerminalRunStatus (run_Status r) \<Longrightarrow>
      \<exists>r'. so_GetRun ops rid (so_CancelRun ops clock rid rep s) = Some r' \<and> run_Status r' = RunCanceled"
    and errored: "so_GetRun ops rid s = Some r \<Longrightarrow> \<not> isTerminalRunStatus (run_Status r) \<Longrightarrow>
      \<exists>r'. so_GetRun ops rid (so_ErrorRun ops clock rid err s) = Some r' \<and> run_Status r' = RunErrored \<and> run_Error r' = err"
    and write_frozen: "runWrite ops rid s s' \<Longrightarrow> so_GetRun ops rid s = Some r \<Longrightarrow>
      isTerminalRunStatus (run_Status r) \<Longrightarrow> so_GetRun ops rid s' = Some r"
    and write_missing: "runWrite ops rid s s' \<Longrightarrow> so_GetRun ops rid s = None \<Longrightarrow> so_GetRun ops rid s' = None"
    and write_other: "runWrite ops j s s' \<Longrightarrow> rid \<noteq> j \<Longrightarrow> so_GetRun ops rid s' = so_GetRun ops rid s"
    and write_request: "runWrite ops j s s' \<Longrightarrow> so_IsRunCancelRequested ops rid s' = so_IsRunCancelRequested ops rid s"
    and append_run: "so_GetRun ops rid (snd (so_AppendRunEvent ops clock j event s)) = so_GetRun ops rid s"
    and append_request: "so_IsRunCancelRequested ops rid s \<Longrightarrow>
      so_IsRunCancelRequested ops rid (snd (so_AppendRunEvent ops clock j event s))"
    and append_no_request: "so_IsRunCancelRequested ops rid (snd (so_AppendRunEvent ops clock j event s)) \<Longrightarrow>
      so_IsRunCancelRequested ops rid s \<or> (j = rid \<and> ev_Type event = TypeCancelRequested)"
    and request_run: "so_GetRun ops rid (snd (so_RequestRunCancel ops clock j s)) = so_GetRun ops rid s"
    and request_result: "fst (so_RequestRunCancel ops clock rid s) \<Longrightarrow> so_GetRun ops rid s = Some r \<Longrightarrow>
      isCancelableRunStatus (run_Status r)"
    and request_request: "so_IsRunCancelRequested ops rid (snd (so_RequestRunCancel ops clock j s)) \<longleftrightarrow>
      so_IsRunCancelRequested ops rid s \<or> (j = rid \<and> fst (so_RequestRunCancel ops clock j s))"
    and create_other: "so_CreateRun ops clock scenarioID targetID sc ref s = (r, s') \<Longrightarrow> rid \<noteq> run_ID r \<Longrightarrow>
      so_GetRun ops rid s' = so_GetRun ops rid s"
    and create_request: "so_CreateRun ops clock scenarioID targetID sc ref s = (r, s') \<Longrightarrow>
      so_IsRunCancelRequested ops rid s' = so_IsRunCancelRequested ops rid s"
    and catalog_run: "rel_option sameRun (so_GetRun ops rid s) (so_GetRun ops rid (snd (so_CreateTarget ops clock target s)))"
      "rel_option sameRun (so_GetRun ops rid s) (so_GetRun ops rid (snd (so_UpdateTarget ops clock targetID target s)))"
      "rel_option sameRun (so_GetRun ops rid s) (so_GetRun ops rid (snd (so_DeleteTarget ops targetID s)))"
      "rel_option sameRun (so_GetRun ops rid s) (so_GetRun ops rid (snd (so_CreateScenario ops clock sc s)))"
      "rel_option sameRun (so_GetRun ops rid s) (so_GetRun ops rid (snd (so_UpdateScenario ops clock scenarioID sc s)))"
    and catalog_request: "so_IsRunCancelRequested ops rid (snd (so_CreateTarget ops clock target s)) = so_IsRunCancelRequested ops rid s"
      "so_IsRunCancelRequested ops rid (snd (so_UpdateTarget ops clock targetID target s)) = so_IsRunCancelRequested ops rid s"
      "so_IsRunCancelRequested ops rid (snd (so_DeleteTarget ops targetID s)) = so_IsRunCancelRequested ops rid s"
      "so_IsRunCancelRequested ops rid (snd (so_CreateScenario ops clock sc s)) = so_IsRunCancelRequested ops rid s"
      "so_IsRunCancelRequested ops rid (snd (so_UpdateScenario ops clock scenarioID sc s)) = so_IsRunCancelRequested ops rid s"
begin

lemma client_get:
  assumes "clientStep ops rid s s'"
  shows "rel_option sameRun (so_GetRun ops rid s) (so_GetRun ops rid s')"
    and "so_IsRunCancelRequested ops rid s \<Longrightarrow> so_IsRunCancelRequested ops rid s'"
proof -
  have cr: "so_GetRun ops rid (snd (so_CreateRun ops c i t sc ref x)) = so_GetRun ops rid x"
      "so_IsRunCancelRequested ops rid (snd (so_CreateRun ops c i t sc ref x)) = so_IsRunCancelRequested ops rid x"
    if "run_ID (fst (so_CreateRun ops c i t sc ref x)) \<noteq> rid" for c i t sc ref x
    using that create_other [OF prod.collapse [symmetric]] create_request [OF prod.collapse [symmetric]] by metis+
  have refl: "rel_option sameRun x x" for x
    by (simp add: option.rel_refl)
  show "rel_option sameRun (so_GetRun ops rid s) (so_GetRun ops rid s')"
    using assms by (cases rule: clientStep.cases) (auto simp: write_other append_run request_run cr catalog_run refl)
  show "so_IsRunCancelRequested ops rid s \<Longrightarrow> so_IsRunCancelRequested ops rid s'"
    using assms by (cases rule: clientStep.cases)
      (auto simp: write_request append_request request_request cr catalog_request)
qed

lemma client_some:
  assumes "clientStep ops rid s s'" and "so_GetRun ops rid s = Some r"
  shows "\<exists>r'. so_GetRun ops rid s' = Some r' \<and> sameRun r r' \<and> run_Status r' = run_Status r"
  using client_get(1) [OF assms(1)] sameRun_Status unfolding assms(2) by (auto simp: option_rel_Some1)

text \<open>A lifecycle call on an unfinished run leaves it running or finished.\<close>

lemma write_unfinished:
  assumes "runWrite ops rid s s'" and "so_GetRun ops rid s = Some r" and "\<not> isTerminalRunStatus (run_Status r)"
  shows "\<exists>r'. so_GetRun ops rid s' = Some r' \<and> (run_Status r' = RunRunning \<or> isTerminalRunStatus (run_Status r'))"
  using assms(1)
proof (cases rule: runWrite.cases)
  case (start clock)
  then show ?thesis using started [OF assms(2,3)] by blast
next
  case (complete clock rep)
  then show ?thesis using completed [OF assms(2,3)] by fastforce
next
  case (cancel clock rep)
  then show ?thesis using canceled [OF assms(2,3)] by fastforce
next
  case (fail clock err)
  then show ?thesis using errored [OF assms(2,3)] by fastforce
qed


lemma step_final:
  assumes "storeStep ops rid s s'" and "so_GetRun ops rid s = Some r" and "isTerminalRunStatus (run_Status r)"
  shows "\<exists>r'. so_GetRun ops rid s' = Some r' \<and> sameRun r r'"
  using assms(1)
proof (cases rule: storeStep.cases)
  case lifecycle
  then show ?thesis using write_frozen [OF lifecycle assms(2,3)] by auto
next
  case client
  then show ?thesis using client_some [OF client assms(2)] by blast
qed

lemma step_get:
  assumes "storeStep ops rid s s'" and "so_GetRun ops rid s = Some r"
  shows "\<exists>r'. so_GetRun ops rid s' = Some r' \<and>
    (run_Status r' = run_Status r \<or> run_Status r' = RunRunning \<or> isTerminalRunStatus (run_Status r'))"
  using assms(1)
proof (cases rule: storeStep.cases)
  case lifecycle
  then show ?thesis
    using write_frozen [OF lifecycle assms(2)] write_unfinished [OF lifecycle assms(2)]
    by (cases "isTerminalRunStatus (run_Status r)") blast+
next
  case client
  then show ?thesis using client_some [OF client assms(2)] by blast
qed

lemma step_request: "storeStep ops rid s s' \<Longrightarrow> so_IsRunCancelRequested ops rid s \<Longrightarrow> so_IsRunCancelRequested ops rid s'"
  by (cases rule: storeStep.cases) (auto simp: write_request client_get(2))

lemma steps_get:
  assumes "storeSteps ops rid s s'"
  shows "so_GetRun ops rid s = Some r \<Longrightarrow> isTerminalRunStatus (run_Status r) \<Longrightarrow>
      \<exists>r'. so_GetRun ops rid s' = Some r' \<and> sameRun r r'"
    and "so_IsRunCancelRequested ops rid s \<Longrightarrow> so_IsRunCancelRequested ops rid s'"
    and "so_GetRun ops rid s = Some r \<Longrightarrow> \<exists>r'. so_GetRun ops rid s' = Some r' \<and>
      (run_Status r' = run_Status r \<or> run_Status r' = RunRunning \<or> isTerminalRunStatus (run_Status r'))"
  using assms
proof (induction rule: rtranclp_induct)
  case (step s' s'')
  {
    case 1
    then obtain r' where "so_GetRun ops rid s' = Some r'" "sameRun r r'"
      using step by blast
    then show ?case
      using 1 step_final [OF step(2)] sameRun_trans sameRun_Status by metis
  next
    case 2
    then show ?case using step step_request by blast
  next
    case 3
    then show ?case using step step_get [OF step(2)] by metis
  }
qed auto

text \<open>Clients of the interface, as long as nothing but a cancellation touches the run.\<close>

lemma api_store: "apiSteps ops rid s s' \<Longrightarrow> storeSteps ops rid s s'"
  by (induction rule: rtranclp_induct)
    (auto elim!: apiStep.cases intro: rtranclp.rtrancl_into_rtrancl storeStep.client storeStep.lifecycle runWrite.cancel)

lemma api_get:
  assumes "apiSteps ops rid s s'" and "so_GetRun ops rid s = Some r"
  shows "\<exists>r'. so_GetRun ops rid s' = Some r' \<and> (run_Status r' = run_Status r \<or> run_Status r' = RunCanceled)"
  using assms
proof (induction rule: rtranclp_induct)
  case (step s' s'')
  then obtain r' where r': "so_GetRun ops rid s' = Some r'" "run_Status r' = run_Status r \<or> run_Status r' = RunCanceled"
    by blast
  from step(2) show ?case
  proof (cases rule: apiStep.cases)
    case (cancels clock rep)
    have w: "runWrite ops rid s' s''"
      unfolding cancels by (rule runWrite.cancel)
    show ?thesis
    proof (cases "isTerminalRunStatus (run_Status r')")
      case True
      then show ?thesis using r' write_frozen [OF w r'(1)] by blast
    next
      case False
      then show ?thesis using canceled [OF r'(1), of clock rep] cancels by blast
    qed
  next
    case calls
    then show ?thesis using r' client_some [OF calls r'(1)] by auto
  qed
qed auto

text \<open>Whoever finishes a run last, an unfinished run is finished by the call and a finished one is left alone.\<close>

lemma finish_run:
  assumes "so_GetRun ops rid s = Some r" and "run_Status r \<in> P \<or> \<not> isTerminalRunStatus (run_Status r)"
  shows "\<exists>r'. so_GetRun ops rid (so_CancelRun ops clock rid rep s) = Some r' \<and> run_Status r' \<in> insert RunCanceled P"
    and "\<exists>r'. so_GetRun ops rid (so_CompleteRun ops clock rid rep s) = Some r' \<and> run_Status r' \<in> insert (runStatusOf rep) P"
    and "\<exists>r'. so_GetRun ops rid (so_ErrorRun ops clock rid err s) = Some r' \<and> run_Status r' \<in> insert RunErrored P"
proof -
  note w = runWrite.cancel [of ops rid s clock rep] runWrite.complete [of ops rid s clock rep]
    runWrite.fail [of ops rid s clock err]
  show "\<exists>r'. so_GetRun ops rid (so_CancelRun ops clock rid rep s) = Some r' \<and> run_Status r' \<in> insert RunCanceled P"
    using assms canceled [OF assms(1)] write_frozen [OF w(1) assms(1)]
    by (cases "isTerminalRunStatus (run_Status r)") blast+
  show "\<exists>r'. so_GetRun ops rid (so_CompleteRun ops clock rid rep s) = Some r' \<and> run_Status r' \<in> insert (runStatusOf rep) P"
    using assms completed [OF assms(1)] write_frozen [OF w(2) assms(1)]
    by (cases "isTerminalRunStatus (run_Status r)") blast+
  show "\<exists>r'. so_GetRun ops rid (so_ErrorRun ops clock rid err s) = Some r' \<and> run_Status r' \<in> insert RunErrored P"
    using assms errored [OF assms(1)] write_frozen [OF w(3) assms(1)]
    by (cases "isTerminalRunStatus (run_Status r)") blast+
qed

end

end
