(* ===== verification/MemoryStore.thy ===== *)
theory MemoryStore
  imports Store
begin

text \<open>
  \<^verbatim>\<open>internal/store/memory.go\<close>: the in-memory store. Every method holds the mutex from its first to its last line,
  so each is one atomic function of the state. A listing iterates over a Go map, whose order is not
  specified: the order is the parameter \<open>iter\<close> of the operations, a function that permutes the entries.
\<close>

record Memory =
  targets :: "TargetRecord gomap"
  scenarios :: "ScenarioRecord gomap"
  scenarioVersions :: "ScenarioVersionRecord list gomap"
  runs :: "RunRecord gomap"
  runEvents :: "Event list gomap"

definition NewMemory :: Memory where
  "NewMemory = \<lparr>targets = [], scenarios = [], scenarioVersions = [], runs = [], runEvents = []\<rparr>"

text \<open>Indexing a map of slices: a missing key is the nil slice.\<close>

definition sliceAt :: "'a list gomap \<Rightarrow> string \<Rightarrow> 'a list" where
  "sliceAt m k = (case mapGet m k of None \<Rightarrow> [] | Some xs \<Rightarrow> xs)"

section \<open>Targets\<close>

definition CreateTarget :: "clock \<Rightarrow> TargetRecord \<Rightarrow> Memory \<Rightarrow> TargetRecord \<times> Memory" where
  "CreateTarget clock target m =
     (let now = clock 0;
          target = target\<lparr>tgr_ID := ''tgt_'' @ Itoa now, tgr_CreatedAt := now, tgr_UpdatedAt := now,
                          tgr_Headers := emptyIfNil (tgr_Headers target)\<rparr>
      in (target, m\<lparr>targets := mapSet (tgr_ID target) target (targets m)\<rparr>))"

definition UpdateTarget :: "clock \<Rightarrow> string \<Rightarrow> TargetRecord \<Rightarrow> Memory \<Rightarrow> TargetRecord option \<times> Memory" where
  "UpdateTarget clock tid target m =
     (case mapGet (targets m) tid of
        None \<Rightarrow> (None, m)
      | Some current \<Rightarrow>
          (let target = target\<lparr>tgr_ID := tid, tgr_CreatedAt := tgr_CreatedAt current, tgr_UpdatedAt := clock 0,
                               tgr_Headers := emptyIfNil (tgr_Headers target)\<rparr>
           in (Some target, m\<lparr>targets := mapSet tid target (targets m)\<rparr>)))"

definition DeleteTarget :: "string \<Rightarrow> Memory \<Rightarrow> bool \<times> Memory" where
  "DeleteTarget tid m =
     (case mapGet (targets m) tid of
        None \<Rightarrow> (False, m)
      | Some _ \<Rightarrow> (True, m\<lparr>targets := mapDelete tid (targets m)\<rparr>))"

definition GetTarget :: "string \<Rightarrow> Memory \<Rightarrow> TargetRecord option" where
  "GetTarget tid m = mapGet (targets m) tid"

definition ListTargets :: "(TargetRecord list \<Rightarrow> TargetRecord list) \<Rightarrow> Memory \<Rightarrow> TargetRecord list" where
  "ListTargets iter m = iter (map snd (targets m))"

section \<open>Scenarios\<close>

definition CreateScenario :: "clock \<Rightarrow> Scenario \<Rightarrow> Memory \<Rightarrow> ScenarioRecord \<times> Memory" where
  "CreateScenario clock sc m =
     (let now = clock 0;
          sid = ''scn_'' @ Itoa now;
          versionID = ''scv_'' @ Itoa now;
          version = \<lparr>sv_ID = versionID, sv_ScenarioID = sid, sv_VersionNumber = 1, sv_Scenario = sc, sv_CreatedAt = now\<rparr>;
          rec = \<lparr>scr_ID = sid, scr_Scenario = sc, scr_CurrentVersionID = versionID, scr_CurrentVersionNumber = 1,
                 scr_CreatedAt = now\<rparr>
      in (rec, m\<lparr>scenarios := mapSet sid rec (scenarios m),
                 scenarioVersions := mapSet sid [version] (scenarioVersions m)\<rparr>))"

definition UpdateScenario :: "clock \<Rightarrow> string \<Rightarrow> Scenario \<Rightarrow> Memory \<Rightarrow> ScenarioRecord option \<times> Memory" where
  "UpdateScenario clock sid sc m =
     (case mapGet (scenarios m) sid of
        None \<Rightarrow> (None, m)
      | Some rec \<Rightarrow>
          (let now = clock 0;
               versions = sliceAt (scenarioVersions m) sid;
               versionNumber = int (length versions) + 1;
               versionID = ''scv_'' @ Itoa now;
               version = \<lparr>sv_ID = versionID, sv_ScenarioID = sid, sv_VersionNumber = versionNumber,
                          sv_Scenario = sc, sv_CreatedAt = now\<rparr>;
               rec = rec\<lparr>scr_Scenario := sc, scr_CurrentVersionID := versionID,
                         scr_CurrentVersionNumber := versionNumber\<rparr>
           in (Some rec, m\<lparr>scenarioVersions := mapSet sid (versions @ [version]) (scenarioVersions m),
                           scenarios := mapSet sid rec (scenarios m)\<rparr>)))"

definition GetScenario :: "string \<Rightarrow> Memory \<Rightarrow> ScenarioRecord option" where
  "GetScenario sid m = mapGet (scenarios m) sid"

definition ListScenarios :: "(ScenarioRecord list \<Rightarrow> ScenarioRecord list) \<Rightarrow> Memory \<Rightarrow> ScenarioRecord list" where
  "ListScenarios iter m = iter (map snd (scenarios m))"

definition ListScenarioVersions :: "string \<Rightarrow> Memory \<Rightarrow> ScenarioVersionRecord list" where
  "ListScenarioVersions sid m = sliceAt (scenarioVersions m) sid"

definition GetScenarioVersion :: "string \<Rightarrow> int \<Rightarrow> Memory \<Rightarrow> ScenarioVersionRecord option" where
  "GetScenarioVersion sid versionNumber m =
     find (\<lambda>v. sv_VersionNumber v = versionNumber) (sliceAt (scenarioVersions m) sid)"

section \<open>Events\<close>

definition appendRunEventLocked :: "int \<Rightarrow> string \<Rightarrow> Event \<Rightarrow> Memory \<Rightarrow> Event \<times> Memory" where
  "appendRunEventLocked now runID event m =
     (let e1 = (if ev_ID event = '''' then event\<lparr>ev_ID := ''evt_'' @ Itoa now\<rparr> else event);
          e2 = (if ev_RunID e1 = '''' then e1\<lparr>ev_RunID := runID\<rparr> else e1);
          e3 = (if ev_Level e2 = '''' then e2\<lparr>ev_Level := LevelInfo\<rparr> else e2);
          e4 = (if ev_CreatedAt e3 = zeroTime then e3\<lparr>ev_CreatedAt := now\<rparr> else e3);
          e5 = e4\<lparr>ev_Sequence := int (length (sliceAt (runEvents m) runID)) + 1\<rparr>
      in (e5, m\<lparr>runEvents := mapSet runID (sliceAt (runEvents m) runID @ [e5]) (runEvents m)\<rparr>))"

definition AppendRunEvent :: "clock \<Rightarrow> string \<Rightarrow> Event \<Rightarrow> Memory \<Rightarrow> Event \<times> Memory" where
  "AppendRunEvent clock runID event m = appendRunEventLocked (clock 0) runID event m"

definition ListRunEvents :: "string \<Rightarrow> Memory \<Rightarrow> Event list" where
  "ListRunEvents runID m = sliceAt (runEvents m) runID"

definition isRunCancelRequestedLocked :: "string \<Rightarrow> Memory \<Rightarrow> bool" where
  "isRunCancelRequestedLocked runID m \<longleftrightarrow> list_ex (\<lambda>e. ev_Type e = TypeCancelRequested) (sliceAt (runEvents m) runID)"

definition IsRunCancelRequested :: "string \<Rightarrow> Memory \<Rightarrow> bool" where
  "IsRunCancelRequested runID m = isRunCancelRequestedLocked runID m"

section \<open>Runs\<close>

definition CreateRun ::
    "clock \<Rightarrow> string \<Rightarrow> string \<Rightarrow> Scenario \<Rightarrow> ScenarioVersionRecord list \<Rightarrow> Memory \<Rightarrow> RunRecord \<times> Memory" where
  "CreateRun clock scenarioID targetID sc versionRef m =
     (let now = clock 0;
          rid = ''run_'' @ Itoa now;
          (versionID, versionNumber) =
            (case versionRef of
               v # _ \<Rightarrow> (sv_ID v, sv_VersionNumber v)
             | [] \<Rightarrow>
                 (if scenarioID \<noteq> ''''
                  then (case mapGet (scenarios m) scenarioID of
                          Some rec \<Rightarrow> (scr_CurrentVersionID rec, scr_CurrentVersionNumber rec)
                        | None \<Rightarrow> ('''', 0))
                  else ('''', 0)));
          rec = \<lparr>run_ID = rid, run_TargetID = targetID, run_ScenarioID = scenarioID,
                 run_ScenarioVersionID = versionID, run_ScenarioVersionNumber = versionNumber,
                 run_Status = RunQueued, run_Scenario = sc, run_Report = None, run_Error = '''',
                 run_CreatedAt = now, run_StartedAt = None, run_FinishedAt = None\<rparr>
      in (rec, snd (appendRunEventLocked (clock 1) rid
            (newEvent LevelInfo TypeRunQueued ''run queued''
               (Some [(''scenario_id'', MString scenarioID), (''scenario_version_id'', MString versionID),
                      (''scenario_version_number'', MInt versionNumber), (''scenario'', MString (sc_Name sc)),
                      (''target_id'', MString targetID)]))
            (m\<lparr>runs := mapSet rid rec (runs m)\<rparr>))))"

definition MarkRunStarted :: "clock \<Rightarrow> string \<Rightarrow> Memory \<Rightarrow> Memory" where
  "MarkRunStarted clock rid m =
     (case mapGet (runs m) rid of
        None \<Rightarrow> m
      | Some rec \<Rightarrow>
          (if isTerminalRunStatus (run_Status rec) then m
           else let now = clock 0;
                    rec = rec\<lparr>run_Status := RunRunning, run_StartedAt := Some now\<rparr>
                in snd (appendRunEventLocked (clock 1) rid (newEvent LevelInfo TypeRunStarted ''run started'' None)
                     (m\<lparr>runs := mapSet rid rec (runs m)\<rparr>))))"

definition CompleteRun :: "clock \<Rightarrow> string \<Rightarrow> Report \<Rightarrow> Memory \<Rightarrow> Memory" where
  "CompleteRun clock rid rep m =
     (case mapGet (runs m) rid of
        None \<Rightarrow> m
      | Some rec \<Rightarrow>
          (if isTerminalRunStatus (run_Status rec) then m
           else let now = clock 0;
                    status = (if rp_Status rep = StatusFailed then RunFailed else RunPassed);
                    rep = rep\<lparr>rp_ScenarioVersionID := run_ScenarioVersionID rec,
                              rp_ScenarioVersionNumber := run_ScenarioVersionNumber rec\<rparr>;
                    rec = rec\<lparr>run_Status := status, run_Report := Some rep, run_FinishedAt := Some now\<rparr>;
                    (eventType, level, message) =
                      (if status = RunFailed then (TypeRunFailed, LevelError, ''run failed'')
                       else (TypeRunCompleted, LevelInfo, ''run completed''))
                in snd (appendRunEventLocked (clock 1) rid
                     (newEvent level eventType message
                        (Some [(''status'', MString status),
                               (''total_requests'', MInt (sm_TotalRequests (rp_Summary rep))),
                               (''failed_requests'', MInt (sm_FailedRequests (rp_Summary rep))),
                               (''failures'', MStrings (rp_Failures rep))]))
                     (m\<lparr>runs := mapSet rid rec (runs m)\<rparr>))))"

definition CancelRun :: "clock \<Rightarrow> string \<Rightarrow> Report \<Rightarrow> Memory \<Rightarrow> Memory" where
  "CancelRun clock rid rep m =
     (case mapGet (runs m) rid of
        None \<Rightarrow> m
      | Some rec \<Rightarrow>
          (if isTerminalRunStatus (run_Status rec) then m
           else let now = clock 0;
                    rep = rep\<lparr>rp_Status := StatusCanceled, rp_ScenarioVersionID := run_ScenarioVersionID rec,
                              rp_ScenarioVersionNumber := run_ScenarioVersionNumber rec\<rparr>;
                    rec = rec\<lparr>run_Status := RunCanceled, run_Report := Some rep, run_Error := ''run canceled'',
                              run_FinishedAt := Some now\<rparr>
                in snd (appendRunEventLocked (clock 1) rid
                     (newEvent LevelWarn TypeRunCanceled ''run canceled''
                        (Some [(''failures'', MStrings (rp_Failures rep))]))
                     (m\<lparr>runs := mapSet rid rec (runs m)\<rparr>))))"

definition ErrorRun :: "clock \<Rightarrow> string \<Rightarrow> string \<Rightarrow> Memory \<Rightarrow> Memory" where
  "ErrorRun clock rid err m =
     (case mapGet (runs m) rid of
        None \<Rightarrow> m
      | Some rec \<Rightarrow>
          (if isTerminalRunStatus (run_Status rec) then m
           else let now = clock 0;
                    rec = rec\<lparr>run_Status := RunErrored, run_Error := err, run_FinishedAt := Some now\<rparr>
                in snd (appendRunEventLocked (clock 1) rid (newEvent LevelError TypeRunFailed err None)
                     (m\<lparr>runs := mapSet rid rec (runs m)\<rparr>))))"

definition GetRun :: "string \<Rightarrow> Memory \<Rightarrow> RunRecord option" where
  "GetRun rid m = mapGet (runs m) rid"

definition ListRuns :: "(RunRecord list \<Rightarrow> RunRecord list) \<Rightarrow> Memory \<Rightarrow> RunRecord list" where
  "ListRuns iter m = iter (map snd (runs m))"

definition RequestRunCancel :: "clock \<Rightarrow> string \<Rightarrow> Memory \<Rightarrow> bool \<times> Memory" where
  "RequestRunCancel clock rid m =
     (case mapGet (runs m) rid of
        None \<Rightarrow> (False, m)
      | Some rec \<Rightarrow>
          (if \<not> isCancelableRunStatus (run_Status rec) then (False, m)
           else if isRunCancelRequestedLocked rid m then (True, m)
           else (True, snd (appendRunEventLocked (clock 0) rid
                  (newEvent LevelWarn TypeCancelRequested ''run cancellation requested''
                     (Some [(''status'', MString (run_Status rec))])) m))))"

text \<open>The memory store as a value of the interface.\<close>

definition memoryOps :: "(TargetRecord list \<Rightarrow> TargetRecord list) \<Rightarrow> (ScenarioRecord list \<Rightarrow> ScenarioRecord list) \<Rightarrow>
    (RunRecord list \<Rightarrow> RunRecord list) \<Rightarrow> Memory StoreOps" where
  "memoryOps iterT iterS iterR =
     \<lparr>so_CreateTarget = CreateTarget, so_UpdateTarget = UpdateTarget, so_DeleteTarget = DeleteTarget,
      so_GetTarget = GetTarget, so_ListTargets = ListTargets iterT, so_CreateScenario = CreateScenario,
      so_UpdateScenario = UpdateScenario, so_GetScenario = GetScenario, so_ListScenarios = ListScenarios iterS,
      so_ListScenarioVersions = ListScenarioVersions, so_GetScenarioVersion = GetScenarioVersion,
      so_CreateRun = CreateRun, so_MarkRunStarted = MarkRunStarted, so_CompleteRun = CompleteRun,
      so_CancelRun = CancelRun, so_ErrorRun = ErrorRun, so_GetRun = GetRun, so_ListRuns = ListRuns iterR,
      so_RequestRunCancel = RequestRunCancel, so_IsRunCancelRequested = IsRunCancelRequested,
      so_AppendRunEvent = AppendRunEvent, so_ListRunEvents = ListRunEvents\<rparr>"

section \<open>What each call does to the runs and to the logs\<close>

lemma append_frame [simp]:
  "runs (snd (appendRunEventLocked now i e m)) = runs m"
  "targets (snd (appendRunEventLocked now i e m)) = targets m"
  "scenarios (snd (appendRunEventLocked now i e m)) = scenarios m"
  "scenarioVersions (snd (appendRunEventLocked now i e m)) = scenarioVersions m"
  by (simp_all add: appendRunEventLocked_def Let_def)

lemma append_events [simp]:
  "ListRunEvents j (snd (appendRunEventLocked now i e m)) =
     ListRunEvents j m @ (if j = i then [fst (appendRunEventLocked now i e m)] else [])"
  by (simp add: appendRunEventLocked_def Let_def ListRunEvents_def sliceAt_def)

lemma append_event [simp]:
  "ev_Type (fst (appendRunEventLocked now i e m)) = ev_Type e"
  "ev_Sequence (fst (appendRunEventLocked now i e m)) = int (length (ListRunEvents i m)) + 1"
  by (simp_all add: appendRunEventLocked_def Let_def ListRunEvents_def)

lemma ListRunEvents_upd [simp]:
  "ListRunEvents j (m\<lparr>runs := x\<rparr>) = ListRunEvents j m"
  "ListRunEvents j (m\<lparr>targets := y\<rparr>) = ListRunEvents j m"
  "ListRunEvents j (m\<lparr>scenarios := z\<rparr>) = ListRunEvents j m"
  "ListRunEvents j (m\<lparr>scenarioVersions := w\<rparr>) = ListRunEvents j m"
  by (simp_all add: ListRunEvents_def)

lemma newEvent_Type [simp]: "ev_Type (newEvent l t msg md) = t"
  by (simp add: newEvent_def)

lemma IsRunCancelRequested_log:
  "IsRunCancelRequested i m \<longleftrightarrow> list_ex (\<lambda>e. ev_Type e = TypeCancelRequested) (ListRunEvents i m)"
  "isRunCancelRequestedLocked i m \<longleftrightarrow> list_ex (\<lambda>e. ev_Type e = TypeCancelRequested) (ListRunEvents i m)"
  by (simp_all add: IsRunCancelRequested_def isRunCancelRequestedLocked_def ListRunEvents_def)

text \<open>The record a lifecycle call leaves, given the record it finds.\<close>

definition startedRecord :: "int \<Rightarrow> RunRecord \<Rightarrow> RunRecord" where
  "startedRecord now r = (if isTerminalRunStatus (run_Status r) then r
     else r\<lparr>run_Status := RunRunning, run_StartedAt := Some now\<rparr>)"

definition versionedReport :: "RunRecord \<Rightarrow> Report \<Rightarrow> Report" where
  "versionedReport r rep = rep\<lparr>rp_ScenarioVersionID := run_ScenarioVersionID r,
     rp_ScenarioVersionNumber := run_ScenarioVersionNumber r\<rparr>"

definition completedRecord :: "int \<Rightarrow> Report \<Rightarrow> RunRecord \<Rightarrow> RunRecord" where
  "completedRecord now rep r = (if isTerminalRunStatus (run_Status r) then r
     else r\<lparr>run_Status := runStatusOf rep, run_Report := Some (versionedReport r rep), run_FinishedAt := Some now\<rparr>)"

definition canceledRecord :: "int \<Rightarrow> Report \<Rightarrow> RunRecord \<Rightarrow> RunRecord" where
  "canceledRecord now rep r = (if isTerminalRunStatus (run_Status r) then r
     else r\<lparr>run_Status := RunCanceled, run_Report := Some (versionedReport r (rep\<lparr>rp_Status := StatusCanceled\<rparr>)),
            run_Error := ''run canceled'', run_FinishedAt := Some now\<rparr>)"

definition erroredRecord :: "int \<Rightarrow> string \<Rightarrow> RunRecord \<Rightarrow> RunRecord" where
  "erroredRecord now err r = (if isTerminalRunStatus (run_Status r) then r
     else r\<lparr>run_Status := RunErrored, run_Error := err, run_FinishedAt := Some now\<rparr>)"

lemmas record_defs = startedRecord_def completedRecord_def canceledRecord_def erroredRecord_def versionedReport_def

lemmas lifecycle_defs = MarkRunStarted_def CompleteRun_def CancelRun_def ErrorRun_def

lemma GetRun_lifecycle [simp]:
  "GetRun j (MarkRunStarted c i m) = (if j = i then map_option (startedRecord (c 0)) (GetRun i m) else GetRun j m)"
  "GetRun j (CompleteRun c i rep m) = (if j = i then map_option (completedRecord (c 0) rep) (GetRun i m) else GetRun j m)"
  "GetRun j (CancelRun c i rep m) = (if j = i then map_option (canceledRecord (c 0) rep) (GetRun i m) else GetRun j m)"
  "GetRun j (ErrorRun c i err m) = (if j = i then map_option (erroredRecord (c 0) err) (GetRun i m) else GetRun j m)"
  by (simp_all add: lifecycle_defs record_defs runStatusOf_def GetRun_def Let_def split: option.split)

lemma GetRun_frame [simp]:
  "GetRun j (snd (appendRunEventLocked now i e m)) = GetRun j m"
  "GetRun j (snd (AppendRunEvent c i e m)) = GetRun j m"
  "GetRun j (snd (RequestRunCancel c i m)) = GetRun j m"
  "GetRun j (snd (CreateTarget c t m)) = GetRun j m" "GetRun j (snd (UpdateTarget c i t m)) = GetRun j m"
  "GetRun j (snd (DeleteTarget i m)) = GetRun j m"
  "GetRun j (snd (CreateScenario c sc m)) = GetRun j m" "GetRun j (snd (UpdateScenario c i sc m)) = GetRun j m"
  by (simp_all add: GetRun_def AppendRunEvent_def RequestRunCancel_def CreateTarget_def UpdateTarget_def
      DeleteTarget_def CreateScenario_def UpdateScenario_def Let_def split: option.split)

lemma events_catalog [simp]:
  "ListRunEvents j (snd (CreateTarget c t m)) = ListRunEvents j m"
  "ListRunEvents j (snd (UpdateTarget c i t m)) = ListRunEvents j m"
  "ListRunEvents j (snd (DeleteTarget i m)) = ListRunEvents j m"
  "ListRunEvents j (snd (CreateScenario c sc m)) = ListRunEvents j m"
  "ListRunEvents j (snd (UpdateScenario c i sc m)) = ListRunEvents j m"
  by (simp_all add: CreateTarget_def UpdateTarget_def DeleteTarget_def CreateScenario_def UpdateScenario_def
      ListRunEvents_def Let_def split: option.split)

lemma CreateRun_record:
  assumes "CreateRun c sid tid sc ref m = (r, m')"
  shows "run_Status r = RunQueued" "run_Scenario r = sc" "run_ID r = ''run_'' @ Itoa (c 0)"
    "run_Report r = None" "run_StartedAt r = None" "run_FinishedAt r = None"
    "GetRun j m' = (if j = run_ID r then Some r else GetRun j m)"
  using assms by (auto simp: CreateRun_def GetRun_def Let_def split: list.splits if_splits option.splits)

text \<open>A call appends at most one event to a log, numbered after the last.\<close>

definition logStep :: "(string \<Rightarrow> bool) \<Rightarrow> Event list \<Rightarrow> Event list \<Rightarrow> bool" where
  "logStep P old new \<longleftrightarrow>
     new = old \<or> (\<exists>e. new = old @ [e] \<and> ev_Sequence e = int (length old) + 1 \<and> P (ev_Type e))"

lemma logStep_refl [simp]: "logStep P l l"
  by (simp add: logStep_def)

lemma logStep_append:
  "P (ev_Type e) \<Longrightarrow> ListRunEvents j m = ListRunEvents j m0 \<Longrightarrow>
     logStep P (ListRunEvents j m0) (ListRunEvents j (snd (appendRunEventLocked now i e m)))"
  by (auto simp: logStep_def)

lemma log_lifecycle:
  "logStep (\<lambda>t. t = TypeRunStarted) (ListRunEvents j m) (ListRunEvents j (MarkRunStarted c i m))"
  "logStep (\<lambda>t. t \<in> {TypeRunCompleted, TypeRunFailed}) (ListRunEvents j m) (ListRunEvents j (CompleteRun c i rep m))"
  "logStep (\<lambda>t. t = TypeRunCanceled) (ListRunEvents j m) (ListRunEvents j (CancelRun c i rep m))"
  "logStep (\<lambda>t. t = TypeRunFailed) (ListRunEvents j m) (ListRunEvents j (ErrorRun c i err m))"
  by (auto simp: lifecycle_defs Let_def split: option.split intro!: logStep_append simp del: append_events)

lemma log_request:
  "logStep (\<lambda>t. t = TypeCancelRequested) (ListRunEvents j m) (ListRunEvents j (snd (RequestRunCancel c i m)))"
  by (auto simp: RequestRunCancel_def split: option.split intro!: logStep_append simp del: append_events)

lemma log_create:
  "CreateRun c sid tid sc ref m = (r, m') \<Longrightarrow> logStep (\<lambda>t. t = TypeRunQueued) (ListRunEvents j m) (ListRunEvents j m')"
  by (auto simp: CreateRun_def Let_def split: list.splits if_splits option.splits
      intro!: logStep_append simp del: append_events)

lemma logStep_ex:
  "logStep P old new \<Longrightarrow> (\<And>t. P t \<Longrightarrow> t \<noteq> T) \<Longrightarrow> list_ex (\<lambda>e. ev_Type e = T) new = list_ex (\<lambda>e. ev_Type e = T) old"
  by (auto simp: logStep_def)

lemma request_lifecycle:
  "IsRunCancelRequested j (MarkRunStarted c i m) = IsRunCancelRequested j m"
  "IsRunCancelRequested j (CompleteRun c i rep m) = IsRunCancelRequested j m"
  "IsRunCancelRequested j (CancelRun c i rep m) = IsRunCancelRequested j m"
  "IsRunCancelRequested j (ErrorRun c i err m) = IsRunCancelRequested j m"
  unfolding IsRunCancelRequested_log
  by (rule logStep_ex [OF log_lifecycle(1)] logStep_ex [OF log_lifecycle(2)]
      logStep_ex [OF log_lifecycle(3)] logStep_ex [OF log_lifecycle(4)]; auto simp: event_types)+

lemma request_create:
  assumes "CreateRun c sid tid sc ref m = (r, m')"
  shows "IsRunCancelRequested j m' = IsRunCancelRequested j m"
  unfolding IsRunCancelRequested_log by (rule logStep_ex [OF log_create [OF assms]]) (simp add: event_types)

lemma request_append:
  "IsRunCancelRequested j (snd (AppendRunEvent c i e m)) \<longleftrightarrow>
     IsRunCancelRequested j m \<or> (i = j \<and> ev_Type e = TypeCancelRequested)"
  by (auto simp: IsRunCancelRequested_log AppendRunEvent_def)

lemma RequestRunCancel_result:
  "fst (RequestRunCancel c i m) \<longleftrightarrow> (\<exists>r. GetRun i m = Some r \<and> isCancelableRunStatus (run_Status r))"
  by (simp add: RequestRunCancel_def GetRun_def split: option.split)

lemma request_request:
  "IsRunCancelRequested j (snd (RequestRunCancel c i m)) \<longleftrightarrow>
     IsRunCancelRequested j m \<or> (i = j \<and> fst (RequestRunCancel c i m))"
  by (auto simp: IsRunCancelRequested_log RequestRunCancel_def split: option.split)

lemma request_catalog:
  "IsRunCancelRequested j (snd (CreateTarget c t m)) = IsRunCancelRequested j m"
  "IsRunCancelRequested j (snd (UpdateTarget c i t m)) = IsRunCancelRequested j m"
  "IsRunCancelRequested j (snd (DeleteTarget i m)) = IsRunCancelRequested j m"
  "IsRunCancelRequested j (snd (CreateScenario c sc m)) = IsRunCancelRequested j m"
  "IsRunCancelRequested j (snd (UpdateScenario c i sc m)) = IsRunCancelRequested j m"
  by (simp_all add: IsRunCancelRequested_log)

lemma memoryOps_sel [simp]:
  "so_CreateTarget (memoryOps a b c) = CreateTarget" "so_UpdateTarget (memoryOps a b c) = UpdateTarget"
  "so_DeleteTarget (memoryOps a b c) = DeleteTarget" "so_GetTarget (memoryOps a b c) = GetTarget"
  "so_CreateScenario (memoryOps a b c) = CreateScenario" "so_UpdateScenario (memoryOps a b c) = UpdateScenario"
  "so_GetScenario (memoryOps a b c) = GetScenario" "so_GetScenarioVersion (memoryOps a b c) = GetScenarioVersion"
  "so_ListScenarioVersions (memoryOps a b c) = ListScenarioVersions"
  "so_CreateRun (memoryOps a b c) = CreateRun" "so_MarkRunStarted (memoryOps a b c) = MarkRunStarted"
  "so_CompleteRun (memoryOps a b c) = CompleteRun" "so_CancelRun (memoryOps a b c) = CancelRun"
  "so_ErrorRun (memoryOps a b c) = ErrorRun" "so_GetRun (memoryOps a b c) = GetRun"
  "so_RequestRunCancel (memoryOps a b c) = RequestRunCancel"
  "so_IsRunCancelRequested (memoryOps a b c) = IsRunCancelRequested"
  "so_AppendRunEvent (memoryOps a b c) = AppendRunEvent" "so_ListRunEvents (memoryOps a b c) = ListRunEvents"
  "so_ListTargets (memoryOps a b c) = ListTargets a" "so_ListScenarios (memoryOps a b c) = ListScenarios b"
  "so_ListRuns (memoryOps a b c) = ListRuns c"
  by (simp_all add: memoryOps_def)

interpretation mem: run_store "memoryOps a b c"
  by unfold_locales
    (auto simp: record_defs request_lifecycle request_create request_append request_request RequestRunCancel_result
      request_catalog CreateRun_record option.rel_refl elim!: runWrite.cases)

section \<open>Reachable states\<close>

text \<open>Every method that changes the state, called with any arguments at any time.\<close>

inductive memStep :: "Memory \<Rightarrow> Memory \<Rightarrow> bool" where
  createTarget: "memStep m (snd (CreateTarget clock target m))"
| updateTarget: "memStep m (snd (UpdateTarget clock tid target m))"
| deleteTarget: "memStep m (snd (DeleteTarget tid m))"
| createScenario: "memStep m (snd (CreateScenario clock sc m))"
| updateScenario: "memStep m (snd (UpdateScenario clock sid sc m))"
| createRun: "CreateRun clock sid tid sc ref m = (r, m') \<Longrightarrow> memStep m m'"
| markStarted: "memStep m (MarkRunStarted clock rid m)"
| completeRun: "memStep m (CompleteRun clock rid rep m)"
| cancelRun: "memStep m (CancelRun clock rid rep m)"
| errorRun: "memStep m (ErrorRun clock rid err m)"
| requestCancel: "memStep m (snd (RequestRunCancel clock rid m))"
| appendEvent: "memStep m (snd (AppendRunEvent clock rid event m))"

abbreviation memReachable :: "Memory \<Rightarrow> bool" where
  "memReachable m \<equiv> memStep\<^sup>*\<^sup>* NewMemory m"

text \<open>The well-formedness of one run: its status fits the times and the report it carries.\<close>

definition runWf :: "string \<Rightarrow> RunRecord \<Rightarrow> bool" where
  "runWf rid r \<longleftrightarrow>
     run_ID r = rid \<and> knownRunStatus (run_Status r) \<and>
     (run_FinishedAt r \<noteq> None \<longleftrightarrow> isTerminalRunStatus (run_Status r)) \<and>
     (run_Status r = RunQueued \<longrightarrow> run_StartedAt r = None) \<and>
     (run_Status r = RunRunning \<longrightarrow> run_StartedAt r \<noteq> None) \<and>
     (case run_Report r of
        None \<Rightarrow> run_Status r \<in> {RunQueued, RunRunning, RunErrored}
      | Some rep \<Rightarrow>
          rp_ScenarioVersionID rep = run_ScenarioVersionID r \<and>
          rp_ScenarioVersionNumber rep = run_ScenarioVersionNumber r \<and>
          (run_Status r = RunPassed \<and> rp_Status rep \<noteq> StatusFailed \<or>
           run_Status r = RunFailed \<and> rp_Status rep = StatusFailed \<or>
           run_Status r = RunCanceled \<and> rp_Status rep = StatusCanceled))"

definition runsWf :: "Memory \<Rightarrow> bool" where
  "runsWf m \<longleftrightarrow> (\<forall>rid r. GetRun rid m = Some r \<longrightarrow> runWf rid r)"

definition numbered :: "Event list \<Rightarrow> bool" where
  "numbered es \<longleftrightarrow> map ev_Sequence es = map (\<lambda>i. int i + 1) [0..<length es]"

definition versionsWf :: "Memory \<Rightarrow> bool" where
  "versionsWf m \<longleftrightarrow> (\<forall>sid r. GetScenario sid m = Some r \<longrightarrow>
     (let vs = ListScenarioVersions sid m
      in scr_ID r = sid \<and> vs \<noteq> [] \<and> map sv_VersionNumber vs = map (\<lambda>i. int i + 1) [0..<length vs] \<and>
         list_all (\<lambda>v. sv_ScenarioID v = sid) vs \<and>
         sv_Scenario (last vs) = scr_Scenario r \<and> sv_ID (last vs) = scr_CurrentVersionID r \<and>
         sv_VersionNumber (last vs) = scr_CurrentVersionNumber r))"

lemma runWf_records:
  assumes "runWf rid r"
  shows "runWf rid (startedRecord now r)" "runWf rid (completedRecord now rep r)"
    "runWf rid (canceledRecord now rep r)" "runWf rid (erroredRecord now err r)"
proof -
  show "runWf rid (startedRecord now r)" "runWf rid (completedRecord now rep r)"
    "runWf rid (canceledRecord now rep r)"
    using assms by (auto simp: runWf_def record_defs runStatusOf_def knownRunStatus_def run_status
        isTerminalRunStatus_def isCancelableRunStatus_def split: option.splits)
  show "runWf rid (erroredRecord now err r)"
    using assms by (auto simp: runWf_def record_defs knownRunStatus_def run_status
        isTerminalRunStatus_def isCancelableRunStatus_def split: option.splits)
qed

lemma runWf_created: "CreateRun c sid tid sc ref m = (r, m') \<Longrightarrow> runWf (run_ID r) r"
  using CreateRun_record [of c sid tid sc ref m r m'] by (simp add: runWf_def knownRunStatus_def)

lemma step_runsWf: "memStep m m' \<Longrightarrow> runsWf m \<Longrightarrow> runsWf m'"
  by (induction rule: memStep.induct)
    (auto simp: runsWf_def CreateRun_record(7) split: if_splits intro: runWf_records runWf_created)

lemma step_log:
  assumes "memStep m m'"
  shows "logStep (\<lambda>_. True) (ListRunEvents j m) (ListRunEvents j m')"
proof -
  have weaken: "logStep P l l' \<Longrightarrow> logStep (\<lambda>_. True) l l'" for P l l'
    by (auto simp: logStep_def)
  show ?thesis
    using assms
    by (cases rule: memStep.cases)
      (auto simp: AppendRunEvent_def simp del: append_events
        intro: weaken [OF log_lifecycle(1)] weaken [OF log_lifecycle(2)] weaken [OF log_lifecycle(3)]
          weaken [OF log_lifecycle(4)] weaken [OF log_request] weaken [OF log_create] logStep_append)
qed

lemma numbered_logStep: "logStep P l l' \<Longrightarrow> numbered l \<Longrightarrow> numbered l'"
  by (auto simp: logStep_def numbered_def)

lemma frame_scenarios:
  "GetScenario sid (MarkRunStarted c i m) = GetScenario sid m" "GetScenario sid (CompleteRun c i rep m) = GetScenario sid m"
  "GetScenario sid (CancelRun c i rep m) = GetScenario sid m" "GetScenario sid (ErrorRun c i err m) = GetScenario sid m"
  "GetScenario sid (snd (RequestRunCancel c i m)) = GetScenario sid m"
  "GetScenario sid (snd (AppendRunEvent c i e m)) = GetScenario sid m"
  "GetScenario sid (snd (CreateTarget c t m)) = GetScenario sid m"
  "GetScenario sid (snd (UpdateTarget c i t m)) = GetScenario sid m"
  "GetScenario sid (snd (DeleteTarget i m)) = GetScenario sid m"
  "CreateRun c s tid sc ref m = (r, m') \<Longrightarrow> GetScenario sid m' = GetScenario sid m"
  by (auto simp: GetScenario_def lifecycle_defs RequestRunCancel_def AppendRunEvent_def CreateTarget_def
      UpdateTarget_def DeleteTarget_def CreateRun_def Let_def split: option.splits list.splits if_splits)

lemma frame_versions:
  "ListScenarioVersions sid (MarkRunStarted c i m) = ListScenarioVersions sid m"
  "ListScenarioVersions sid (CompleteRun c i rep m) = ListScenarioVersions sid m"
  "ListScenarioVersions sid (CancelRun c i rep m) = ListScenarioVersions sid m"
  "ListScenarioVersions sid (ErrorRun c i err m) = ListScenarioVersions sid m"
  "ListScenarioVersions sid (snd (RequestRunCancel c i m)) = ListScenarioVersions sid m"
  "ListScenarioVersions sid (snd (AppendRunEvent c i e m)) = ListScenarioVersions sid m"
  "ListScenarioVersions sid (snd (CreateTarget c t m)) = ListScenarioVersions sid m"
  "ListScenarioVersions sid (snd (UpdateTarget c i t m)) = ListScenarioVersions sid m"
  "ListScenarioVersions sid (snd (DeleteTarget i m)) = ListScenarioVersions sid m"
  "CreateRun c s tid sc ref m = (r, m') \<Longrightarrow> ListScenarioVersions sid m' = ListScenarioVersions sid m"
  by (auto simp: ListScenarioVersions_def lifecycle_defs RequestRunCancel_def AppendRunEvent_def CreateTarget_def
      UpdateTarget_def DeleteTarget_def CreateRun_def Let_def split: option.splits list.splits if_splits)

lemma versionsWf_create: "versionsWf m \<Longrightarrow> versionsWf (snd (CreateScenario c sc m))"
  by (auto simp: versionsWf_def CreateScenario_def GetScenario_def ListScenarioVersions_def sliceAt_def Let_def)

lemma versionsWf_update: "versionsWf m \<Longrightarrow> versionsWf (snd (UpdateScenario c i sc m))"
  by (auto simp: versionsWf_def UpdateScenario_def GetScenario_def ListScenarioVersions_def sliceAt_def Let_def
      split: option.splits)

lemma step_versionsWf: "memStep m m' \<Longrightarrow> versionsWf m \<Longrightarrow> versionsWf m'"
  by (induction rule: memStep.induct)
    (simp_all add: versionsWf_create versionsWf_update, simp_all add: versionsWf_def frame_scenarios frame_versions)

lemma reachable_invariants:
  assumes "memReachable m"
  shows "runsWf m" and "numbered (ListRunEvents j m)" and "versionsWf m"
  using assms
proof (induction rule: rtranclp_induct)
  case base
  {
    case 1
    show ?case by (simp add: runsWf_def GetRun_def NewMemory_def)
  next
    case 2
    show ?case by (simp add: numbered_def ListRunEvents_def sliceAt_def NewMemory_def)
  next
    case 3
    show ?case by (simp add: versionsWf_def GetScenario_def NewMemory_def)
  }
next
  case (step m m')
  {
    case 1
    show ?case using step step_runsWf by blast
  next
    case 2
    show ?case using step numbered_logStep [OF step_log] by blast
  next
    case 3
    show ?case using step step_versionsWf by blast
  }
qed

text \<open>
  C5: whatever calls were made in whatever order, in the memory store every run carries a status of the six and the
  times and report that fit it (a finish time exactly when it is finished, a failed report exactly when failed, the
  version of the run in its report), every event log is numbered 1, 2, 3 and so on without a gap, and every scenario
  has versions numbered from 1 the last of which is its current one.
\<close>

theorem memory_invariant:
  assumes "memReachable m"
  shows "runsWf m \<and> (\<forall>rid. numbered (ListRunEvents rid m)) \<and> versionsWf m"
  using reachable_invariants [OF assms] by blast

lemma memory_client:
  assumes "clientStep (memoryOps iterT iterS iterR) rid m m'"
  shows "GetRun rid m' = GetRun rid m"
proof -
  have create: "GetRun rid (snd (CreateRun c sid tid sc ref x)) = GetRun rid x" if "run_ID (fst (CreateRun c sid tid sc ref x)) \<noteq> rid"
    for c sid tid sc ref x
    using that CreateRun_record(7) [OF prod.collapse [symmetric]] by metis
  show ?thesis
    using assms mem.write_other by (cases rule: clientStep.cases) (auto simp: create)
qed

lemma memory_step_final:
  assumes "storeStep (memoryOps iterT iterS iterR) rid m m'" and "GetRun rid m = Some r" and "isTerminalRunStatus (run_Status r)"
  shows "GetRun rid m' = Some r"
  using assms(1) mem.write_frozen [of iterT iterS iterR rid m m' r] memory_client assms(2,3) by (cases rule: storeStep.cases) auto

text \<open>
  C6: a finished run is final: no sequence of later calls, by any number of clients in any order, changes its record,
  unless a run is created under the same identifier.
\<close>

theorem finished_run_is_final:
  assumes "storeSteps (memoryOps iterT iterS iterR) rid m m'"
    and "GetRun rid m = Some r" and "isTerminalRunStatus (run_Status r)"
  shows "GetRun rid m' = Some r"
  using assms
proof (induction rule: rtranclp_induct)
  case (step m' m'')
  then show ?case using memory_step_final by blast
qed simp

text \<open>
  An event log only grows: after any sequence of calls the earlier events are still there, unchanged and at the
  front.
\<close>

theorem event_log_append_only:
  assumes "memStep\<^sup>*\<^sup>* m m'"
  shows "\<exists>later. ListRunEvents rid m' = ListRunEvents rid m @ later"
  using assms
proof (induction rule: rtranclp_induct)
  case (step m' m'')
  then show ?case
    using step_log [OF step(2), of rid] by (auto simp: logStep_def)
qed simp

text \<open>
  A cancellation is accepted exactly for a run that is queued or running; once accepted it is visible to the
  executor, asking again succeeds and changes nothing, and no request changes a run.
\<close>

theorem RequestRunCancel_once:
  assumes "RequestRunCancel clock rid m = (ok, m')"
  shows "(ok \<longleftrightarrow> (\<exists>r. GetRun rid m = Some r \<and> (run_Status r = RunQueued \<or> run_Status r = RunRunning))) \<and>
    (ok \<longrightarrow> IsRunCancelRequested rid m' \<and> RequestRunCancel clock' rid m' = (True, m')) \<and>
    GetRun j m' = GetRun j m"
proof -
  have ok: "ok = fst (RequestRunCancel clock rid m)" and m': "m' = snd (RequestRunCancel clock rid m)"
    using assms by simp_all
  have "RequestRunCancel clock' rid m' = (True, m')" if acc: ok
  proof -
    obtain r where r: "GetRun rid m' = Some r" "isCancelableRunStatus (run_Status r)"
      using acc m' unfolding ok RequestRunCancel_result by auto
    have "isRunCancelRequestedLocked rid m'"
      using request_request [of rid clock rid m] acc ok m' by (simp add: IsRunCancelRequested_def)
    with r show ?thesis
      by (simp add: RequestRunCancel_def GetRun_def)
  qed
  then show ?thesis
    using ok m' by (auto simp: RequestRunCancel_result request_request isCancelableRunStatus_def)
qed

lemma find_numbered:
  assumes "map f vs = map (\<lambda>i. int i + k) [0..<length vs]"
  shows "find (\<lambda>v. f v = n) vs = (if k \<le> n \<and> n < k + int (length vs) then Some (vs ! nat (n - k)) else None)"
  using assms
proof (induction vs arbitrary: k)
  case (Cons v vs)
  have "f v = k" and "map f vs = map (\<lambda>i. int i + (k + 1)) [0..<length vs]"
    using Cons.prems by (simp_all add: map_upt_Suc del: upt_Suc)
  then show ?case
    using Cons.IH [of "k + 1"] by (auto simp: nth_Cons nat_diff_distrib' split: nat.split intro!: arg_cong [where f = "(!) vs"])
qed simp

text \<open>
  In a reachable state the version numbers of a stored scenario address its versions: number n returns the nth
  version saved, every other number is not found, and the current version number returns the current scenario.
\<close>

theorem GetScenarioVersion_correct:
  assumes "memReachable m" and "GetScenario sid m = Some r"
  shows "GetScenarioVersion sid n m =
      (if 1 \<le> n \<and> n \<le> int (length (ListScenarioVersions sid m)) then Some (ListScenarioVersions sid m ! nat (n - 1))
       else None) \<and>
    (\<exists>v. GetScenarioVersion sid (scr_CurrentVersionNumber r) m = Some v \<and> sv_Scenario v = scr_Scenario r)"
proof -
  let ?vs = "ListScenarioVersions sid m"
  have wf: "?vs \<noteq> []" "map sv_VersionNumber ?vs = map (\<lambda>i. int i + 1) [0..<length ?vs]"
    "sv_Scenario (last ?vs) = scr_Scenario r" "sv_VersionNumber (last ?vs) = scr_CurrentVersionNumber r"
    using reachable_invariants(3) [OF assms(1)] assms(2) by (auto simp: versionsWf_def Let_def)
  have get: "GetScenarioVersion sid n m =
      (if 1 \<le> n \<and> n \<le> int (length ?vs) then Some (?vs ! nat (n - 1)) else None)" for n
    using find_numbered [OF wf(2), of n] by (auto simp: GetScenarioVersion_def ListScenarioVersions_def)
  have "map sv_VersionNumber ?vs ! (length ?vs - 1) = int (length ?vs)"
    using wf(1) by (simp add: wf(2) of_nat_diff Suc_le_eq)
  then have "scr_CurrentVersionNumber r = int (length ?vs)"
    using wf(1,4) by (simp add: last_conv_nth)
  then have "GetScenarioVersion sid (scr_CurrentVersionNumber r) m = Some (last ?vs)"
    using wf(1) by (auto simp: get last_conv_nth Suc_le_eq nat_diff_distrib)
  with get wf(3) show ?thesis
    by blast
qed

section \<open>Concrete runs\<close>

definition sampleClock :: clock where "sampleClock i = 7 + int i"

definition sampleTarget :: TargetRecord where
  "sampleTarget = \<lparr>tgr_ID = '''', tgr_Name = ''shop'', tgr_BaseURL = ''http://shop.test'', tgr_Environment = TargetStaging,
     tgr_Description = '''', tgr_Headers = None, tgr_CreatedAt = 0, tgr_UpdatedAt = 0\<rparr>"

definition queuedState :: Memory where
  "queuedState = snd (CreateRun sampleClock '''' '''' checkoutRace [] NewMemory)"

definition erroredState :: Memory where
  "erroredState = ErrorRun sampleClock ''run_7'' ''boom'' queuedState"

definition scenarioState :: Memory where
  "scenarioState = snd (UpdateScenario sampleClock ''scn_7'' checkoutRace (snd (CreateScenario sampleClock checkoutRace NewMemory)))"

lemma queuedState_reachable: "memReachable queuedState"
  unfolding queuedState_def
  by (rule r_into_rtranclp) (rule createRun [where r = "fst (CreateRun sampleClock '''' '''' checkoutRace [] NewMemory)"], simp)

lemma erroredState_reachable: "memReachable erroredState"
  unfolding erroredState_def by (rule rtranclp.rtrancl_into_rtrancl [OF queuedState_reachable]) (rule errorRun)

lemma scenarioState_reachable: "memReachable scenarioState"
  unfolding scenarioState_def
  by (rule rtranclp.rtrancl_into_rtrancl, rule r_into_rtranclp, rule createScenario, rule updateScenario)

theorem memory_invariant_witness:
  "memReachable erroredState \<and> runsWf erroredState \<and> map ev_Sequence (ListRunEvents ''run_7'' erroredState) = [1, 2]"
proof -
  have "numbered (ListRunEvents ''run_7'' erroredState)"
    using memory_invariant [OF erroredState_reachable] by blast
  moreover have "length (ListRunEvents ''run_7'' erroredState) = 2"
    by code_simp
  ultimately show ?thesis
    using memory_invariant [OF erroredState_reachable] erroredState_reachable
    by (simp add: numbered_def numeral_2_eq_2)
qed

theorem finished_run_is_final_witness:
  "map_option run_Status (GetRun ''run_7'' erroredState) = Some RunErrored \<and>
   map_option run_Status (GetRun ''run_7'' (MarkRunStarted sampleClock ''run_7'' erroredState)) = Some RunErrored"
proof -
  have e: "map_option run_Status (GetRun ''run_7'' erroredState) = Some RunErrored"
    by code_simp
  then obtain r where r: "GetRun ''run_7'' erroredState = Some r" "run_Status r = RunErrored"
    by auto
  have "runWrite (memoryOps (\<lambda>x. x) (\<lambda>x. x) (\<lambda>x. x)) ''run_7'' erroredState (MarkRunStarted sampleClock ''run_7'' erroredState)"
    using runWrite.start [of "memoryOps (\<lambda>x. x) (\<lambda>x. x) (\<lambda>x. x)" "''run_7''" erroredState sampleClock] by simp
  then have "storeSteps (memoryOps (\<lambda>x. x) (\<lambda>x. x) (\<lambda>x. x)) ''run_7'' erroredState
      (MarkRunStarted sampleClock ''run_7'' erroredState)"
    by (intro r_into_rtranclp storeStep.lifecycle)
  from finished_run_is_final [OF this r(1)] r e show ?thesis
    by simp
qed

theorem event_log_append_only_witness:
  "length (ListRunEvents ''run_7'' queuedState) = 1 \<and>
   (\<exists>later. ListRunEvents ''run_7'' erroredState = ListRunEvents ''run_7'' queuedState @ later)"
proof -
  have "memStep\<^sup>*\<^sup>* queuedState erroredState"
    unfolding erroredState_def by (intro r_into_rtranclp errorRun)
  moreover have "length (ListRunEvents ''run_7'' queuedState) = 1"
    by code_simp
  ultimately show ?thesis
    using event_log_append_only by blast
qed

theorem RequestRunCancel_once_witness:
  "fst (RequestRunCancel sampleClock ''run_7'' queuedState) \<and>
   IsRunCancelRequested ''run_7'' (snd (RequestRunCancel sampleClock ''run_7'' queuedState))"
proof -
  have ok: "fst (RequestRunCancel sampleClock ''run_7'' queuedState)"
    by code_simp
  have "RequestRunCancel sampleClock ''run_7'' queuedState =
      (fst (RequestRunCancel sampleClock ''run_7'' queuedState), snd (RequestRunCancel sampleClock ''run_7'' queuedState))"
    by simp
  from RequestRunCancel_once [OF this] ok show ?thesis
    by blast
qed

theorem GetScenarioVersion_correct_witness:
  "scr_CurrentVersionNumber (the (GetScenario ''scn_7'' scenarioState)) = 2 \<and>
   (\<exists>v. GetScenarioVersion ''scn_7'' 2 scenarioState = Some v \<and> sv_Scenario v = checkoutRace)"
proof -
  have g: "map_option scr_CurrentVersionNumber (GetScenario ''scn_7'' scenarioState) = Some 2"
      "map_option scr_Scenario (GetScenario ''scn_7'' scenarioState) = Some checkoutRace"
    by code_simp+
  then obtain r where "GetScenario ''scn_7'' scenarioState = Some r" "scr_CurrentVersionNumber r = 2"
      "scr_Scenario r = checkoutRace"
    by auto
  moreover from GetScenarioVersion_correct [OF scenarioState_reachable this(1)] this(2,3)
  have "\<exists>v. GetScenarioVersion ''scn_7'' 2 scenarioState = Some v \<and> sv_Scenario v = checkoutRace"
    by metis
  ultimately show ?thesis
    by simp
qed

text \<open>
  The targets behave as a map: a created target is found under its new identifier, an update of an existing target
  keeps its identifier and creation time and is refused for an unknown one, a deleted target is gone, and no operation
  on one target affects another.
\<close>

theorem target_operations:
  "GetTarget j (snd (CreateTarget clock t m)) =
     (if j = tgr_ID (fst (CreateTarget clock t m)) then Some (fst (CreateTarget clock t m)) else GetTarget j m) \<and>
   fst (UpdateTarget clock i t m) =
     map_option (\<lambda>old. t\<lparr>tgr_ID := i, tgr_CreatedAt := tgr_CreatedAt old, tgr_UpdatedAt := clock 0,
       tgr_Headers := emptyIfNil (tgr_Headers t)\<rparr>) (GetTarget i m) \<and>
   GetTarget j (snd (UpdateTarget clock i t m)) = (if j = i then fst (UpdateTarget clock i t m) else GetTarget j m) \<and>
   fst (DeleteTarget i m) = (GetTarget i m \<noteq> None) \<and>
   GetTarget j (snd (DeleteTarget i m)) = (if j = i then None else GetTarget j m)"
  by (auto simp: GetTarget_def CreateTarget_def UpdateTarget_def DeleteTarget_def Let_def split: option.split)

end
