(* ===== verification/Blob.thy ===== *)
theory Blob
  imports Config
begin

text \<open>
  \<^verbatim>\<open>internal/blob\<close>: the artifact store interface (\<^verbatim>\<open>store.go\<close>), the in-memory store (\<^verbatim>\<open>memory.go\<close>) and the S3
  store (\<^verbatim>\<open>s3.go\<close>) over a parameter that stands for the client of the AWS library. Contexts only carry deadlines and
  are left out. The Go code copies the bytes in and out; values are immutable here.
\<close>

section \<open>The interface\<close>

record 'b BlobOps =
  bo_Put :: "string \<Rightarrow> string \<Rightarrow> string \<Rightarrow> 'b \<Rightarrow> string option \<times> 'b"
  bo_Get :: "string \<Rightarrow> 'b \<Rightarrow> string result"
  bo_Delete :: "string \<Rightarrow> 'b \<Rightarrow> string option \<times> 'b"

text \<open>What its clients rely on: a successful put is read back and touches no other key.\<close>

locale blob_store =
  fixes blob :: "'b BlobOps"
  assumes put_get: "bo_Put blob key data contentType b = (None, b') \<Longrightarrow>
      bo_Get blob k b' = (if k = key then Inr data else bo_Get blob k b)"
    and delete_get: "bo_Delete blob key b = (None, b') \<Longrightarrow>
      (if k = key then isl (bo_Get blob k b') else bo_Get blob k b' = bo_Get blob k b)"
begin

lemma last_put_wins:
  assumes "bo_Put blob key d1 t1 b = (None, b1)" and "bo_Put blob key d2 t2 b1 = (None, b2)"
  shows "bo_Get blob key b2 = Inr d2"
  using put_get [OF assms(2), of key] by simp

end

section \<open>The in-memory store\<close>

type_synonym BlobMemory = "string gomap"

definition NewMemoryStore :: BlobMemory where "NewMemoryStore = []"

definition memPut :: "string \<Rightarrow> string \<Rightarrow> string \<Rightarrow> BlobMemory \<Rightarrow> string option \<times> BlobMemory" where
  "memPut key data contentType b = (None, mapSet key data b)"

definition memGet :: "string \<Rightarrow> BlobMemory \<Rightarrow> string result" where
  "memGet key b = (case mapGet b key of None \<Rightarrow> Inl (''key not found: '' @ key) | Some data \<Rightarrow> Inr data)"

definition memDelete :: "string \<Rightarrow> BlobMemory \<Rightarrow> string option \<times> BlobMemory" where
  "memDelete key b = (None, mapDelete key b)"

definition blobMemoryOps :: "BlobMemory BlobOps" where
  "blobMemoryOps = \<lparr>bo_Put = memPut, bo_Get = memGet, bo_Delete = memDelete\<rparr>"

lemma blobMemoryOps_sel [simp]:
  "bo_Put blobMemoryOps = memPut" "bo_Get blobMemoryOps = memGet" "bo_Delete blobMemoryOps = memDelete"
  by (simp_all add: blobMemoryOps_def)

interpretation blobmem: blob_store blobMemoryOps
  by unfold_locales (auto simp: memPut_def memGet_def memDelete_def)

section \<open>The S3 store\<close>

text \<open>
  The calls of the AWS client the code makes: \<^verbatim>\<open>PutObject\<close> with bucket, key, body and content type, \<^verbatim>\<open>GetObject\<close>, which
  fails or returns a body whose reading fails or returns the bytes, and \<^verbatim>\<open>DeleteObject\<close>.
\<close>

record 'c S3Client =
  s3c_PutObject :: "string \<Rightarrow> string \<Rightarrow> string \<Rightarrow> string option \<Rightarrow> 'c \<Rightarrow> string option \<times> 'c"
  s3c_GetObject :: "string \<Rightarrow> string \<Rightarrow> 'c \<Rightarrow> string result result"
  s3c_DeleteObject :: "string \<Rightarrow> string \<Rightarrow> 'c \<Rightarrow> string option \<times> 'c"

definition s3Put :: "'c S3Client \<Rightarrow> string \<Rightarrow> string \<Rightarrow> string \<Rightarrow> string \<Rightarrow> 'c \<Rightarrow> string option \<times> 'c" where
  "s3Put client bucket key data contentType c =
     (case s3c_PutObject client bucket key data (if contentType \<noteq> '''' then Some contentType else None) c of
        (Some err, c') \<Rightarrow> (Some (''failed to put object to S3: '' @ err), c')
      | (None, c') \<Rightarrow> (None, c'))"

definition s3Get :: "'c S3Client \<Rightarrow> string \<Rightarrow> string \<Rightarrow> 'c \<Rightarrow> string result" where
  "s3Get client bucket key c =
     (case s3c_GetObject client bucket key c of
        Inl err \<Rightarrow> Inl (''failed to get object from S3: '' @ err)
      | Inr body \<Rightarrow>
          (case body of
             Inl err \<Rightarrow> Inl (''failed to read S3 object body: '' @ err)
           | Inr data \<Rightarrow> Inr data))"

definition s3Delete :: "'c S3Client \<Rightarrow> string \<Rightarrow> string \<Rightarrow> 'c \<Rightarrow> string option \<times> 'c" where
  "s3Delete client bucket key c =
     (case s3c_DeleteObject client bucket key c of
        (Some err, c') \<Rightarrow> (Some (''failed to delete object from S3: '' @ err), c')
      | (None, c') \<Rightarrow> (None, c'))"

text \<open>
  The options of \<^verbatim>\<open>NewS3Store\<close>: what it passes to the AWS library. \<open>connect\<close> stands for \<^verbatim>\<open>config.LoadDefaultConfig\<close>,
  the call that can fail, followed by \<^verbatim>\<open>s3.NewFromConfig\<close>; the result is the client and the bucket.
\<close>

record S3Options =
  s3o_Region :: "string option"
  s3o_Credentials :: "(string \<times> string) option"
  s3o_BaseEndpoint :: "string option"
  s3o_UsePathStyle :: bool

definition s3Options :: "S3Config \<Rightarrow> S3Options" where
  "s3Options cfg =
     \<lparr>s3o_Region = (if s3_Region cfg \<noteq> '''' then Some (s3_Region cfg) else None),
      s3o_Credentials = (if s3_AccessKeyID cfg \<noteq> '''' \<and> s3_SecretAccessKey cfg \<noteq> ''''
                         then Some (s3_AccessKeyID cfg, s3_SecretAccessKey cfg) else None),
      s3o_BaseEndpoint = (if s3_Endpoint cfg \<noteq> '''' then Some (s3_Endpoint cfg) else None),
      s3o_UsePathStyle = s3_ForcePathStyle cfg\<rparr>"

definition NewS3Store :: "(S3Options \<Rightarrow> 'c S3Client result) \<Rightarrow> S3Config \<Rightarrow> ('c S3Client \<times> string) result" where
  "NewS3Store connect cfg =
     (case connect (s3Options cfg) of
        Inl err \<Rightarrow> Inl (''unable to load SDK config: '' @ err)
      | Inr client \<Rightarrow> Inr (client, s3_Bucket cfg))"

definition s3Ops :: "'c S3Client \<Rightarrow> string \<Rightarrow> 'c BlobOps" where
  "s3Ops client bucket = \<lparr>bo_Put = s3Put client bucket, bo_Get = s3Get client bucket, bo_Delete = s3Delete client bucket\<rparr>"

text \<open>
  C40: the S3 store keeps the contract of the artifact store whenever the client does: if a successful \<^verbatim>\<open>PutObject\<close> is read
  back by \<^verbatim>\<open>GetObject\<close> and a successful \<^verbatim>\<open>DeleteObject\<close> removes its key, both without touching other objects,
  then what was put is what is read, and what was deleted is not found.
\<close>

theorem s3_store_contract:
  assumes "\<And>bucket key data ct c c' bucket' key'. s3c_PutObject client bucket key data ct c = (None, c') \<Longrightarrow>
      s3c_GetObject client bucket' key' c' =
        (if bucket' = bucket \<and> key' = key then Inr (Inr data) else s3c_GetObject client bucket' key' c)"
    and "\<And>bucket key c c' bucket' key'. s3c_DeleteObject client bucket key c = (None, c') \<Longrightarrow>
      (if bucket' = bucket \<and> key' = key then isl (s3c_GetObject client bucket' key' c')
       else s3c_GetObject client bucket' key' c' = s3c_GetObject client bucket' key' c)"
  shows "blob_store (s3Ops client bucket)"
proof
  fix key data contentType b b' k
  assume "bo_Put (s3Ops client bucket) key data contentType b = (None, b')"
  then have put: "s3c_PutObject client bucket key data (if contentType \<noteq> '''' then Some contentType else None) b = (None, b')"
    by (auto simp: s3Ops_def s3Put_def split: prod.splits option.splits)
  show "bo_Get (s3Ops client bucket) k b' = (if k = key then Inr data else bo_Get (s3Ops client bucket) k b)"
    using assms(1) [OF put, of bucket k] by (auto simp: s3Ops_def s3Get_def)
next
  fix key b b' k
  assume "bo_Delete (s3Ops client bucket) key b = (None, b')"
  then have del: "s3c_DeleteObject client bucket key b = (None, b')"
    by (auto simp: s3Ops_def s3Delete_def split: prod.splits option.splits)
  show "if k = key then isl (bo_Get (s3Ops client bucket) k b')
      else bo_Get (s3Ops client bucket) k b' = bo_Get (s3Ops client bucket) k b"
    using assms(2) [OF del, of bucket k] by (auto simp: s3Ops_def s3Get_def split: sum.splits)
qed

text \<open>A client that keeps its objects in a map from bucket and key.\<close>

definition mapClient :: "(string \<times> string \<Rightarrow> string option) S3Client" where
  "mapClient = \<lparr>s3c_PutObject = (\<lambda>bucket key data ct c. (None, c((bucket, key) \<mapsto> data))),
     s3c_GetObject = (\<lambda>bucket key c. case c (bucket, key) of None \<Rightarrow> Inl ''NoSuchKey'' | Some d \<Rightarrow> Inr (Inr d)),
     s3c_DeleteObject = (\<lambda>bucket key c. (None, c((bucket, key) := None)))\<rparr>"

theorem s3_store_contract_witness: "blob_store (s3Ops mapClient ''wreckr-artifacts'')"
  by (rule s3_store_contract) (auto simp: mapClient_def)

end
