(* ===== verification/RunExec.thy ===== *)
theory RunExec
  imports MemoryStore Blob
begin

text \<open>
  \<^verbatim>\<open>internal/runexec/executor.go\<close>: the execution of one run by a worker.

  The store and the artifact store are values of their interfaces, the runner is a value of \<^verbatim>\<open>runner.ScenarioRunner\<close>:
  its result is a parameter. While \<^verbatim>\<open>Execute\<close> runs, the runner appends events and other clients use the
  same store. \<open>gap i\<close> is what happens to the store between the calls \<open>i\<close> and \<open>i + 1\<close> that \<^verbatim>\<open>Execute\<close> makes, and
  the claims quantify over every such behaviour. The encoding of a report (\<^verbatim>\<open>Report.JSON\<close>, \<^verbatim>\<open>json.MarshalIndent\<close>) is a
  parameter too; the claims hold for every encoding.
\<close>

text \<open>What the monitor's select receives: the context is done, the run has stopped, or a tick with the store it sees.\<close>

datatype 's monitorEvent = CtxDone | StopMonitor | Tick 's

record ('s, 'b) Executor =
  ex_Store :: "'s StoreOps"
  ex_BlobStore :: "'b BlobOps option"
  ex_Runner :: "Scenario \<Rightarrow> string \<Rightarrow> Report result"
  ex_Timeout :: int
  ex_CancelCheckInterval :: int

text \<open>What happens outside the executor: the clock, the other clients, the ticks of the monitor.\<close>

record 's World =
  wo_Clock :: clock
  wo_Gap :: "nat \<Rightarrow> 's \<Rightarrow> 's"
  wo_Monitor :: "'s monitorEvent list"

definition executeTimeout :: "int \<Rightarrow> int" where
  "executeTimeout timeout = (if timeout \<le> 0 then 5 * Minute else timeout)"

definition monitorInterval :: "int \<Rightarrow> int" where
  "monitorInterval interval = (if interval \<le> 0 then 100 * Millisecond else interval)"

fun monitorCancellation :: "'s StoreOps \<Rightarrow> string \<Rightarrow> 's monitorEvent list \<Rightarrow> bool" where
  "monitorCancellation store runID [] = False"
| "monitorCancellation store runID (CtxDone # _) = False"
| "monitorCancellation store runID (StopMonitor # _) = False"
| "monitorCancellation store runID (Tick s # es) =
     (if so_IsRunCancelRequested store runID s then True else monitorCancellation store runID es)"

definition emptyReport :: Report where
  "emptyReport = \<lparr>rp_RunID = '''', rp_Scenario = '''', rp_ScenarioVersionID = '''', rp_ScenarioVersionNumber = 0,
     rp_Status = '''', rp_StartedAt = zeroTime, rp_FinishedAt = zeroTime, rp_DurationMS = 0, rp_Summary = zeroSummary,
     rp_Thresholds = [], rp_Invariants = [], rp_Failures = [], rp_Responses = []\<rparr>"

definition canceledReport :: "int \<Rightarrow> string \<Rightarrow> string \<Rightarrow> string \<Rightarrow> Report" where
  "canceledReport now runID scenarioName message =
     emptyReport\<lparr>rp_RunID := runID, rp_Scenario := scenarioName, rp_Status := StatusCanceled, rp_StartedAt := now,
       rp_FinishedAt := now, rp_Failures := (if message \<noteq> '''' then [message] else [])\<rparr>"

definition appendIfMissing :: "string list \<Rightarrow> string \<Rightarrow> string list" where
  "appendIfMissing vals v = (if list_ex (\<lambda>x. x = v) vals then vals else vals @ [v])"

definition reportKey :: "string \<Rightarrow> string" where
  "reportKey runID = ''runs/'' @ runID @ ''/report.json''"

definition uploadReport :: "(Report \<Rightarrow> string result) \<Rightarrow> 'b BlobOps option \<Rightarrow> string \<Rightarrow> Report \<Rightarrow> 'b \<Rightarrow> 'b" where
  "uploadReport encode blobStore runID rep b =
     (case blobStore of
        None \<Rightarrow> b
      | Some blob \<Rightarrow>
          (case encode rep of
             Inl _ \<Rightarrow> b
           | Inr raw \<Rightarrow> snd (bo_Put blob (reportKey runID) raw ''application/json'' b)))"

text \<open>The steps after the runner has returned.\<close>

definition finishExecute :: "(Report \<Rightarrow> string result) \<Rightarrow> ('s, 'b) Executor \<Rightarrow> 's World \<Rightarrow> string \<Rightarrow> RunRecord \<Rightarrow>
    Report result \<Rightarrow> 's \<times> 'b \<Rightarrow> string option \<times> 's \<times> 'b" where
  "finishExecute encode e w runID rec outcome sb =
     (let (s, b) = sb;
          store = ex_Store e
      in if monitorCancellation store runID (wo_Monitor w) \<or> so_IsRunCancelRequested store runID s then
           (let rep = (case outcome of
                         Inl err \<Rightarrow> canceledReport (wo_Clock w 0) runID (sc_Name (run_Scenario rec)) err
                       | Inr rep \<Rightarrow> rep);
                rep = rep\<lparr>rp_Failures := appendIfMissing (rp_Failures rep) ''run canceled by user''\<rparr>
            in (None, so_CancelRun store (wo_Clock w) runID rep (wo_Gap w 4 s), uploadReport encode (ex_BlobStore e) runID rep b))
         else (case outcome of
                 Inl err \<Rightarrow> (Some err, so_ErrorRun store (wo_Clock w) runID err (wo_Gap w 4 s), b)
               | Inr rep \<Rightarrow> (None, so_CompleteRun store (wo_Clock w) runID rep (wo_Gap w 4 s),
                             uploadReport encode (ex_BlobStore e) runID rep b)))"

definition Execute :: "(Report \<Rightarrow> string result) \<Rightarrow> ('s, 'b) Executor \<Rightarrow> 's World \<Rightarrow> string \<Rightarrow> 's \<times> 'b \<Rightarrow>
    string option \<times> 's \<times> 'b" where
  "Execute encode e w runID sb =
     (let (s0, b) = sb;
          store = ex_Store e
      in case so_GetRun store runID s0 of
           None \<Rightarrow> (Some (''run '' @ Quote runID @ '' not found''), s0, b)
         | Some rec \<Rightarrow>
             (if run_Status rec = RunQueued \<or> run_Status rec = RunRunning then
                (let s1 = wo_Gap w 0 s0
                 in if so_IsRunCancelRequested store runID s1 then
                      (let rep = canceledReport (wo_Clock w 0) runID (sc_Name (run_Scenario rec))
                                   ''run canceled before worker execution''
                       in (None, so_CancelRun store (wo_Clock w) runID rep (wo_Gap w 1 s1),
                           uploadReport encode (ex_BlobStore e) runID rep b))
                    else
                      (let s2 = wo_Gap w 1 s1;
                           s3 = (if run_Status rec = RunQueued then so_MarkRunStarted store (wo_Clock w) runID s2 else s2);
                           s4 = wo_Gap w 2 s3
                       in case so_GetRun store runID s4 of
                            None \<Rightarrow> (None, s4, b)
                          | Some started \<Rightarrow>
                              (if run_Status started \<noteq> RunRunning then (None, s4, b)
                               else finishExecute encode e w runID rec (ex_Runner e (run_Scenario rec) runID)
                                      (wo_Gap w 3 s4, b))))
              else if isTerminalRunStatus (run_Status rec) then (None, s0, b)
              else (Some (''run '' @ Quote runID @ '' cannot execute from status '' @ Quote (run_Status rec)), s0, b)))"

section \<open>What an execution leaves in the store\<close>

text \<open>The other clients of the store during an execution: any calls, or calls that only cancel the run.\<close>

definition anyClients :: "'s StoreOps \<Rightarrow> string \<Rightarrow> 's World \<Rightarrow> bool" where
  "anyClients ops runID w \<longleftrightarrow> (\<forall>i s. storeSteps ops runID s (wo_Gap w i s))"

definition apiClients :: "'s StoreOps \<Rightarrow> string \<Rightarrow> 's World \<Rightarrow> bool" where
  "apiClients ops runID w \<longleftrightarrow> (\<forall>i s. apiSteps ops runID s (wo_Gap w i s))"

lemma Execute_active:
  assumes "so_GetRun (ex_Store e) runID s = Some r" and "run_Status r = RunQueued \<or> run_Status r = RunRunning"
    and "s2 = wo_Gap w 1 (wo_Gap w 0 s)"
    and "s3 = (if run_Status r = RunQueued then so_MarkRunStarted (ex_Store e) (wo_Clock w) runID s2 else s2)"
  shows "Execute encode e w runID (s, b) =
    (if so_IsRunCancelRequested (ex_Store e) runID (wo_Gap w 0 s) then
       let rep = canceledReport (wo_Clock w 0) runID (sc_Name (run_Scenario r)) ''run canceled before worker execution''
       in (None, so_CancelRun (ex_Store e) (wo_Clock w) runID rep s2, uploadReport encode (ex_BlobStore e) runID rep b)
     else case so_GetRun (ex_Store e) runID (wo_Gap w 2 s3) of
            None \<Rightarrow> (None, wo_Gap w 2 s3, b)
          | Some started \<Rightarrow>
              if run_Status started \<noteq> RunRunning then (None, wo_Gap w 2 s3, b)
              else finishExecute encode e w runID r (ex_Runner e (run_Scenario r) runID) (wo_Gap w 3 (wo_Gap w 2 s3), b))"
  unfolding assms(3,4) Execute_def using assms(1,2) by (simp add: Let_def del: One_nat_def)

lemma Execute_finished:
  assumes "so_GetRun (ex_Store e) runID s = Some r" and "isTerminalRunStatus (run_Status r)"
  shows "Execute encode e w runID (s, b) = (None, s, b)"
proof -
  have "\<not> (run_Status r = RunQueued \<or> run_Status r = RunRunning)"
    using assms(2) by auto
  then show ?thesis
    using assms by (simp add: Execute_def)
qed

text \<open>
  When the other clients only ever cancel the run, its final status is the one the runner's result
  calls for, or canceled.
\<close>

definition outcomeStatus :: "Report result \<Rightarrow> string" where
  "outcomeStatus res = (case res of Inl _ \<Rightarrow> RunErrored | Inr rep \<Rightarrow> runStatusOf rep)"

context run_store
begin

lemma gap_get:
  assumes "anyClients ops runID w" and "so_GetRun ops runID s = Some r"
  shows "\<exists>r'. so_GetRun ops runID (wo_Gap w i s) = Some r' \<and>
    (run_Status r' = run_Status r \<or> run_Status r' = RunRunning \<or> isTerminalRunStatus (run_Status r'))"
  using steps_get(3) assms unfolding anyClients_def by metis

text \<open>The three ways an execution ends a run, after whatever the other clients did.\<close>

lemma gap_finish:
  assumes "anyClients ops runID w" and "so_GetRun ops runID s = Some r"
  shows "\<exists>r'. so_GetRun ops runID (so_CancelRun ops c runID rep (wo_Gap w i s)) = Some r' \<and> isTerminalRunStatus (run_Status r')"
    and "\<exists>r'. so_GetRun ops runID (so_CompleteRun ops c runID rep (wo_Gap w i s)) = Some r' \<and> isTerminalRunStatus (run_Status r')"
    and "\<exists>r'. so_GetRun ops runID (so_ErrorRun ops c runID err (wo_Gap w i s)) = Some r' \<and> isTerminalRunStatus (run_Status r')"
proof -
  obtain q where q: "so_GetRun ops runID (wo_Gap w i s) = Some q"
    using gap_get [OF assms] by blast
  have "run_Status q \<in> Collect isTerminalRunStatus \<or> \<not> isTerminalRunStatus (run_Status q)"
    by simp
  note fin = finish_run [OF q this]
  show "\<exists>r'. so_GetRun ops runID (so_CancelRun ops c runID rep (wo_Gap w i s)) = Some r' \<and> isTerminalRunStatus (run_Status r')"
    using fin(1) by fastforce
  show "\<exists>r'. so_GetRun ops runID (so_CompleteRun ops c runID rep (wo_Gap w i s)) = Some r' \<and> isTerminalRunStatus (run_Status r')"
    using fin(2) by fastforce
  show "\<exists>r'. so_GetRun ops runID (so_ErrorRun ops c runID err (wo_Gap w i s)) = Some r' \<and> isTerminalRunStatus (run_Status r')"
    using fin(3) by fastforce
qed

text \<open>After the run was marked as started it is running, or somebody finished it.\<close>

lemma start_phase:
  assumes "anyClients ops runID w" and "so_GetRun ops runID s = Some r"
    and "run_Status r = RunQueued \<or> run_Status r = RunRunning"
    and "s2 = wo_Gap w 1 (wo_Gap w 0 s)"
    and "s3 = (if run_Status r = RunQueued then so_MarkRunStarted ops (wo_Clock w) runID s2 else s2)"
  shows "\<exists>r4. so_GetRun ops runID (wo_Gap w 2 s3) = Some r4 \<and> (run_Status r4 = RunRunning \<or> isTerminalRunStatus (run_Status r4))"
proof -
  obtain r1 where r1: "so_GetRun ops runID (wo_Gap w 0 s) = Some r1"
      "run_Status r1 = run_Status r \<or> run_Status r1 = RunRunning \<or> isTerminalRunStatus (run_Status r1)"
    using gap_get [OF assms(1,2)] by blast
  obtain r2 where r2: "so_GetRun ops runID s2 = Some r2"
      "run_Status r2 = run_Status r1 \<or> run_Status r2 = RunRunning \<or> isTerminalRunStatus (run_Status r2)"
    using gap_get [OF assms(1) r1(1)] assms(4) by blast
  have "\<exists>r3. so_GetRun ops runID s3 = Some r3 \<and> (run_Status r3 = RunRunning \<or> isTerminalRunStatus (run_Status r3))"
  proof (cases "run_Status r = RunQueued")
    case True
    then show ?thesis
      using started [OF r2(1)] write_frozen [OF runWrite.start r2(1)] assms(5) by metis
  next
    case False
    then show ?thesis
      using assms(3,5) r1(2) r2 by auto
  qed
  then obtain r3 where "so_GetRun ops runID s3 = Some r3" "run_Status r3 = RunRunning \<or> isTerminalRunStatus (run_Status r3)"
    by blast
  with gap_get [OF assms(1) this(1), of 2] show ?thesis
    by auto
qed

lemma Execute_finishes:
  assumes "anyClients ops runID w" and "so_GetRun ops runID s = Some r" and "knownRunStatus (run_Status r)"
    and "ex_Store e = ops" and "Execute encode e w runID (s, b) = (err, s', b')"
  shows "\<exists>r'. so_GetRun ops runID s' = Some r' \<and> isTerminalRunStatus (run_Status r')"
proof (cases "isTerminalRunStatus (run_Status r)")
  case True
  then show ?thesis
    using assms(2,4,5) by (auto simp: Execute_finished)
next
  case False
  then have act: "run_Status r = RunQueued \<or> run_Status r = RunRunning"
    using assms(3) by (auto simp: knownRunStatus_def isCancelableRunStatus_def)
  define s2 where "s2 = wo_Gap w 1 (wo_Gap w 0 s)"
  define s3 where "s3 = (if run_Status r = RunQueued then so_MarkRunStarted ops (wo_Clock w) runID s2 else s2)"
  obtain r1 where r1: "so_GetRun ops runID (wo_Gap w 0 s) = Some r1"
    using gap_get [OF assms(1,2)] by blast
  obtain r4 where r4: "so_GetRun ops runID (wo_Gap w 2 s3) = Some r4"
      "run_Status r4 = RunRunning \<or> isTerminalRunStatus (run_Status r4)"
    using start_phase [OF assms(1,2) act s2_def s3_def] by blast
  obtain r5 where r5: "so_GetRun ops runID (wo_Gap w 3 (wo_Gap w 2 s3)) = Some r5"
    using gap_get [OF assms(1) r4(1)] by blast
  show ?thesis
    using assms(5) gap_finish [OF assms(1) r1, where i = 1, folded s2_def] gap_finish [OF assms(1) r5] r4
    unfolding Execute_active [of e, unfolded assms(4), OF assms(2) act s2_def s3_def] finishExecute_def
    by (auto simp: assms(4) Let_def split: if_splits sum.splits)
qed

lemma api_gap:
  assumes "apiClients ops runID w" and "so_GetRun ops runID s = Some r" and "run_Status r \<in> {st, RunCanceled}"
  shows "\<exists>r'. so_GetRun ops runID (wo_Gap w i s) = Some r' \<and> run_Status r' \<in> {st, RunCanceled}"
  using api_get [of runID s "wo_Gap w i s"] assms unfolding apiClients_def by fastforce

lemma api_finish:
  assumes "apiClients ops runID w" and "so_GetRun ops runID s = Some r"
    and "run_Status r \<in> {st, RunCanceled}" and "\<not> isTerminalRunStatus st"
  shows "\<exists>r'. so_GetRun ops runID (so_CancelRun ops c runID rep (wo_Gap w i s)) = Some r' \<and> run_Status r' = RunCanceled"
    and "\<exists>r'. so_GetRun ops runID (so_CompleteRun ops c runID rep (wo_Gap w i s)) = Some r' \<and>
      run_Status r' \<in> {runStatusOf rep, RunCanceled}"
    and "\<exists>r'. so_GetRun ops runID (so_ErrorRun ops c runID err (wo_Gap w i s)) = Some r' \<and>
      run_Status r' \<in> {RunErrored, RunCanceled}"
proof -
  obtain q where q: "so_GetRun ops runID (wo_Gap w i s) = Some q" "run_Status q \<in> {st, RunCanceled}"
    using api_gap [OF assms(1-3)] by blast
  have "run_Status q \<in> {RunCanceled} \<or> \<not> isTerminalRunStatus (run_Status q)"
    using q(2) assms(4) by auto
  note fin = finish_run [OF q(1) this]
  show "\<exists>r'. so_GetRun ops runID (so_CancelRun ops c runID rep (wo_Gap w i s)) = Some r' \<and> run_Status r' = RunCanceled"
    using fin(1) by simp
  show "\<exists>r'. so_GetRun ops runID (so_CompleteRun ops c runID rep (wo_Gap w i s)) = Some r' \<and>
      run_Status r' \<in> {runStatusOf rep, RunCanceled}"
    by (rule fin(2))
  show "\<exists>r'. so_GetRun ops runID (so_ErrorRun ops c runID err (wo_Gap w i s)) = Some r' \<and>
      run_Status r' \<in> {RunErrored, RunCanceled}"
    by (rule fin(3))
qed

lemma api_start_phase:
  assumes "apiClients ops runID w" and "so_GetRun ops runID s = Some r"
    and "run_Status r = RunQueued \<or> run_Status r = RunRunning"
    and "s2 = wo_Gap w 1 (wo_Gap w 0 s)"
    and "s3 = (if run_Status r = RunQueued then so_MarkRunStarted ops (wo_Clock w) runID s2 else s2)"
  shows "\<exists>r4. so_GetRun ops runID (wo_Gap w 2 s3) = Some r4 \<and> run_Status r4 \<in> {RunRunning, RunCanceled}"
proof -
  obtain r1 where "so_GetRun ops runID (wo_Gap w 0 s) = Some r1" "run_Status r1 \<in> {run_Status r, RunCanceled}"
    using api_gap [OF assms(1,2)] by blast
  from api_gap [OF assms(1) this] obtain r2 where
    r2: "so_GetRun ops runID s2 = Some r2" "run_Status r2 \<in> {run_Status r, RunCanceled}"
    unfolding assms(4) by blast
  have "\<exists>r3. so_GetRun ops runID s3 = Some r3 \<and> run_Status r3 \<in> {RunRunning, RunCanceled}"
  proof (cases "run_Status r = RunQueued \<and> \<not> isTerminalRunStatus (run_Status r2)")
    case True
    then show ?thesis
      using started [OF r2(1)] assms(5) by auto
  next
    case False
    then show ?thesis
      using r2 assms(3,5) write_frozen [OF runWrite.start r2(1)] by auto
  qed
  then show ?thesis
    using api_gap [OF assms(1)] by blast
qed

lemma Execute_outcome:
  assumes "apiClients ops runID w" and "so_GetRun ops runID s = Some r"
    and "run_Status r = RunQueued \<or> run_Status r = RunRunning"
    and "ex_Store e = ops" and "Execute encode e w runID (s, b) = (err, s', b')"
  shows "\<exists>r'. so_GetRun ops runID s' = Some r' \<and>
      run_Status r' \<in> {outcomeStatus (ex_Runner e (run_Scenario r) runID), RunCanceled}"
    and "so_IsRunCancelRequested ops runID s \<Longrightarrow> \<exists>r'. so_GetRun ops runID s' = Some r' \<and> run_Status r' = RunCanceled"
proof -
  define s2 where "s2 = wo_Gap w 1 (wo_Gap w 0 s)"
  define s3 where "s3 = (if run_Status r = RunQueued then so_MarkRunStarted ops (wo_Clock w) runID s2 else s2)"
  note exec = Execute_active [of e, unfolded assms(4), OF assms(2,3) s2_def s3_def]
  have nt: "\<not> isTerminalRunStatus (run_Status r)"
    using assms(3) by auto
  obtain r1 where r1: "so_GetRun ops runID (wo_Gap w 0 s) = Some r1" "run_Status r1 \<in> {run_Status r, RunCanceled}"
    using api_gap [OF assms(1,2)] by blast
  obtain r4 where r4: "so_GetRun ops runID (wo_Gap w 2 s3) = Some r4" "run_Status r4 \<in> {RunRunning, RunCanceled}"
    using api_start_phase [OF assms(1-3) s2_def s3_def] by blast
  obtain r5 where r5: "so_GetRun ops runID (wo_Gap w 3 (wo_Gap w 2 s3)) = Some r5" "run_Status r5 \<in> {RunRunning, RunCanceled}"
    using api_gap [OF assms(1) r4] by blast
  note fin1 = api_finish(1) [OF assms(1) r1 nt, where i = 1, folded s2_def]
  note fin5 = api_finish [OF assms(1) r5 status_disjoint(3)]
  show "\<exists>r'. so_GetRun ops runID s' = Some r' \<and>
      run_Status r' \<in> {outcomeStatus (ex_Runner e (run_Scenario r) runID), RunCanceled}"
    using assms(5) fin1 fin5 r4 unfolding exec finishExecute_def outcomeStatus_def
    by (auto simp: assms(4) Let_def split: if_splits sum.splits) blast+
  assume "so_IsRunCancelRequested ops runID s"
  moreover have "apiSteps ops runID s (wo_Gap w 0 s)"
    using assms(1) by (simp add: apiClients_def)
  ultimately have "so_IsRunCancelRequested ops runID (wo_Gap w 0 s)"
    using steps_get(2) [OF api_store] by blast
  then show "\<exists>r'. so_GetRun ops runID s' = Some r' \<and> run_Status r' = RunCanceled"
    using assms(5) fin1 unfolding exec by (auto simp: Let_def)
qed

end

section \<open>The executor on the memory store\<close>

text \<open>
  C3: an execution always ends the run. From every reachable state of the memory store that holds the run, with any
  result of the runner and whatever calls other clients make meanwhile, the run is finished when \<^verbatim>\<open>Execute\<close> returns.
\<close>

theorem Execute_ends_the_run:
  assumes "memReachable m" and "GetRun runID m = Some r"
    and "anyClients (memoryOps iterT iterS iterR) runID w" and "ex_Store e = memoryOps iterT iterS iterR"
  shows "\<exists>err m' b' r'. Execute encode e w runID (m, b) = (err, m', b') \<and> GetRun runID m' = Some r' \<and>
    isTerminalRunStatus (run_Status r')"
proof -
  obtain err m' b' where ex: "Execute encode e w runID (m, b) = (err, m', b')"
    by (cases "Execute encode e w runID (m, b)")
  have "knownRunStatus (run_Status r)"
    using reachable_invariants(1) [OF assms(1)] assms(2) by (auto simp: runsWf_def runWf_def)
  then show ?thesis
    using mem.Execute_finishes [OF assms(3) _ _ assms(4) ex] assms(2) ex by auto
qed


text \<open>
  C36: a delivery that is repeated does nothing. Once an execution has returned, executing the same run again returns
  without an error and changes neither the store nor the artifacts, so a retry after a failed attempt never runs the
  scenario again.
\<close>

theorem Execute_again_does_nothing:
  assumes "memReachable m" and "GetRun runID m = Some r"
    and "anyClients (memoryOps iterT iterS iterR) runID w" and "ex_Store e = memoryOps iterT iterS iterR"
    and "Execute encode e w runID (m, b) = (err, m', b')"
  shows "Execute encode e w' runID (m', b') = (None, m', b')"
proof -
  have "knownRunStatus (run_Status r)"
    using reachable_invariants(1) [OF assms(1)] assms(2) by (auto simp: runsWf_def runWf_def)
  then obtain r' where "GetRun runID m' = Some r'" "isTerminalRunStatus (run_Status r')"
    using mem.Execute_finishes [OF assms(3) _ _ assms(4,5)] assms(2) by auto
  then show ?thesis
    using Execute_finished [of e runID m' r'] by (simp add: assms(4))
qed

text \<open>
  C37: the artifact of a canceled run keeps the verdict of the runner. When a running run is canceled while the runner
  works and the runner still returns a report, the stored run is canceled and so is the report in its record, but the
  uploaded report, which the report endpoint serves first, has the status the runner gave it.
\<close>

theorem canceled_artifact_keeps_verdict:
  assumes "GetRun runID m = Some r" and "run_Status r = RunRunning" and "\<not> IsRunCancelRequested runID m"
    and "wo_Gap w = (\<lambda>i. if i = 3 then (\<lambda>s. snd (RequestRunCancel (wo_Clock w) runID s)) else (\<lambda>s. s))"
    and "ex_Store e = memoryOps iterT iterS iterR" and "ex_BlobStore e = Some blobMemoryOps"
    and "ex_Runner e (run_Scenario r) runID = Inr rep" and "\<And>x. encode x = Inr (text x)"
    and "Execute encode e w runID (m, b) = (err, m', b')"
  shows "(\<exists>failures. memGet (reportKey runID) b' = Inr (text (rep\<lparr>rp_Failures := failures\<rparr>))) \<and>
    (\<exists>r' stored. GetRun runID m' = Some r' \<and> run_Status r' = RunCanceled \<and> run_Report r' = Some stored \<and>
       rp_Status stored = StatusCanceled)"
proof -
  have "IsRunCancelRequested runID (snd (RequestRunCancel (wo_Clock w) runID m))"
    using assms(1,2) by (simp add: request_request RequestRunCancel_result)
  moreover have "GetRun runID (snd (RequestRunCancel (wo_Clock w) runID m)) = Some r"
    using assms(1) by simp
  ultimately have "Execute encode e w runID (m, b) =
      (let rep' = rep\<lparr>rp_Failures := appendIfMissing (rp_Failures rep) ''run canceled by user''\<rparr>
       in (None, CancelRun (wo_Clock w) runID rep' (snd (RequestRunCancel (wo_Clock w) runID m)),
           mapSet (reportKey runID) (text rep') b))"
    using assms(1-8)
    by (simp add: Execute_def finishExecute_def uploadReport_def memPut_def Let_def)
  then show ?thesis
    using assms(1,2,9)
    by (auto simp: Let_def memGet_def canceledRecord_def versionedReport_def)
qed

section \<open>Concrete executions\<close>

definition plainMemory :: "Memory StoreOps" where
  "plainMemory = memoryOps (\<lambda>x. x) (\<lambda>x. x) (\<lambda>x. x)"

definition passedReport :: Report where
  "passedReport = Build 9 ''run_7'' ''checkout race'' 8 [] [] []"

definition sampleExecutor :: "(Memory, BlobMemory) Executor" where
  "sampleExecutor = \<lparr>ex_Store = plainMemory, ex_BlobStore = Some blobMemoryOps, ex_Runner = (\<lambda>_ _. Inr passedReport),
     ex_Timeout = 0, ex_CancelCheckInterval = 0\<rparr>"

definition quietWorld :: "Memory World" where
  "quietWorld = \<lparr>wo_Clock = sampleClock, wo_Gap = (\<lambda>_ s. s), wo_Monitor = []\<rparr>"

definition cancelingWorld :: "Memory World" where
  "cancelingWorld = \<lparr>wo_Clock = sampleClock,
     wo_Gap = (\<lambda>i. if i = 3 then (\<lambda>s. snd (RequestRunCancel sampleClock ''run_7'' s)) else (\<lambda>s. s)), wo_Monitor = []\<rparr>"

definition statusText :: "Report \<Rightarrow> string result" where
  "statusText rep = Inr (rp_Status rep)"

lemma quietWorld_clients:
  "anyClients plainMemory rid quietWorld" "apiClients plainMemory rid quietWorld"
  by (simp_all add: anyClients_def apiClients_def quietWorld_def)

lemma sampleExecutor_store: "ex_Store sampleExecutor = memoryOps (\<lambda>x. x) (\<lambda>x. x) (\<lambda>x. x)"
  by (simp add: sampleExecutor_def plainMemory_def)

lemma sampleExecutor_sel:
  "ex_Runner sampleExecutor sc rid = Inr passedReport" "ex_BlobStore sampleExecutor = Some blobMemoryOps"
  by (simp_all add: sampleExecutor_def)

lemma cancelingWorld_gap:
  "wo_Gap cancelingWorld =
     (\<lambda>i. if i = 3 then (\<lambda>s. snd (RequestRunCancel (wo_Clock cancelingWorld) ''run_7'' s)) else (\<lambda>s. s))"
  unfolding cancelingWorld_def World.simps ..

lemma queuedRun:
  obtains r where "GetRun ''run_7'' queuedState = Some r" and "run_Status r = RunQueued" and "run_Scenario r = checkoutRace"
proof -
  have "map_option run_Status (GetRun ''run_7'' queuedState) = Some RunQueued"
    "map_option run_Scenario (GetRun ''run_7'' queuedState) = Some checkoutRace"
    by code_simp+
  then show thesis
    using that by auto
qed

lemmas quiet = quietWorld_clients [unfolded plainMemory_def]

theorem Execute_ends_the_run_witness:
  "\<exists>err m' b' r'. Execute statusText sampleExecutor quietWorld ''run_7'' (queuedState, NewMemoryStore) = (err, m', b') \<and>
     GetRun ''run_7'' m' = Some r' \<and> isTerminalRunStatus (run_Status r')"
  by (rule queuedRun) (rule Execute_ends_the_run [OF queuedState_reachable _ quiet(1) sampleExecutor_store])


theorem Execute_again_does_nothing_witness:
  "Execute statusText sampleExecutor quietWorld ''run_7''
     (snd (Execute statusText sampleExecutor quietWorld ''run_7'' (queuedState, NewMemoryStore))) =
   (None, snd (Execute statusText sampleExecutor quietWorld ''run_7'' (queuedState, NewMemoryStore)))"
proof -
  obtain r where r: "GetRun ''run_7'' queuedState = Some r"
    by (rule queuedRun)
  obtain err m' b' where ex: "Execute statusText sampleExecutor quietWorld ''run_7'' (queuedState, NewMemoryStore) = (err, m', b')"
    by (cases "Execute statusText sampleExecutor quietWorld ''run_7'' (queuedState, NewMemoryStore)")
  from Execute_again_does_nothing [OF queuedState_reachable r quiet(1) sampleExecutor_store ex] show ?thesis
    by (simp add: ex)
qed

definition runningState :: Memory where
  "runningState = MarkRunStarted sampleClock ''run_7'' queuedState"

theorem canceled_artifact_keeps_verdict_witness:
  "memGet (reportKey ''run_7'')
     (snd (snd (Execute statusText sampleExecutor cancelingWorld ''run_7'' (runningState, NewMemoryStore)))) = Inr StatusPassed"
proof -
  have g: "map_option run_Status (GetRun ''run_7'' runningState) = Some RunRunning"
    "\<not> IsRunCancelRequested ''run_7'' runningState"
    by code_simp+
  then obtain r where r: "GetRun ''run_7'' runningState = Some r" "run_Status r = RunRunning"
    by auto
  obtain err m' b' where ex: "Execute statusText sampleExecutor cancelingWorld ''run_7'' (runningState, NewMemoryStore) = (err, m', b')"
    by (cases "Execute statusText sampleExecutor cancelingWorld ''run_7'' (runningState, NewMemoryStore)")
  have "rp_Status passedReport = StatusPassed"
    by (simp add: passedReport_def Build_Status)
  with canceled_artifact_keeps_verdict
      [OF r g(2) cancelingWorld_gap sampleExecutor_store sampleExecutor_sel(2,1) statusText_def ex]
  show ?thesis
    by (auto simp: ex)
qed

end
