(* ===== verification/GoFmt.thy ===== *)
theory GoFmt
  imports GoJson "HOL-Library.List_Lexorder" "HOL-Library.Char_ord"
begin

text \<open>
  What the sources use of \<^verbatim>\<open>fmt\<close> beyond the verbs of the prelude: the verb \<^verbatim>\<open>%v\<close> on decoded JSON values and on slices of
  integers. A float64 is printed as \<^verbatim>\<open>%g\<close> with the fewest digits that read back as the same value; a map is
  printed with its keys sorted.
\<close>

section \<open>The shortest decimal\<close>

text \<open>The decimal point of a positive rational: \<open>10 powi (dp - 1) \<le> x < 10 powi dp\<close>.\<close>

definition decPoint :: "rat \<Rightarrow> int" where
  "decPoint x =
     (let (p, q) = quotient_of x; e = int (length (digits (nat p))) - int (length (digits (nat q)))
      in if x < 10 powi e then e else e + 1)"

text \<open>The decimals of \<open>nd\<close> digits next to \<open>x\<close> that read back as \<open>x\<close>, the nearer first.\<close>

definition shortestAt :: "rat \<Rightarrow> int \<Rightarrow> nat \<Rightarrow> nat option" where
  "shortestAt x dp nd =
     (let scale = 10 powi (int nd - dp);
          lo = \<lfloor>x * scale\<rfloor>; hi = \<lceil>x * scale\<rceil>;
          ok = (\<lambda>n. round64 (of_int n / scale) = x)
      in if ok lo \<and> (x * scale - of_int lo \<le> of_int hi - x * scale \<or> \<not> ok hi) then Some (nat lo)
         else if ok hi then Some (nat hi) else None)"

definition shortestDigits :: "rat \<Rightarrow> string \<times> int" where
  "shortestDigits x =
     (let dp = decPoint x
      in case find (\<lambda>nd. shortestAt x dp nd \<noteq> None) [1..<18] of
           None \<Rightarrow> ([], dp)
         | Some nd \<Rightarrow>
             (let ds = digits (the (shortestAt x dp nd))
              in (rev (dropWhile (\<lambda>c. c = CHR ''0'') (rev ds)), dp + int (length ds) - int nd)))"

section \<open>The verb for values\<close>

definition formatExp :: "string \<Rightarrow> int \<Rightarrow> string" where
  "formatExp ds ex =
     take 1 ds @ (if length ds > 1 then ''.'' @ drop 1 ds else '''') @ ''e'' @
     (if ex < 0 then ''-'' else ''+'') @ padZeros 2 (digits (nat \<bar>ex\<bar>))"

definition formatPlain :: "string \<Rightarrow> int \<Rightarrow> string" where
  "formatPlain ds dp =
     (if dp \<le> 0 then ''0.'' @ replicate (nat (- dp)) CHR ''0'' @ ds
      else if int (length ds) \<le> dp then ds @ replicate (nat dp - length ds) CHR ''0''
      else take (nat dp) ds @ ''.'' @ drop (nat dp) ds)"

definition FormatG :: "float64 \<Rightarrow> string" where
  "FormatG x =
     (if x = 0 then ''0''
      else let (ds, dp) = shortestDigits \<bar>x\<bar>
           in (if x < 0 then ''-'' else '''') @
              (if dp - 1 < -4 \<or> dp - 1 \<ge> 6 then formatExp ds (dp - 1) else formatPlain ds dp))"

definition formatBool :: "bool \<Rightarrow> string" where
  "formatBool b = (if b then ''true'' else ''false'')"

definition space :: string where "space = [CHR 32]"

fun formatValue :: "json \<Rightarrow> string" where
  "formatValue JNull = ''<nil>''"
| "formatValue (JBool b) = formatBool b"
| "formatValue (JNum x) = FormatG x"
| "formatValue (JStr s) = s"
| "formatValue (JArr vs) = ''['' @ Join (map formatValue vs) space @ '']''"
| "formatValue (JObj ms) =
     ''map['' @ Join (map (\<lambda>k. k @ '':'' @ (case map_of (rev (map (\<lambda>(k, v). (k, formatValue v)) ms)) k of None \<Rightarrow> '''' | Some t \<Rightarrow> t))
       (sort (remdups (map fst ms)))) space @ '']''"

definition formatInts :: "int list \<Rightarrow> string" where
  "formatInts is = ''['' @ Join (map Itoa is) space @ '']''"

end
