(* ===== verification/HttpApi.thy ===== *)
theory HttpApi
  imports Guardrails RunExec GoFmt
begin

text \<open>
  \<^verbatim>\<open>internal/httpapi/server.go\<close>: the HTTP server, one function per handler.

  A handler takes what it reads from its request (the path value and, where it has one, the decoded body, an error when
  \<^verbatim>\<open>readJSON\<close> fails) and returns the response and the new state. The state holds the store, the queue and the
  two maps of running cancellations. A payload is a value; its JSON text is not modelled.
\<close>

datatype payload =
    PError string
  | PHealth int
  | PText string
  | PTarget TargetRecord
  | PTargets "TargetRecord list"
  | PScenario ScenarioRecord
  | PScenarios "ScenarioRecord list"
  | PVersion ScenarioVersionRecord
  | PVersions "ScenarioVersionRecord list"
  | PRun RunRecord
  | PRuns "RunRecord list"
  | PReport Report
  | PRaw string
  | PEvents "Event list"
  | PCanceled string string
  | PEmpty

record Response =
  rs_Status :: int
  rs_Payload :: payload

definition writeJSON :: "int \<Rightarrow> payload \<Rightarrow> Response" where
  "writeJSON status p = \<lparr>rs_Status = status, rs_Payload = p\<rparr>"

definition writeError :: "int \<Rightarrow> string \<Rightarrow> Response" where
  "writeError status err = writeJSON status (PError err)"

text \<open>The server: its configuration and the values of the interfaces it holds; and its state.\<close>

record ('s, 'b, 'q) Server =
  srv_cfg :: Config
  srv_env :: "string \<Rightarrow> string"
  srv_store :: "'s StoreOps"
  srv_blobStore :: "'b BlobOps option"
  srv_queue :: "(string \<Rightarrow> 'q \<Rightarrow> string option \<times> 'q) option"

record ('s, 'b, 'q) ServerState =
  ss_store :: 's
  ss_blob :: 'b
  ss_queue :: 'q
  ss_runCancels :: "unit gomap"
  ss_cancelRequests :: "unit gomap"

section \<open>Health and metrics\<close>

definition health :: "int \<Rightarrow> Response" where
  "health now = writeJSON 200 (PHealth now)"

fun countRuns :: "int \<times> int \<times> int \<times> int \<times> int \<Rightarrow> RunRecord list \<Rightarrow> int \<times> int \<times> int \<times> int \<times> int" where
  "countRuns acc [] = acc"
| "countRuns (active, passed, failed, errored, canceled) (r # rs) =
     countRuns
       (if run_Status r = RunRunning \<or> run_Status r = RunQueued then (active + 1, passed, failed, errored, canceled)
        else if run_Status r = RunPassed then (active, passed + 1, failed, errored, canceled)
        else if run_Status r = RunFailed then (active, passed, failed + 1, errored, canceled)
        else if run_Status r = RunErrored then (active, passed, failed, errored + 1, canceled)
        else if run_Status r = RunCanceled then (active, passed, failed, errored, canceled + 1)
        else (active, passed, failed, errored, canceled)) rs"

definition metricLine :: "string \<Rightarrow> int \<Rightarrow> string" where
  "metricLine name n = name @ space @ Itoa n @ newline"

definition metrics :: "('s, 'b, 'q) Server \<Rightarrow> ('s, 'b, 'q) ServerState \<Rightarrow> Response" where
  "metrics srv st =
     (let runs = so_ListRuns (srv_store srv) (ss_store st);
          (active, passed, failed, errored, canceled) = countRuns (0, 0, 0, 0, 0) runs
      in writeJSON 200 (PText (metricLine ''wreckr_api_up'' 1 @ metricLine ''wreckr_runs_total'' (int (length runs)) @
           metricLine ''wreckr_runs_active'' active @ metricLine ''wreckr_runs_passed_total'' passed @
           metricLine ''wreckr_runs_failed_total'' failed @ metricLine ''wreckr_runs_errored_total'' errored @
           metricLine ''wreckr_runs_canceled_total'' canceled)))"

section \<open>Targets\<close>

record targetRequest =
  tq_Name :: string
  tq_BaseURL :: string
  tq_Environment :: string
  tq_Description :: string
  tq_Headers :: headers

definition validateTargetRecord :: "TargetRecord \<Rightarrow> Guardrails \<Rightarrow> string option" where
  "validateTargetRecord target cfg =
     (let problems =
        (if tgr_Name target = '''' then [''name is required''] else []) @
        (if tgr_Environment target \<in> {TargetLocal, TargetDevelopment, TargetStaging, TargetProduction} then []
         else [''environment must be one of local, development, staging, production'']) @
        (case ValidateTargetBaseURL (tgr_BaseURL target) cfg of None \<Rightarrow> [] | Some e \<Rightarrow> [violationText e]) @
        (if list_ex (\<lambda>(k, _). TrimSpace k = '''') (case tgr_Headers target of None \<Rightarrow> [] | Some h \<Rightarrow> h)
         then [''header names must not be empty''] else [])
      in if problems \<noteq> [] then Some (Join problems ''; '') else None)"

definition readTargetRequest :: "('s, 'b, 'q) Server \<Rightarrow> targetRequest result \<Rightarrow> Response + TargetRecord" where
  "readTargetRequest srv body =
     (case body of
        Inl err \<Rightarrow> Inl (writeError 400 err)
      | Inr req \<Rightarrow>
          (let target = \<lparr>tgr_ID = '''', tgr_Name = TrimSpace (tq_Name req), tgr_BaseURL = TrimSpace (tq_BaseURL req),
                         tgr_Environment = (if tq_Environment req = '''' then TargetDevelopment else tq_Environment req),
                         tgr_Description = TrimSpace (tq_Description req), tgr_Headers = tq_Headers req,
                         tgr_CreatedAt = zeroTime, tgr_UpdatedAt = zeroTime\<rparr>
           in case validateTargetRecord target (cf_Guardrails (srv_cfg srv)) of
                Some err \<Rightarrow> Inl (writeError 400 err)
              | None \<Rightarrow> Inr target))"

definition notFound :: "string \<Rightarrow> string \<Rightarrow> Response" where
  "notFound what name = writeError 404 (what @ space @ Quote name @ '' not found'')"

definition createTarget :: "('s, 'b, 'q) Server \<Rightarrow> clock \<Rightarrow> targetRequest result \<Rightarrow> ('s, 'b, 'q) ServerState \<Rightarrow>
    Response \<times> ('s, 'b, 'q) ServerState" where
  "createTarget srv clock body st =
     (case readTargetRequest srv body of
        Inl resp \<Rightarrow> (resp, st)
      | Inr target \<Rightarrow>
          (let (rec, s') = so_CreateTarget (srv_store srv) clock target (ss_store st)
           in (writeJSON 201 (PTarget rec), st\<lparr>ss_store := s'\<rparr>)))"

definition listTargets :: "('s, 'b, 'q) Server \<Rightarrow> ('s, 'b, 'q) ServerState \<Rightarrow> Response" where
  "listTargets srv st = writeJSON 200 (PTargets (so_ListTargets (srv_store srv) (ss_store st)))"

definition getTarget :: "('s, 'b, 'q) Server \<Rightarrow> string \<Rightarrow> ('s, 'b, 'q) ServerState \<Rightarrow> Response" where
  "getTarget srv tid st =
     (case so_GetTarget (srv_store srv) tid (ss_store st) of
        None \<Rightarrow> notFound ''target'' tid
      | Some rec \<Rightarrow> writeJSON 200 (PTarget rec))"

definition updateTarget :: "('s, 'b, 'q) Server \<Rightarrow> clock \<Rightarrow> string \<Rightarrow> targetRequest result \<Rightarrow> ('s, 'b, 'q) ServerState \<Rightarrow>
    Response \<times> ('s, 'b, 'q) ServerState" where
  "updateTarget srv clock tid body st =
     (case readTargetRequest srv body of
        Inl resp \<Rightarrow> (resp, st)
      | Inr target \<Rightarrow>
          (case so_UpdateTarget (srv_store srv) clock tid target (ss_store st) of
             (None, s') \<Rightarrow> (notFound ''target'' tid, st\<lparr>ss_store := s'\<rparr>)
           | (Some rec, s') \<Rightarrow> (writeJSON 200 (PTarget rec), st\<lparr>ss_store := s'\<rparr>)))"

definition deleteTarget :: "('s, 'b, 'q) Server \<Rightarrow> string \<Rightarrow> ('s, 'b, 'q) ServerState \<Rightarrow> Response \<times> ('s, 'b, 'q) ServerState" where
  "deleteTarget srv tid st =
     (case so_DeleteTarget (srv_store srv) tid (ss_store st) of
        (False, s') \<Rightarrow> (notFound ''target'' tid, st\<lparr>ss_store := s'\<rparr>)
      | (True, s') \<Rightarrow> (writeJSON 204 PEmpty, st\<lparr>ss_store := s'\<rparr>))"

section \<open>Scenarios\<close>

text \<open>The loops over the two header maps write distinct keys, so their order does not matter.\<close>

definition mergeHeaders :: "headers \<Rightarrow> headers \<Rightarrow> headers" where
  "mergeHeaders targetHeaders scenarioHeaders =
     (let th = (case targetHeaders of None \<Rightarrow> [] | Some h \<Rightarrow> h); sh = (case scenarioHeaders of None \<Rightarrow> [] | Some h \<Rightarrow> h)
      in if length th = 0 \<and> length sh = 0 then Some []
         else Some (fold (\<lambda>(k, v). mapSet k v) sh (fold (\<lambda>(k, v). mapSet k v) th [])))"

definition resolveScenarioTarget :: "('s, 'b, 'q) Server \<Rightarrow> ('s, 'b, 'q) ServerState \<Rightarrow> Scenario \<Rightarrow> string \<Rightarrow> (Scenario \<times> string) result" where
  "resolveScenarioTarget srv st sc explicitTargetID =
     (let targetID = TrimSpace explicitTargetID;
          targetID = (if targetID = '''' then TrimSpace (tg_ID (sc_Target sc)) else targetID)
      in if targetID = '''' then Inr (sc, '''')
         else case so_GetTarget (srv_store srv) targetID (ss_store st) of
                None \<Rightarrow> Inl (''target '' @ Quote targetID @ '' not found'')
              | Some target \<Rightarrow>
                  Inr (sc\<lparr>sc_Target := \<lparr>tg_ID = tgr_ID target, tg_BaseURL = tgr_BaseURL target,
                          tg_Headers = mergeHeaders (tgr_Headers target) (tg_Headers (sc_Target sc))\<rparr>\<rparr>, tgr_ID target))"

text \<open>The steps createScenario, updateScenario and createRun share: resolve the target, expand, default, validate.\<close>

definition prepareScenario :: "('s, 'b, 'q) Server \<Rightarrow> ('s, 'b, 'q) ServerState \<Rightarrow> Scenario \<Rightarrow> string \<Rightarrow> (Scenario \<times> string) result" where
  "prepareScenario srv st sc targetID =
     (case resolveScenarioTarget srv st sc targetID of
        Inl err \<Rightarrow> Inl err
      | Inr (sc1, tid) \<Rightarrow>
          (let sc2 = Normalized (WithEnv (srv_env srv) sc1)
           in case Validate sc2 of
                Some err \<Rightarrow> Inl err
              | None \<Rightarrow>
                  (case GuardrailsValidate sc2 (cf_Guardrails (srv_cfg srv)) of
                     Some e \<Rightarrow> Inl (violationText e)
                   | None \<Rightarrow> Inr (sc2, tid))))"

definition createScenario :: "('s, 'b, 'q) Server \<Rightarrow> clock \<Rightarrow> Scenario result \<Rightarrow> ('s, 'b, 'q) ServerState \<Rightarrow>
    Response \<times> ('s, 'b, 'q) ServerState" where
  "createScenario srv clock body st =
     (case body of
        Inl err \<Rightarrow> (writeError 400 err, st)
      | Inr sc \<Rightarrow>
          (case prepareScenario srv st sc '''' of
             Inl err \<Rightarrow> (writeError 400 err, st)
           | Inr (sc', _) \<Rightarrow>
               (let (rec, s') = so_CreateScenario (srv_store srv) clock sc' (ss_store st)
                in (writeJSON 201 (PScenario rec), st\<lparr>ss_store := s'\<rparr>))))"

definition listScenarios :: "('s, 'b, 'q) Server \<Rightarrow> ('s, 'b, 'q) ServerState \<Rightarrow> Response" where
  "listScenarios srv st = writeJSON 200 (PScenarios (so_ListScenarios (srv_store srv) (ss_store st)))"

definition getScenario :: "('s, 'b, 'q) Server \<Rightarrow> string \<Rightarrow> ('s, 'b, 'q) ServerState \<Rightarrow> Response" where
  "getScenario srv sid st =
     (case so_GetScenario (srv_store srv) sid (ss_store st) of
        None \<Rightarrow> notFound ''scenario'' sid
      | Some rec \<Rightarrow> writeJSON 200 (PScenario rec))"

definition listScenarioVersions :: "('s, 'b, 'q) Server \<Rightarrow> string \<Rightarrow> ('s, 'b, 'q) ServerState \<Rightarrow> Response" where
  "listScenarioVersions srv sid st =
     (let versions = so_ListScenarioVersions (srv_store srv) sid (ss_store st)
      in if length versions = 0 then notFound ''scenario'' sid else writeJSON 200 (PVersions versions))"

definition versionNotFound :: "string \<Rightarrow> int \<Rightarrow> Response" where
  "versionNotFound sid n = writeError 404 (''scenario '' @ Quote sid @ '' version '' @ Itoa n @ '' not found'')"

definition getScenarioVersion :: "('s, 'b, 'q) Server \<Rightarrow> string \<Rightarrow> string \<Rightarrow> ('s, 'b, 'q) ServerState \<Rightarrow> Response" where
  "getScenarioVersion srv sid version st =
     (case Atoi version of
        None \<Rightarrow> writeError 400 ''scenario version must be a positive integer''
      | Some n \<Rightarrow>
          (if n < 1 then writeError 400 ''scenario version must be a positive integer''
           else case so_GetScenarioVersion (srv_store srv) sid n (ss_store st) of
                  None \<Rightarrow> versionNotFound sid n
                | Some v \<Rightarrow> writeJSON 200 (PVersion v)))"

definition updateScenario :: "('s, 'b, 'q) Server \<Rightarrow> clock \<Rightarrow> string \<Rightarrow> Scenario result \<Rightarrow> ('s, 'b, 'q) ServerState \<Rightarrow>
    Response \<times> ('s, 'b, 'q) ServerState" where
  "updateScenario srv clock sid body st =
     (if sid = '''' then (notFound ''scenario'' sid, st)
      else case body of
             Inl err \<Rightarrow> (writeError 400 err, st)
           | Inr sc \<Rightarrow>
               (case prepareScenario srv st sc '''' of
                  Inl err \<Rightarrow> (writeError 400 err, st)
                | Inr (sc', _) \<Rightarrow>
                    (case so_UpdateScenario (srv_store srv) clock sid sc' (ss_store st) of
                       (None, s') \<Rightarrow> (notFound ''scenario'' sid, st\<lparr>ss_store := s'\<rparr>)
                     | (Some rec, s') \<Rightarrow> (writeJSON 200 (PScenario rec), st\<lparr>ss_store := s'\<rparr>))))"

section \<open>Cancellation bookkeeping\<close>

definition registerRunCancel :: "string \<Rightarrow> ('s, 'b, 'q) ServerState \<Rightarrow> ('s, 'b, 'q) ServerState" where
  "registerRunCancel rid st = st\<lparr>ss_runCancels := mapSet rid () (ss_runCancels st)\<rparr>"

definition requestRunCancel :: "string \<Rightarrow> ('s, 'b, 'q) ServerState \<Rightarrow> bool \<times> ('s, 'b, 'q) ServerState" where
  "requestRunCancel rid st =
     (case mapGet (ss_runCancels st) rid of
        None \<Rightarrow> (False, st)
      | Some _ \<Rightarrow> (True, st\<lparr>ss_cancelRequests := mapSet rid () (ss_cancelRequests st)\<rparr>))"

definition finishRunCancel :: "string \<Rightarrow> ('s, 'b, 'q) ServerState \<Rightarrow> bool \<times> ('s, 'b, 'q) ServerState" where
  "finishRunCancel rid st =
     (mapGet (ss_cancelRequests st) rid \<noteq> None,
      st\<lparr>ss_cancelRequests := mapDelete rid (ss_cancelRequests st), ss_runCancels := mapDelete rid (ss_runCancels st)\<rparr>)"

definition serverCanceledReport :: "int \<Rightarrow> string \<Rightarrow> string \<Rightarrow> string \<Rightarrow> Report" where
  "serverCanceledReport now rid scenarioName message =
     emptyReport\<lparr>rp_RunID := rid, rp_Scenario := scenarioName, rp_Status := StatusCanceled, rp_StartedAt := now,
       rp_FinishedAt := now, rp_Failures := [message]\<rparr>"

definition reportFromRunError :: "int \<Rightarrow> string \<Rightarrow> string \<Rightarrow> string \<Rightarrow> Report" where
  "reportFromRunError now rid scenarioName err = serverCanceledReport now rid scenarioName err"

section \<open>Runs\<close>

definition effectiveRunTimeout :: "Config \<Rightarrow> int" where
  "effectiveRunTimeout cfg =
     (if gr_MaxRunDuration (cf_Guardrails cfg) > 0 \<and> gr_MaxRunDuration (cf_Guardrails cfg) < cf_RunTimeout cfg
      then gr_MaxRunDuration (cf_Guardrails cfg) else cf_RunTimeout cfg)"

definition applyRunGuardrails :: "Config \<Rightarrow> Scenario \<Rightarrow> Scenario" where
  "applyRunGuardrails cfg sc =
     (if gr_MaxRequestRate (cf_Guardrails cfg) > 0 \<and> tr_RatePerSecond (sc_Traffic sc) = 0
      then sc\<lparr>sc_Traffic := (sc_Traffic sc)\<lparr>tr_RatePerSecond := gr_MaxRequestRate (cf_Guardrails cfg)\<rparr>\<rparr>
      else sc)"

text \<open>
  The execution of a run inside the server. \<open>gap\<close> is what other requests and the runner's events do to the state between
  its calls, \<open>outcome\<close> the result of the runner.
\<close>

definition executeRun :: "('s, 'b, 'q) Server \<Rightarrow> clock \<Rightarrow> (nat \<Rightarrow> ('s, 'b, 'q) ServerState \<Rightarrow> ('s, 'b, 'q) ServerState) \<Rightarrow>
    Report result \<Rightarrow> string \<Rightarrow> Scenario \<Rightarrow> ('s, 'b, 'q) ServerState \<Rightarrow> ('s, 'b, 'q) ServerState" where
  "executeRun srv clock gap outcome rid sc st0 =
     (let store = srv_store srv;
          st1 = gap 0 (registerRunCancel rid st0);
          st2 = gap 1 (st1\<lparr>ss_store := so_MarkRunStarted store clock rid (ss_store st1)\<rparr>)
      in if (case so_GetRun store rid (ss_store st2) of None \<Rightarrow> True | Some r \<Rightarrow> run_Status r \<noteq> RunRunning)
         then snd (finishRunCancel rid st2)
         else let (canceled, st3) = finishRunCancel rid (gap 2 st2);
                  st4 = gap 3 st3
              in if canceled then
                   (let rep = (case outcome of
                                 Inl err \<Rightarrow> reportFromRunError (clock 0) rid (sc_Name sc) err
                               | Inr rep \<Rightarrow> rep);
                        rep = rep\<lparr>rp_Failures := rp_Failures rep @ [''run canceled by user'']\<rparr>
                    in st4\<lparr>ss_store := so_CancelRun store clock rid rep (ss_store st4)\<rparr>)
                 else case outcome of
                        Inl err \<Rightarrow> st4\<lparr>ss_store := so_ErrorRun store clock rid err (ss_store st4)\<rparr>
                      | Inr rep \<Rightarrow> st4\<lparr>ss_store := so_CompleteRun store clock rid rep (ss_store st4)\<rparr>)"

record createRunRequest =
  cr_ScenarioID :: string
  cr_TargetID :: string
  cr_ScenarioVersionNumber :: int
  cr_Scenario :: "Scenario option"
  cr_Sync :: bool

text \<open>The scenario a run request names, and the version it refers to.\<close>

definition requestedScenario :: "('s, 'b, 'q) Server \<Rightarrow> ('s, 'b, 'q) ServerState \<Rightarrow> createRunRequest \<Rightarrow>
    Response + Scenario \<times> ScenarioVersionRecord list" where
  "requestedScenario srv st req =
     (let scenarioID = TrimSpace (cr_ScenarioID req)
      in case cr_Scenario req of
           Some sc \<Rightarrow> Inr (sc, [])
         | None \<Rightarrow>
             (if scenarioID \<noteq> '''' then
                (if cr_ScenarioVersionNumber req > 0 then
                   (case so_GetScenarioVersion (srv_store srv) scenarioID (cr_ScenarioVersionNumber req) (ss_store st) of
                      None \<Rightarrow> Inl (versionNotFound scenarioID (cr_ScenarioVersionNumber req))
                    | Some v \<Rightarrow> Inr (sv_Scenario v, [v]))
                 else
                   (case so_GetScenario (srv_store srv) scenarioID (ss_store st) of
                      None \<Rightarrow> Inl (notFound ''scenario'' scenarioID)
                    | Some rec \<Rightarrow> Inr (scr_Scenario rec, [])))
              else Inl (writeError 400 ''scenario_id or scenario is required'')))"

text \<open>
  Creating a run. The result names the run whose execution is left to do in this process: a synchronous request executes it
  before it answers (\<open>sync\<close> is \<^verbatim>\<open>executeRun\<close> with its environment), an asynchronous one starts a goroutine.
\<close>

definition createRun :: "('s, 'b, 'q) Server \<Rightarrow> clock \<Rightarrow> (string \<Rightarrow> Scenario \<Rightarrow> ('s, 'b, 'q) ServerState \<Rightarrow> ('s, 'b, 'q) ServerState) \<Rightarrow>
    createRunRequest result \<Rightarrow> ('s, 'b, 'q) ServerState \<Rightarrow> Response \<times> (string \<times> Scenario) option \<times> ('s, 'b, 'q) ServerState" where
  "createRun srv clock sync body st =
     (case body of
        Inl err \<Rightarrow> (writeError 400 err, None, st)
      | Inr req \<Rightarrow>
          (case requestedScenario srv st req of
             Inl resp \<Rightarrow> (resp, None, st)
           | Inr (sc0, versionRef) \<Rightarrow>
               (case prepareScenario srv st sc0 (TrimSpace (cr_TargetID req)) of
                  Inl err \<Rightarrow> (writeError 400 err, None, st)
                | Inr (sc1, targetID) \<Rightarrow>
                    (let sc = applyRunGuardrails (srv_cfg srv) sc1;
                         (rec, s1) = so_CreateRun (srv_store srv) clock (TrimSpace (cr_ScenarioID req)) targetID sc versionRef (ss_store st);
                         st1 = st\<lparr>ss_store := s1\<rparr>
                     in case srv_queue srv of
                          Some enqueue \<Rightarrow>
                            (case enqueue (run_ID rec) (ss_queue st1) of
                               (Some err, q) \<Rightarrow>
                                 (let msg = ''enqueue run: '' @ err
                                  in (writeError 503 msg, None,
                                      st1\<lparr>ss_queue := q, ss_store := so_ErrorRun (srv_store srv) (clock \<circ> Suc \<circ> Suc) (run_ID rec) msg s1\<rparr>))
                             | (None, q) \<Rightarrow> (writeJSON 202 (PRun rec), None, st1\<lparr>ss_queue := q\<rparr>))
                        | None \<Rightarrow>
                            (if cr_Sync req then
                               (let st2 = sync (run_ID rec) sc st1
                                in (writeJSON 201 (PRun (case so_GetRun (srv_store srv) (run_ID rec) (ss_store st2) of
                                                           None \<Rightarrow> zeroRun | Some r \<Rightarrow> r)), None, st2))
                             else (writeJSON 202 (PRun rec), Some (run_ID rec, sc), st1))))))"

definition listRuns :: "('s, 'b, 'q) Server \<Rightarrow> ('s, 'b, 'q) ServerState \<Rightarrow> Response" where
  "listRuns srv st = writeJSON 200 (PRuns (so_ListRuns (srv_store srv) (ss_store st)))"

definition getRun :: "('s, 'b, 'q) Server \<Rightarrow> string \<Rightarrow> ('s, 'b, 'q) ServerState \<Rightarrow> Response" where
  "getRun srv urlPath st =
     (let path = TrimPrefix urlPath ''/v1/runs/'';
          rid = TrimSuffix path ''/report''
      in case so_GetRun (srv_store srv) rid (ss_store st) of
           None \<Rightarrow> notFound ''run'' rid
         | Some rec \<Rightarrow>
             (if HasSuffix path ''/report'' then
                (case (case srv_blobStore srv of
                         None \<Rightarrow> None
                       | Some blob \<Rightarrow> (case bo_Get blob (reportKey rid) (ss_blob st) of Inl _ \<Rightarrow> None | Inr data \<Rightarrow> Some data)) of
                   Some data \<Rightarrow> writeJSON 200 (PRaw data)
                 | None \<Rightarrow>
                     (case run_Report rec of
                        None \<Rightarrow> writeError 409 ''report is not ready''
                      | Some rep \<Rightarrow> writeJSON 200 (PReport rep)))
              else writeJSON 200 (PRun rec)))"

definition cancelRun :: "('s, 'b, 'q) Server \<Rightarrow> clock \<Rightarrow> string \<Rightarrow> ('s, 'b, 'q) ServerState \<Rightarrow> Response \<times> ('s, 'b, 'q) ServerState" where
  "cancelRun srv clock rid st =
     (case so_GetRun (srv_store srv) rid (ss_store st) of
        None \<Rightarrow> (notFound ''run'' rid, st)
      | Some rec \<Rightarrow>
          (if \<not> isCancelableRunStatus (run_Status rec)
           then (writeError 409 (''run '' @ Quote rid @ '' cannot be canceled from status '' @ Quote (run_Status rec)), st)
           else case so_RequestRunCancel (srv_store srv) clock rid (ss_store st) of
                  (False, s1) \<Rightarrow> (writeError 409 (''run '' @ Quote rid @ '' is not currently cancellable''), st\<lparr>ss_store := s1\<rparr>)
                | (True, s1) \<Rightarrow>
                    (case requestRunCancel rid (st\<lparr>ss_store := s1\<rparr>) of
                       (found, st2) \<Rightarrow>
                         (writeJSON 202 (PCanceled rid RunCanceled),
                          if \<not> found \<and> run_Status rec = RunQueued
                          then st2\<lparr>ss_store := so_CancelRun (srv_store srv) (clock \<circ> Suc) rid
                                     (serverCanceledReport (clock 1) rid (sc_Name (run_Scenario rec)) ''run canceled before worker execution'')
                                     (ss_store st2)\<rparr>
                          else st2))))"

section \<open>Events of a run\<close>

definition getRunEvents :: "('s, 'b, 'q) Server \<Rightarrow> string \<Rightarrow> ('s, 'b, 'q) ServerState \<Rightarrow> Response" where
  "getRunEvents srv rid st =
     (case so_GetRun (srv_store srv) rid (ss_store st) of
        None \<Rightarrow> notFound ''run'' rid
      | Some _ \<Rightarrow> writeJSON 200 (PEvents (so_ListRunEvents (srv_store srv) rid (ss_store st))))"

definition hasTerminalEvent :: "Event list \<Rightarrow> bool" where
  "hasTerminalEvent events \<longleftrightarrow> list_ex (\<lambda>e. ev_Type e \<in> {TypeRunCompleted, TypeRunFailed, TypeRunCanceled}) events"

text \<open>\<^verbatim>\<open>strconv.ParseInt\<close> in base 10 reads what \<^verbatim>\<open>strconv.Atoi\<close> reads.\<close>

definition lastEventSequence :: "string \<Rightarrow> string \<Rightarrow> int" where
  "lastEventSequence lastEventID after =
     (case Atoi (if lastEventID = '''' then after else lastEventID) of
        None \<Rightarrow> 0
      | Some sequence \<Rightarrow> if sequence < 0 then 0 else sequence)"

text \<open>
  One server-sent event. The JSON text of the event is the parameter \<open>marshal\<close>; \<open>send\<close> is the connection, which
  accepts a line or fails. The result is what was sent and the error, if any.
\<close>

fun sendLines :: "(string \<Rightarrow> string option) \<Rightarrow> string list \<Rightarrow> string \<times> string option" where
  "sendLines send [] = ('''', None)"
| "sendLines send (l # ls) =
     (case send l of
        Some err \<Rightarrow> ('''', Some err)
      | None \<Rightarrow> (let (out, err) = sendLines send ls in (l @ out, err)))"

definition writeSSEEvent :: "(Event \<Rightarrow> string result) \<Rightarrow> (string \<Rightarrow> string option) \<Rightarrow> Event \<Rightarrow> string \<times> string option" where
  "writeSSEEvent marshal send event =
     (case marshal event of
        Inl err \<Rightarrow> ('''', Some err)
      | Inr raw \<Rightarrow>
          sendLines send [''id: '' @ Itoa (ev_Sequence event) @ newline, ''event: '' @ ev_Type event @ newline,
            ''data: '' @ raw @ newline @ newline])"

text \<open>
  The inner loop of the stream, with \<open>sent e\<close> when writing the event \<open>e\<close> succeeds: the events it writes, and the last
  sequence number unless a write failed.
\<close>

fun streamEvents :: "(Event \<Rightarrow> bool) \<Rightarrow> int \<Rightarrow> Event list \<Rightarrow> Event list \<times> int option" where
  "streamEvents sent lastSequence [] = ([], Some lastSequence)"
| "streamEvents sent lastSequence (e # es) =
     (if ev_Sequence e \<le> lastSequence then streamEvents sent lastSequence es
      else if \<not> sent e then ([], None)
      else let (out, l) = streamEvents sent (ev_Sequence e) es in (e # out, l))"

text \<open>
  The outer loop of \<^verbatim>\<open>streamRunEvents\<close>. A round reads the log in one state of the store and the run in a later one. It ends
  when a write fails and when the run is gone or finished or the log holds a terminal event. The list of rounds ends where
  the client goes away: the flag tells whether the server ended the stream.
\<close>

fun streamLoop :: "'s StoreOps \<Rightarrow> (Event \<Rightarrow> bool) \<Rightarrow> string \<Rightarrow> int \<Rightarrow> ('s \<times> 's) list \<Rightarrow> Event list \<times> bool" where
  "streamLoop store sent rid lastSequence [] = ([], False)"
| "streamLoop store sent rid lastSequence ((s1, s2) # polls) =
     (let events = so_ListRunEvents store rid s1
      in case streamEvents sent lastSequence events of
           (out, None) \<Rightarrow> (out, True)
         | (out, Some lastSequence') \<Rightarrow>
             (if (case so_GetRun store rid s2 of None \<Rightarrow> True | Some rec \<Rightarrow> isTerminalRunStatus (run_Status rec)) \<or>
                 hasTerminalEvent events
              then (out, True)
              else let (out', ended) = streamLoop store sent rid lastSequence' polls in (out @ out', ended)))"

definition streamRunEvents :: "('s, 'b, 'q) Server \<Rightarrow> bool \<Rightarrow> (Event \<Rightarrow> string result) \<Rightarrow> (string \<Rightarrow> string option) \<Rightarrow>
    string \<Rightarrow> string \<Rightarrow> string \<Rightarrow> ('s \<times> 's) list \<Rightarrow> ('s, 'b, 'q) ServerState \<Rightarrow> Response + Event list \<times> bool" where
  "streamRunEvents srv flusher marshal send rid lastEventID after polls st =
     (case so_GetRun (srv_store srv) rid (ss_store st) of
        None \<Rightarrow> Inl (notFound ''run'' rid)
      | Some _ \<Rightarrow>
          (if \<not> flusher then Inl (writeError 500 ''streaming is not supported'')
           else Inr (streamLoop (srv_store srv) (\<lambda>e. snd (writeSSEEvent marshal send e) = None) rid
                  (lastEventSequence lastEventID after) polls)))"

section \<open>Only guarded scenarios are stored\<close>

definition guarded :: "Config \<Rightarrow> Scenario \<Rightarrow> bool" where
  "guarded cfg sc \<longleftrightarrow> Validate sc = None \<and> GuardrailsValidate sc (cf_Guardrails cfg) = None"

lemma prepareScenario_guarded: "prepareScenario srv st sc tid = Inr (sc', tid') \<Longrightarrow> guarded (srv_cfg srv) sc'"
  by (auto simp: prepareScenario_def guarded_def Let_def split: sum.splits prod.splits option.splits)

text \<open>The rate the server fills in keeps a scenario valid and within the guardrails.\<close>

lemma applyRunGuardrails_guarded:
  assumes "guarded cfg sc"
  shows "guarded cfg (applyRunGuardrails cfg sc)"
proof (cases "gr_MaxRequestRate (cf_Guardrails cfg) > 0 \<and> tr_RatePerSecond (sc_Traffic sc) = 0")
  case True
  let ?sc = "sc\<lparr>sc_Traffic := (sc_Traffic sc)\<lparr>tr_RatePerSecond := gr_MaxRequestRate (cf_Guardrails cfg)\<rparr>\<rparr>"
  have "scenarioProblems ?sc = []"
    using assms True by (simp add: guarded_def Validate_None_iff scenarioProblems_def trafficProblems_def)
  moreover have "GuardrailsValidate ?sc (cf_Guardrails cfg) = None"
    using assms True
    by (simp add: guarded_def GuardrailsValidate_ok withinLimits_def targetsPermitted_def sentPaths_def allRequests_def probes_def)
  ultimately show ?thesis
    using True by (simp add: guarded_def applyRunGuardrails_def Validate_None_iff)
qed (auto simp: assms applyRunGuardrails_def)

text \<open>
  The steps of a server on the memory store: its handlers, with the execution of a synchronous run as separate steps, and the
  calls that executions and workers make to the store.
\<close>

inductive serverStep :: "(Memory, 'b, 'q) Server \<Rightarrow> (Memory, 'b, 'q) ServerState \<Rightarrow> (Memory, 'b, 'q) ServerState \<Rightarrow> bool" for srv where
  createTarget: "serverStep srv st (snd (createTarget srv clock body st))"
| updateTarget: "serverStep srv st (snd (updateTarget srv clock tid tbody st))"
| deleteTarget: "serverStep srv st (snd (deleteTarget srv tid st))"
| createScenario: "serverStep srv st (snd (createScenario srv clock sbody st))"
| updateScenario: "serverStep srv st (snd (updateScenario srv clock sid sbody st))"
| createRun: "serverStep srv st (snd (snd (createRun srv clock (\<lambda>_ _ st. st) rbody st)))"
| cancelRun: "serverStep srv st (snd (cancelRun srv clock rid st))"
| execution: "runWrite (srv_store srv) rid (ss_store st) s' \<Longrightarrow> serverStep srv st (st\<lparr>ss_store := s'\<rparr>)"
| event: "serverStep srv st (st\<lparr>ss_store := snd (so_AppendRunEvent (srv_store srv) clock rid event (ss_store st))\<rparr>)"
| bookkeeping: "ss_store st' = ss_store st \<Longrightarrow> serverStep srv st st'"

definition guardedStore :: "Config \<Rightarrow> Memory \<Rightarrow> bool" where
  "guardedStore cfg m \<longleftrightarrow>
     (\<forall>rid r. GetRun rid m = Some r \<longrightarrow> guarded cfg (run_Scenario r)) \<and>
     (\<forall>sid r. GetScenario sid m = Some r \<longrightarrow> guarded cfg (scr_Scenario r))"

lemma run_Scenario_records [simp]:
  "run_Scenario (startedRecord now r) = run_Scenario r" "run_Scenario (completedRecord now rep r) = run_Scenario r"
  "run_Scenario (canceledRecord now rep r) = run_Scenario r" "run_Scenario (erroredRecord now err r) = run_Scenario r"
  by (simp_all add: record_defs)

lemma guardedStore_lifecycle:
  "guardedStore cfg m \<Longrightarrow> guardedStore cfg (MarkRunStarted c i m)"
  "guardedStore cfg m \<Longrightarrow> guardedStore cfg (CompleteRun c i rep m)"
  "guardedStore cfg m \<Longrightarrow> guardedStore cfg (CancelRun c i rep m)"
  "guardedStore cfg m \<Longrightarrow> guardedStore cfg (ErrorRun c i err m)"
  by (auto simp: guardedStore_def frame_scenarios)

lemma guardedStore_frame:
  "guardedStore cfg m \<Longrightarrow> guardedStore cfg (snd (AppendRunEvent c i e m))"
  "guardedStore cfg m \<Longrightarrow> guardedStore cfg (snd (RequestRunCancel c i m))"
  "guardedStore cfg m \<Longrightarrow> guardedStore cfg (snd (CreateTarget c t m))"
  "guardedStore cfg m \<Longrightarrow> guardedStore cfg (snd (UpdateTarget c i t m))"
  "guardedStore cfg m \<Longrightarrow> guardedStore cfg (snd (DeleteTarget i m))"
  by (simp_all add: guardedStore_def frame_scenarios)

lemma guardedStore_scenarios:
  "guardedStore cfg m \<Longrightarrow> guarded cfg sc \<Longrightarrow> guardedStore cfg (snd (CreateScenario c sc m))"
  "guardedStore cfg m \<Longrightarrow> guarded cfg sc \<Longrightarrow> guardedStore cfg (snd (UpdateScenario c i sc m))"
  by (auto simp: guardedStore_def CreateScenario_def UpdateScenario_def GetScenario_def GetRun_def Let_def split: option.splits)

lemma guardedStore_run:
  assumes "guardedStore cfg m" and "guarded cfg sc" and "CreateRun c sid tid sc ref m = (r, m')"
  shows "guardedStore cfg m'"
  using assms CreateRun_record(2,7) [OF assms(3)] frame_scenarios(10) [OF assms(3)] by (auto simp: guardedStore_def)

lemmas guardedStore_intros = guardedStore_lifecycle guardedStore_frame guardedStore_scenarios

lemma runWrite_guarded:
  assumes "runWrite (memoryOps a b c) rid m m'" and "guardedStore cfg m"
  shows "guardedStore cfg m'"
  using assms by (cases rule: runWrite.cases) (auto intro: guardedStore_intros)

lemma handlers_guarded:
  assumes "srv_store srv = memoryOps a b c" and "guardedStore (srv_cfg srv) (ss_store st)"
  shows "guardedStore (srv_cfg srv) (ss_store (snd (createTarget srv clock tb st)))"
    and "guardedStore (srv_cfg srv) (ss_store (snd (updateTarget srv clock i tb st)))"
    and "guardedStore (srv_cfg srv) (ss_store (snd (deleteTarget srv i st)))"
    and "guardedStore (srv_cfg srv) (ss_store (snd (createScenario srv clock sb st)))"
    and "guardedStore (srv_cfg srv) (ss_store (snd (updateScenario srv clock i sb st)))"
    and "guardedStore (srv_cfg srv) (ss_store (snd (cancelRun srv clock i st)))"
proof -
  note fr = guardedStore_intros [OF assms(2)]
  note pr = prepareScenario_guarded [of srv]
  show "guardedStore (srv_cfg srv) (ss_store (snd (createTarget srv clock tb st)))"
    using fr(7) by (simp add: createTarget_def assms case_prod_beta split: sum.split)
  show "guardedStore (srv_cfg srv) (ss_store (snd (updateTarget srv clock i tb st)))"
    using fr(8) [of clock i] assms
    by (auto simp: updateTarget_def split: sum.split option.split prod.split) (metis snd_conv)+
  show "guardedStore (srv_cfg srv) (ss_store (snd (deleteTarget srv i st)))"
    using fr(9) [of i] assms by (auto simp: deleteTarget_def split: prod.split bool.split)
  show "guardedStore (srv_cfg srv) (ss_store (snd (createScenario srv clock sb st)))"
    using fr(10) pr by (auto simp: createScenario_def assms case_prod_beta split: sum.split)
  show "guardedStore (srv_cfg srv) (ss_store (snd (updateScenario srv clock i sb st)))"
    using fr(11) [of _ clock i] pr assms
    by (auto simp: updateScenario_def split: sum.split option.split prod.split) (metis snd_conv)+
  have "guardedStore (srv_cfg srv) s1" if "RequestRunCancel clock i (ss_store st) = (ok, s1)" for ok s1
    using fr(6) [of clock i] that by simp
  then show "guardedStore (srv_cfg srv) (ss_store (snd (cancelRun srv clock i st)))"
    using assms
    by (auto simp: cancelRun_def requestRunCancel_def intro: guardedStore_intros split: option.split prod.split bool.split)
qed

lemma createRun_guarded:
  assumes "srv_store srv = memoryOps a b c" and "guardedStore (srv_cfg srv) (ss_store st)"
  shows "guardedStore (srv_cfg srv) (ss_store (snd (snd (createRun srv clock (\<lambda>_ _ st. st) rb st))))"
proof -
  have run: "guardedStore (srv_cfg srv) m'"
    if "prepareScenario srv st sc0 t = Inr (sc1, tid)"
      "CreateRun clock i tid (applyRunGuardrails (srv_cfg srv) sc1) ref (ss_store st) = (r, m')" for sc0 t sc1 tid i ref r m'
    using guardedStore_run [OF assms(2) applyRunGuardrails_guarded that(2)] prepareScenario_guarded [OF that(1)] by blast
  show ?thesis
    using assms run
    by (auto simp: createRun_def Let_def intro: guardedStore_intros split: sum.split prod.split option.split)
qed

lemma step_guarded:
  assumes "serverStep srv st st'" and "srv_store srv = memoryOps a b c" and "guardedStore (srv_cfg srv) (ss_store st)"
  shows "guardedStore (srv_cfg srv) (ss_store st')"
  using assms(1)
proof (cases rule: serverStep.cases)
  case (execution rid s')
  then show ?thesis
    using runWrite_guarded assms(2,3) by fastforce
next
  case (event clock rid event)
  then show ?thesis
    using assms(2,3) by (auto intro: guardedStore_intros)
qed (use handlers_guarded [OF assms(2,3)] createRun_guarded [OF assms(2,3)] assms(3) in auto)

definition emptyState :: "'b \<Rightarrow> 'q \<Rightarrow> (Memory, 'b, 'q) ServerState" where
  "emptyState blob queue = \<lparr>ss_store = NewMemory, ss_blob = blob, ss_queue = queue, ss_runCancels = [], ss_cancelRequests = []\<rparr>"

lemma reachable_guarded:
  assumes "(serverStep srv)\<^sup>*\<^sup>* (emptyState blob queue) st" and "srv_store srv = memoryOps a b c"
  shows "guardedStore (srv_cfg srv) (ss_store st)"
  using assms(1)
proof (induction rule: rtranclp_induct)
  case base
  show ?case
    by (simp add: guardedStore_def emptyState_def NewMemory_def GetRun_def GetScenario_def)
next
  case (step st st')
  then show ?case
    using step_guarded assms(2) by blast
qed


section \<open>A concrete server\<close>

definition sampleServer :: "(Memory, BlobMemory, unit) Server" where
  "sampleServer = \<lparr>srv_cfg = FromEnv (\<lambda>_. ''''), srv_env = (\<lambda>_. ''''), srv_store = plainMemory, srv_blobStore = None, srv_queue = None\<rparr>"

definition sampleState :: "Memory \<Rightarrow> (Memory, BlobMemory, unit) ServerState" where
  "sampleState m = \<lparr>ss_store = m, ss_blob = NewMemoryStore, ss_queue = (), ss_runCancels = [], ss_cancelRequests = []\<rparr>"

lemma sampleServer_store: "srv_store sampleServer = memoryOps (\<lambda>x. x) (\<lambda>x. x) (\<lambda>x. x)"
  by (simp add: sampleServer_def plainMemory_def)

definition sampleBody :: createRunRequest where
  "sampleBody = \<lparr>cr_ScenarioID = '''', cr_TargetID = '''', cr_ScenarioVersionNumber = 0, cr_Scenario = Some checkoutRace, cr_Sync = False\<rparr>"


end
