(* ===== verification/HttpEvents.thy ===== *)
theory HttpEvents
  imports HttpApi "HOL-Library.Sublist"
begin

text \<open>
  The stream of a run's events (\<^verbatim>\<open>streamRunEvents\<close> in \<^verbatim>\<open>internal/httpapi/server.go\<close>) on the memory store: what a client
  receives while other clients keep changing the store.
\<close>

section \<open>One round\<close>

text \<open>On a log numbered from \<open>k\<close> a round writes what comes after the last sequence number and remembers the end.\<close>

lemma streamEvents_from:
  assumes "map ev_Sequence es = map (\<lambda>i. int i + k) [0..<length es]" and "k - 1 \<le> l" and "list_all sent es"
  shows "streamEvents sent l es = (drop (nat (l - k + 1)) es, Some (max l (k - 1 + int (length es))))"
  using assms
proof (induction es arbitrary: k l)
  case (Cons e es)
  have e: "ev_Sequence e = k" and es: "map ev_Sequence es = map (\<lambda>i. int i + (k + 1)) [0..<length es]"
    using Cons.prems(1) by (simp_all add: map_upt_Suc del: upt_Suc)
  show ?case
  proof (cases "k \<le> l")
    case True
    have "nat (l - k + 1) = Suc (nat (l - (k + 1) + 1))"
      using True by linarith
    then show ?thesis
      using True e Cons.prems(3) Cons.IH [OF es, of l] by simp
  next
    case False
    then have "nat (l - k + 1) = 0"
      by simp
    moreover have "streamEvents sent k es = (es, Some (k + int (length es)))"
      using Cons.IH [OF es, of k] Cons.prems(3) by simp
    ultimately show ?thesis
      using False e Cons.prems(2,3) by simp
  qed
qed simp

lemma streamEvents_numbered:
  assumes "numbered es" and "0 \<le> l" and "list_all sent es"
  shows "streamEvents sent l es = (drop (nat l) es, Some (max l (int (length es))))"
  using streamEvents_from [of es 1 l sent] assms by (simp add: numbered_def add.commute)

text \<open>Where a write fails, the client has received a part of that, from the front.\<close>

lemma streamEvents_prefix:
  "prefix (fst (streamEvents sent l es)) (fst (streamEvents (\<lambda>_. True) l es)) \<and>
   (snd (streamEvents sent l es) \<noteq> None \<longrightarrow> streamEvents sent l es = streamEvents (\<lambda>_. True) l es)"
  by (induction es arbitrary: l) (auto simp: case_prod_beta)

lemma streamEvents_total: "\<exists>out l'. streamEvents (\<lambda>_. True) l es = (out, Some l')"
  by (induction es arbitrary: l) (auto simp: case_prod_beta, metis fst_conv snd_conv)

lemma hasTerminalEvent_append: "hasTerminalEvent (xs @ ys) \<longleftrightarrow> hasTerminalEvent xs \<or> hasTerminalEvent ys"
  by (simp add: hasTerminalEvent_def)

lemma hasTerminalEvent_drop: "hasTerminalEvent (drop n xs) \<Longrightarrow> hasTerminalEvent xs"
  by (auto simp: hasTerminalEvent_def list_ex_iff dest: in_set_dropD)

section \<open>The rounds of a stream\<close>

text \<open>The states a stream sees: each comes after the one before, by any calls to the store.\<close>

fun pollChain :: "Memory \<Rightarrow> (Memory \<times> Memory) list \<Rightarrow> bool" where
  "pollChain m [] \<longleftrightarrow> True"
| "pollChain m ((s1, s2) # polls) \<longleftrightarrow> memStep\<^sup>*\<^sup>* m s1 \<and> memStep\<^sup>*\<^sup>* s1 s2 \<and> pollChain s2 polls"

definition runOver :: "string \<Rightarrow> Memory \<Rightarrow> bool" where
  "runOver rid m \<longleftrightarrow> (case GetRun rid m of None \<Rightarrow> True | Some r \<Rightarrow> isTerminalRunStatus (run_Status r))"

lemma log_prefix: "memStep\<^sup>*\<^sup>* m m' \<Longrightarrow> prefix (ListRunEvents rid m) (ListRunEvents rid m')"
proof (induction rule: rtranclp_induct)
  case (step m' m'')
  have "prefix (ListRunEvents rid m') (ListRunEvents rid m'')"
    using step_log [OF step(2), of rid] by (auto simp: logStep_def)
  then show ?case
    using step.IH prefix_order.trans by blast
qed simp

lemma drop_prefix_append:
  assumes "prefix xs ys" and "n \<le> length xs"
  shows "drop n xs @ drop (length xs) ys = drop n ys"
  using assms by (auto elim!: prefixE)

lemma pollChain_steps:
  assumes "pollChain m polls" and "k < length polls"
  shows "memStep\<^sup>*\<^sup>* m (fst (polls ! k))"
  using assms
proof (induction polls arbitrary: m k)
  case (Cons q polls)
  then show ?case
    by (cases q; cases k) (auto intro: rtranclp_trans)
qed simp

lemma stream_round:
  assumes "numbered (ListRunEvents rid s1)" and "0 \<le> l"
  shows "streamLoop (memoryOps a b c) (\<lambda>_. True) rid l ((s1, s2) # polls) =
    (let log = ListRunEvents rid s1
     in if runOver rid s2 \<or> hasTerminalEvent log then (drop (nat l) log, True)
        else let (out, ended) = streamLoop (memoryOps a b c) (\<lambda>_. True) rid (max l (int (length log))) polls
             in (drop (nat l) log @ out, ended))"
  using streamEvents_numbered [OF assms, of "\<lambda>_. True"] by (simp add: runOver_def Let_def list_all_iff)

text \<open>What a stream has sent: the log as one round found it, the last round unless the stream has ended.\<close>

definition streamedLog :: "string \<Rightarrow> int \<Rightarrow> (Memory \<times> Memory) list \<Rightarrow> Event list \<times> bool \<Rightarrow> nat \<Rightarrow> bool" where
  "streamedLog rid l polls res k \<longleftrightarrow>
     k < length polls \<and> fst res = drop (nat l) (ListRunEvents rid (fst (polls ! k))) \<and>
     (if snd res then runOver rid (snd (polls ! k)) \<or> hasTerminalEvent (ListRunEvents rid (fst (polls ! k)))
      else Suc k = length polls \<and> list_all (\<lambda>(_, s). \<not> runOver rid s) polls)"

lemma stream_rounds:
  assumes "memReachable m" and "pollChain m polls" and "polls \<noteq> []" and "0 \<le> l"
  shows "\<exists>k. streamedLog rid l polls (streamLoop (memoryOps a b c) (\<lambda>_. True) rid l polls) k"
  using assms
proof (induction polls arbitrary: m l)
  case (Cons p polls)
  obtain s1 s2 where p: "p = (s1, s2)"
    by (cases p)
  have r: "memReachable s1" "memReachable s2" and st: "memStep\<^sup>*\<^sup>* s1 s2" and ch: "pollChain s2 polls"
    using Cons.prems(1,2) by (auto simp: p intro: rtranclp_trans)
  let ?log = "ListRunEvents rid s1" and ?l = "max l (int (length (ListRunEvents rid s1)))"
  note round = stream_round [OF reachable_invariants(2) [OF r(1)] Cons.prems(4), of a b c rid s2 polls]
  consider "runOver rid s2 \<or> hasTerminalEvent ?log" | "\<not> (runOver rid s2 \<or> hasTerminalEvent ?log)" "polls = []"
    | "\<not> (runOver rid s2 \<or> hasTerminalEvent ?log)" "polls \<noteq> []"
    by blast
  then show ?case
  proof cases
    case 3
    have "0 \<le> ?l"
      by simp
    from Cons.IH [OF r(2) ch 3(2) this] obtain k where
      k: "streamedLog rid ?l polls (streamLoop (memoryOps a b c) (\<lambda>_. True) rid ?l polls) k" ..
    then have "memStep\<^sup>*\<^sup>* s1 (fst (polls ! k))"
      using st pollChain_steps [OF ch, of k] by (auto simp: streamedLog_def intro: rtranclp_trans)
    then have "drop (nat l) ?log @ drop (nat ?l) (ListRunEvents rid (fst (polls ! k))) =
        drop (nat l) (ListRunEvents rid (fst (polls ! k)))"
      using drop_prefix_append [OF log_prefix, of s1 "fst (polls ! k)" "nat l" rid]
      by (cases "l \<le> int (length ?log)") (auto simp: max_def nat_le_iff)
    then show ?thesis
      using k 3 round by (intro exI [of _ "Suc k"]) (auto simp: p streamedLog_def case_prod_beta)
  qed (use round in \<open>auto simp: p streamedLog_def intro!: exI [of _ 0]\<close>)
qed simp

lemma streamLoop_prefix:
  "prefix (fst (streamLoop ops sent rid l polls)) (fst (streamLoop ops (\<lambda>_. True) rid l polls))"
proof (induction polls arbitrary: l)
  case (Cons p polls)
  obtain s1 s2 where p: "p = (s1, s2)"
    by (cases p)
  obtain out l' where full: "streamEvents (\<lambda>_. True) l (so_ListRunEvents ops rid s1) = (out, Some l')"
    using streamEvents_total by blast
  note pre = streamEvents_prefix [of sent l "so_ListRunEvents ops rid s1", unfolded full]
  show ?case
  proof (cases "snd (streamEvents sent l (so_ListRunEvents ops rid s1)) = None")
    case True
    then show ?thesis
      using pre full by (cases "streamEvents sent l (so_ListRunEvents ops rid s1)")
        (auto simp: p Let_def case_prod_beta intro: prefix_prefix)
  next
    case False
    then show ?thesis
      using pre full Cons.IH [of l'] by (auto simp: p Let_def case_prod_beta)
  qed
qed simp

lemma lastEventSequence_nonneg: "0 \<le> lastEventSequence h q"
  by (simp add: lastEventSequence_def split: option.split)

text \<open>
  C27: a client that streams the events of a run receives, after the sequence number it names, the log of the run: in
  order, without a gap and without a repetition, as one of the polls found it. Where the connection fails it has
  received a part of that from the front. A stream whose writes succeed stops only when the run is finished, and it stops
  at the first poll after that.
\<close>

theorem stream_delivers_the_log:
  assumes "srv_store srv = memoryOps iterT iterS iterR" and "memReachable (ss_store st)"
    and "GetRun rid (ss_store st) = Some r" and "pollChain (ss_store st) polls" and "polls \<noteq> []"
  shows "\<exists>out ended k. streamRunEvents srv True marshal send rid h q polls st = Inr (out, ended) \<and>
    prefix out (drop (nat (lastEventSequence h q)) (ListRunEvents rid (fst (polls ! k)))) \<and>
    ((\<forall>e. snd (writeSSEEvent marshal send e) = None) \<longrightarrow>
       streamedLog rid (lastEventSequence h q) polls (out, ended) k)"
proof -
  let ?sent = "\<lambda>e. snd (writeSSEEvent marshal send e) = None" and ?l = "lastEventSequence h q"
  let ?loop = "\<lambda>sent. streamLoop (memoryOps iterT iterS iterR) sent rid ?l polls"
  obtain k where k: "streamedLog rid ?l polls (?loop (\<lambda>_. True)) k"
    using stream_rounds [OF assms(2,4,5) lastEventSequence_nonneg] by blast
  have "prefix (fst (?loop ?sent)) (drop (nat ?l) (ListRunEvents rid (fst (polls ! k))))"
    using streamLoop_prefix k unfolding streamedLog_def by metis
  moreover have "(\<forall>e. ?sent e) \<longrightarrow> streamedLog rid ?l polls (?loop ?sent) k"
    using k by simp
  ultimately show ?thesis
    using assms(1,3) unfolding streamRunEvents_def by (cases "?loop ?sent") auto
qed

text \<open>
  C38: the stream can end without the event that says how the run ended. The log is read before the run: a run that
  finishes between the two reads ends the stream, and its last event, which is in the log by then, is never sent.
\<close>

theorem stream_misses_final_event:
  assumes "memReachable m" and "GetRun rid m = Some r" and "\<not> isTerminalRunStatus (run_Status r)"
    and "\<not> hasTerminalEvent (ListRunEvents rid m)" and "0 \<le> l"
  shows "\<exists>out. streamLoop (memoryOps iterT iterS iterR) (\<lambda>_. True) rid l [(m, CompleteRun clock rid rep m)] = (out, True) \<and>
    \<not> hasTerminalEvent out \<and> hasTerminalEvent (ListRunEvents rid (CompleteRun clock rid rep m))"
proof -
  have "runOver rid (CompleteRun clock rid rep m)"
    using assms(2,3) by (simp add: runOver_def completedRecord_def)
  moreover have "hasTerminalEvent (ListRunEvents rid (CompleteRun clock rid rep m))"
    using assms(2,3) by (auto simp: CompleteRun_def GetRun_def hasTerminalEvent_def Let_def)
  ultimately show ?thesis
    unfolding stream_round [OF reachable_invariants(2) [OF assms(1)] assms(5)]
    using assms(4) hasTerminalEvent_drop by (auto simp: Let_def)
qed

section \<open>Concrete streams\<close>

theorem stream_delivers_the_log_witness:
  "\<exists>out ended k. streamRunEvents sampleServer True (\<lambda>_. Inr ''{}'') (\<lambda>_. None) ''run_7'' '''' ''''
      [(queuedState, queuedState), (erroredState, erroredState)] (sampleState queuedState) = Inr (out, ended) \<and>
    streamedLog ''run_7'' 0 [(queuedState, queuedState), (erroredState, erroredState)] (out, ended) k"
proof -
  let ?polls = "[(queuedState, queuedState), (erroredState, erroredState)]"
  obtain r where r: "GetRun ''run_7'' queuedState = Some r"
    by (rule queuedRun)
  have ch: "pollChain (ss_store (sampleState queuedState)) ?polls"
    by (auto simp: sampleState_def erroredState_def intro: memStep.errorRun)
  have w: "\<forall>e. snd (writeSSEEvent (\<lambda>_. Inr ''{}'') (\<lambda>_. None) e) = None"
    by (simp add: writeSSEEvent_def)
  have l: "lastEventSequence '''' '''' = 0"
    by code_simp
  have "memReachable (ss_store (sampleState queuedState))" "GetRun ''run_7'' (ss_store (sampleState queuedState)) = Some r"
    using queuedState_reachable r by (simp_all add: sampleState_def)
  from stream_delivers_the_log [OF sampleServer_store this ch, of "\<lambda>_. Inr ''{}''" "\<lambda>_. None" "''''" "''''"] w l
  show ?thesis
    by auto
qed

theorem stream_misses_final_event_witness:
  "\<exists>out. streamLoop plainMemory (\<lambda>_. True) ''run_7'' 0 [(runningState, CompleteRun sampleClock ''run_7'' passedReport runningState)] = (out, True) \<and>
    \<not> hasTerminalEvent out \<and> hasTerminalEvent (ListRunEvents ''run_7'' (CompleteRun sampleClock ''run_7'' passedReport runningState))"
proof -
  have g: "map_option run_Status (GetRun ''run_7'' runningState) = Some RunRunning"
    "\<not> hasTerminalEvent (ListRunEvents ''run_7'' runningState)"
    by code_simp+
  then obtain r where r: "GetRun ''run_7'' runningState = Some r" "run_Status r = RunRunning"
    by auto
  have "memReachable runningState"
    unfolding runningState_def by (rule rtranclp.rtrancl_into_rtrancl [OF queuedState_reachable]) (rule memStep.markStarted)
  from stream_misses_final_event [OF this r(1) _ g(2), where l = 0 and iterT = "\<lambda>x. x" and iterS = "\<lambda>x. x" and iterR = "\<lambda>x. x"] r(2)
  show ?thesis
    by (simp add: plainMemory_def)
qed

end
