(* ===== verification/Runner.thy ===== *)
theory Runner
  imports RunExec JsonPath GoFmt
begin

text \<open>
  \<^verbatim>\<open>internal/runner/runner.go\<close>: the Go runner. It sends the requests of a scenario, records the responses, and evaluates
  thresholds and invariants.

  What a request meets outside the program is the record \<open>ReqIO\<close>: whether the context and the limiter let it
  pass, the clock, and the answer of \<^verbatim>\<open>http.Client.Do\<close>, a parameter as a function of the request. Functions that emit
  events return them. Concurrency is the subject of the step relation at the end.
\<close>

definition maxBodyPreviewBytes :: nat where "maxBodyPreviewBytes = 4096"

section \<open>HTTP requests\<close>

record HttpRequest =
  hq_Method :: string
  hq_URL :: URL
  hq_Header :: "string gomap"
  hq_Body :: string

text \<open>A response: its status, the bytes its body yields and the error the body ends with, if not at its end.\<close>

record HttpResponse =
  hr_StatusCode :: int
  hr_Body :: string
  hr_BodyErr :: "string option"

record ReqIO =
  io_Admit :: bool
  io_CtxErr :: string
  io_Now :: int
  io_Elapsed :: int
  io_Do :: "HttpRequest \<Rightarrow> HttpResponse result"

text \<open>\<^verbatim>\<open>io.ReadAll(io.LimitReader(body, n))\<close>: at most \<open>n\<close> bytes; an error of the body is seen when it comes earlier.\<close>

definition readLimited :: "nat \<Rightarrow> HttpResponse \<Rightarrow> string \<times> string option" where
  "readLimited n resp = (take n (hr_Body resp), if length (hr_Body resp) < n then hr_BodyErr resp else None)"

text \<open>
  \<^verbatim>\<open>http.NewRequestWithContext\<close>: an empty method is GET, a method must be a token, the URL must parse. A header key
  is put into canonical form.
\<close>

definition isTokenChar :: "char \<Rightarrow> bool" where
  "isTokenChar c \<longleftrightarrow> isAlpha c \<or> isDigit c \<or> c \<in> set ''!#$%&*+-.^_|~'' \<or> code c = 39 \<or> code c = 96"

definition newRequest :: "string \<Rightarrow> string \<Rightarrow> string \<Rightarrow> HttpRequest result" where
  "newRequest method url body =
     (let method = (if method = '''' then ''GET'' else method)
      in if \<not> list_all isTokenChar method then Inl (''net/http: invalid method '' @ Quote method)
         else case Parse url of
                Inl err \<Rightarrow> Inl err
              | Inr u \<Rightarrow> Inr \<lparr>hq_Method = method, hq_URL = u, hq_Header = [], hq_Body = body\<rparr>)"

fun canonicalKey :: "bool \<Rightarrow> string \<Rightarrow> string" where
  "canonicalKey upper [] = []"
| "canonicalKey upper (c # cs) = (if upper then upperChar c else lowerChar c) # canonicalKey (c = CHR ''-'') cs"

definition CanonicalHeaderKey :: "string \<Rightarrow> string" where
  "CanonicalHeaderKey k = (if k \<noteq> '''' \<and> list_all isTokenChar k then canonicalKey True k else k)"

definition headerSet :: "string \<Rightarrow> string \<Rightarrow> HttpRequest \<Rightarrow> HttpRequest" where
  "headerSet k v r = r\<lparr>hq_Header := mapSet (CanonicalHeaderKey k) v (hq_Header r)\<rparr>"

definition headerGet :: "string \<Rightarrow> HttpRequest \<Rightarrow> string" where
  "headerGet k r = (case mapGet (hq_Header r) (CanonicalHeaderKey k) of None \<Rightarrow> '''' | Some v \<Rightarrow> v)"

text \<open>The loops over a header map; the order of the map is the parameter \<open>iter\<close>.\<close>

definition setHeaders :: "(string gomap \<Rightarrow> string gomap) \<Rightarrow> headers \<Rightarrow> HttpRequest \<Rightarrow> HttpRequest" where
  "setHeaders iter h r = fold (\<lambda>(k, v). headerSet k v) (iter (case h of None \<Rightarrow> [] | Some m \<Rightarrow> m)) r"

definition requestBody :: "Request \<Rightarrow> string \<times> string" where
  "requestBody req =
     (if length (rq_JSON req) > 0 then (rq_JSON req, ''application/json'')
      else if rq_Body req \<noteq> '''' then (rq_Body req, ''text/plain'')
      else ('''', ''''))"

definition joinURL :: "string \<Rightarrow> string \<Rightarrow> string result" where
  "joinURL baseURL path =
     (if HasPrefix path ''http://'' \<or> HasPrefix path ''https://'' then Inr path
      else case Parse baseURL of
             Inl err \<Rightarrow> Inl err
           | Inr base \<Rightarrow>
               (case Parse path of
                  Inl err \<Rightarrow> Inl err
                | Inr rel \<Rightarrow> Inr (URLString (ResolveReference base rel))))"

definition containsStatus :: "int list \<Rightarrow> int \<Rightarrow> bool" where
  "containsStatus statuses status \<longleftrightarrow> list_ex (\<lambda>expected. expected = status) statuses"

definition elapsedMS :: "int \<Rightarrow> float64" where
  "elapsedMS elapsed = fdiv (float_of_int (quot elapsed 1000)) 1000"

section \<open>Events\<close>

definition emitEvent :: "string \<Rightarrow> string \<Rightarrow> string \<Rightarrow> string \<Rightarrow> meta gomap \<Rightarrow> Event" where
  "emitEvent runID level eventType message metadata =
     (newEvent level eventType message (Some metadata))\<lparr>ev_RunID := runID\<rparr>"

section \<open>One request\<close>

definition prepareRequest :: "(string gomap \<Rightarrow> string gomap) \<Rightarrow> string \<Rightarrow> Scenario \<Rightarrow> Request \<Rightarrow> int \<Rightarrow> int \<Rightarrow> HttpRequest result" where
  "prepareRequest iter runID sc req iteration attempt =
     (case joinURL (tg_BaseURL (sc_Target sc)) (rq_Path req) of
        Inl err \<Rightarrow> Inl err
      | Inr targetURL \<Rightarrow>
          (let (body, contentType) = requestBody req
           in case newRequest (rq_Method req) targetURL body of
                Inl err \<Rightarrow> Inl err
              | Inr r0 \<Rightarrow>
                  (let r1 = setHeaders iter (rq_Headers req) (setHeaders iter (tg_Headers (sc_Target sc)) r0);
                       r2 = (if contentType \<noteq> '''' \<and> headerGet ''Content-Type'' r1 = ''''
                             then headerSet ''Content-Type'' contentType r1 else r1)
                   in Inr (headerSet ''X-Wreckr-Attempt'' (Itoa attempt)
                        (headerSet ''X-Wreckr-Iteration'' (Itoa iteration)
                        (headerSet ''X-Wreckr-Request'' (rq_Name req)
                        (headerSet ''X-Wreckr-Scenario'' (sc_Name sc)
                        (headerSet ''X-Wreckr-Run-ID'' runID r2))))))))"

definition unexpectedStatus :: "int \<Rightarrow> int list \<Rightarrow> string" where
  "unexpectedStatus status expected = ''unexpected status '' @ Itoa status @ '', expected '' @ formatInts expected"

text \<open>The response as it is recorded, and the assertion event when the status is not an expected one.\<close>

definition recordResponse :: "string \<Rightarrow> Request \<Rightarrow> HttpResponse \<Rightarrow> ResponseRecord \<Rightarrow> ResponseRecord \<times> Event list" where
  "recordResponse runID req resp rec =
     (let (raw, readErr) = readLimited (maxBodyPreviewBytes + 1) resp;
          rec = rec\<lparr>rr_StatusCode := hr_StatusCode resp, rr_BodyPreview := take maxBodyPreviewBytes raw\<rparr>
      in case readErr of
           Some err \<Rightarrow> (rec\<lparr>rr_Error := err\<rparr>, [])
         | None \<Rightarrow>
             (if length (expectedStatuses req) > 0 then
                (if \<not> containsStatus (expectedStatuses req) (hr_StatusCode resp) then
                   (let err = unexpectedStatus (hr_StatusCode resp) (expectedStatuses req)
                    in (rec\<lparr>rr_Error := err\<rparr>,
                        [emitEvent runID LevelError TypeAssertionFailed err
                           [(''request'', MString (rq_Name req)), (''iteration'', MInt (rr_Iteration rec)),
                            (''attempt'', MInt (rr_Attempt rec)), (''expected'', MInts (expectedStatuses req)),
                            (''actual'', MInt (hr_StatusCode resp)), (''status_code'', MInt (hr_StatusCode resp))]]))
                 else (rec, []))
              else if hr_StatusCode resp \<ge> 500
              then (rec\<lparr>rr_Error := ''server error status '' @ Itoa (hr_StatusCode resp)\<rparr>, [])
              else (rec, [])))"

definition requestMeta :: "Request \<Rightarrow> int \<Rightarrow> int \<Rightarrow> meta gomap" where
  "requestMeta req iteration attempt =
     [(''request'', MString (rq_Name req)), (''method'', MString (rq_Method req)), (''path'', MString (rq_Path req)),
      (''iteration'', MInt iteration), (''attempt'', MInt attempt)]"

definition completedMeta :: "Request \<Rightarrow> ResponseRecord \<Rightarrow> meta gomap" where
  "completedMeta req rec =
     requestMeta req (rr_Iteration rec) (rr_Attempt rec) @
     [(''status_code'', MInt (rr_StatusCode rec)), (''duration_ms'', MFloat (rr_DurationMS rec))] @
     (if rr_Error rec \<noteq> '''' then [(''error'', MString (rr_Error rec))] else [])"

definition executeRequest :: "(string gomap \<Rightarrow> string gomap) \<Rightarrow> ReqIO \<Rightarrow> string \<Rightarrow> Scenario \<Rightarrow> Request \<Rightarrow> int \<Rightarrow> int \<Rightarrow>
    ResponseRecord \<times> Event list" where
  "executeRequest iter io runID sc req iteration attempt =
     (let rec0 = \<lparr>rr_RequestName = rq_Name req, rr_Iteration = iteration, rr_Attempt = attempt, rr_StatusCode = 0,
                  rr_DurationMS = 0, rr_Error = '''', rr_BodyPreview = '''', rr_StartedAt = io_Now io\<rparr>;
          rec1 = rec0\<lparr>rr_DurationMS := elapsedMS (io_Elapsed io)\<rparr>;
          (rec, asserted) =
            (case prepareRequest iter runID sc req iteration attempt of
               Inl err \<Rightarrow> (rec1\<lparr>rr_Error := err\<rparr>, [])
             | Inr r \<Rightarrow>
                 (case io_Do io r of
                    Inl err \<Rightarrow> (rec1\<lparr>rr_Error := err\<rparr>, [])
                  | Inr resp \<Rightarrow> recordResponse runID req resp rec1))
      in (rec, emitEvent runID LevelInfo TypeRequestStarted ''request started'' (requestMeta req iteration attempt) #
            asserted @ [emitEvent runID LevelInfo TypeRequestCompleted ''request completed'' (completedMeta req rec)]))"

section \<open>Setup and teardown\<close>

definition hasFailedCheck :: "CheckResult list \<Rightarrow> bool" where
  "hasFailedCheck checks \<longleftrightarrow> list_ex (\<lambda>c. \<not> ck_Passed c) checks"

definition controlMessage :: "bool \<Rightarrow> ResponseRecord \<Rightarrow> string" where
  "controlMessage passed rec =
     (if passed then ''passed with status '' @ Itoa (rr_StatusCode rec)
      else if rr_Error rec \<noteq> '''' then rr_Error rec
      else ''failed with status '' @ Itoa (rr_StatusCode rec))"

definition controlActual :: "ResponseRecord \<Rightarrow> string" where
  "controlActual rec = (if rr_Error rec \<noteq> '''' then rr_Error rec else Itoa (rr_StatusCode rec))"

definition controlCheck :: "string \<Rightarrow> Request \<Rightarrow> ResponseRecord \<Rightarrow> CheckResult" where
  "controlCheck phase req rec =
     (let passed = (rr_Error rec = '''')
      in \<lparr>ck_Name = phase @ '':'' @ rq_Name req, ck_Passed = passed, ck_Message = controlMessage passed rec,
          ck_Expected = ''request succeeds'', ck_Actual = controlActual rec\<rparr>)"

text \<open>The loop over the requests of a phase: it stops when the run is canceled and after the first failure.\<close>

fun controlLoop :: "(string gomap \<Rightarrow> string gomap) \<Rightarrow> string \<Rightarrow> Scenario \<Rightarrow> string \<Rightarrow> (Request \<times> ReqIO) list \<Rightarrow>
    ResponseRecord list \<times> CheckResult list \<times> Event list" where
  "controlLoop iter runID sc phase [] = ([], [], [])"
| "controlLoop iter runID sc phase ((req, io) # rest) =
     (if \<not> io_Admit io then ([], [], [])
      else let (rec, es) = executeRequest iter io runID sc req (- 1) 1;
               check = controlCheck phase req rec
           in if \<not> ck_Passed check then ([rec], [check], es)
              else let (recs, checks, es') = controlLoop iter runID sc phase rest
                   in (rec # recs, check # checks, es @ es'))"

definition runControlRequests :: "(string gomap \<Rightarrow> string gomap) \<Rightarrow> (nat \<Rightarrow> ReqIO) \<Rightarrow> string \<Rightarrow> Scenario \<Rightarrow> string \<Rightarrow>
    Request list \<Rightarrow> ResponseRecord list \<times> CheckResult list \<times> Event list" where
  "runControlRequests iter ios runID sc phase requests =
     (if length requests = 0 then ([], [], [])
      else let (startType, completedType) =
                 (if phase = ''teardown'' then (TypeTeardownStarted, TypeTeardownCompleted)
                  else (TypeSetupStarted, TypeSetupCompleted));
               (records, checks, es) = controlLoop iter runID sc phase (map (\<lambda>(i, r). (r, ios i)) (enumerate 0 requests));
               passed = (\<not> hasFailedCheck checks)
           in (records, checks,
               emitEvent runID LevelInfo startType (phase @ '' started'') [(''requests'', MInt (int (length requests)))] #
               es @
               [emitEvent runID (if passed then LevelInfo else LevelError) completedType (phase @ '' completed'')
                  [(''requests'', MInt (int (length records))), (''passed'', MBool passed)]]))"

section \<open>Thresholds\<close>

definition comparisonMessage :: "bool \<Rightarrow> float64 \<Rightarrow> string \<Rightarrow> float64 \<Rightarrow> string" where
  "comparisonMessage passed actual op expected =
     (if passed then ''passed: '' @ FormatFixed 4 actual @ space @ op @ space @ FormatFixed 4 expected
      else ''failed: '' @ FormatFixed 4 actual @ '' is not '' @ op @ space @ FormatFixed 4 expected)"

definition evaluateThresholds :: "Scenario \<Rightarrow> ResponseRecord list \<Rightarrow> CheckResult list" where
  "evaluateThresholds sc records =
     (let summary = Summarize records
      in (case th_MaxErrorRate (sc_Thresholds sc) of
            None \<Rightarrow> []
          | Some limit \<Rightarrow>
              (let passed = (sm_ErrorRate summary \<le> limit)
               in [\<lparr>ck_Name = ''max_error_rate'', ck_Passed = passed,
                    ck_Message = comparisonMessage passed (sm_ErrorRate summary) ''<='' limit,
                    ck_Expected = ''<= '' @ FormatFixed 4 limit, ck_Actual = FormatFixed 4 (sm_ErrorRate summary)\<rparr>])) @
         (case th_P95MS (sc_Thresholds sc) of
            None \<Rightarrow> []
          | Some limit \<Rightarrow>
              (let p = la_P95MS (sm_Latency summary); passed = (p \<le> limit)
               in [\<lparr>ck_Name = ''p95_ms'', ck_Passed = passed, ck_Message = comparisonMessage passed p ''<='' limit,
                    ck_Expected = ''<= '' @ FormatFixed 1 limit @ ''ms'', ck_Actual = FormatFixed 1 p @ ''ms''\<rparr>])))"

section \<open>Invariants\<close>

definition countMessage :: "bool \<Rightarrow> int \<Rightarrow> string list \<Rightarrow> string" where
  "countMessage passed actual expected =
     (if passed then ''passed: observed '' @ Itoa actual
      else ''failed: observed '' @ Itoa actual @ '', expected '' @ Join expected '', '')"

definition countsRecord :: "Invariant \<Rightarrow> ResponseRecord \<Rightarrow> bool" where
  "countsRecord iv rec \<longleftrightarrow>
     \<not> (iv_Request iv \<noteq> '''' \<and> rr_RequestName rec \<noteq> iv_Request iv) \<and>
     \<not> (case iv_Status iv of None \<Rightarrow> False | Some st \<Rightarrow> rr_StatusCode rec \<noteq> st)"

fun countLoop :: "Invariant \<Rightarrow> int \<Rightarrow> ResponseRecord list \<Rightarrow> int" where
  "countLoop iv n0 [] = n0"
| "countLoop iv n0 (r # rs) = countLoop iv (if countsRecord iv r then n0 + 1 else n0) rs"

definition evaluateResponseCount :: "Invariant \<Rightarrow> ResponseRecord list \<Rightarrow> CheckResult" where
  "evaluateResponseCount iv records =
     (let n0 = countLoop iv 0 records;
          (p1, e1) = (case iv_Equals iv of None \<Rightarrow> (True, []) | Some n \<Rightarrow> (n0 = n, [''equals '' @ Itoa n]));
          (p2, e2) = (case iv_Min iv of None \<Rightarrow> (True, []) | Some n \<Rightarrow> (n0 \<ge> n, [''>= '' @ Itoa n]));
          (p3, e3) = (case iv_Max iv of None \<Rightarrow> (True, []) | Some n \<Rightarrow> (n0 \<le> n, [''<= '' @ Itoa n]));
          passed = (p1 \<and> p2 \<and> p3);
          expected = e1 @ e2 @ e3
      in \<lparr>ck_Name = iv_Name iv, ck_Passed = passed, ck_Message = countMessage passed n0 expected,
          ck_Expected = Join expected '', '', ck_Actual = Itoa n0\<rparr>)"

definition failedInvariant :: "string \<Rightarrow> string \<Rightarrow> CheckResult" where
  "failedInvariant name message =
     \<lparr>ck_Name = name, ck_Passed = False, ck_Message = message, ck_Expected = '''', ck_Actual = ''''\<rparr>"

definition tolerance :: float64 where "tolerance = round64 (1 / 1000000)"

text \<open>An expected value comes from JSON, so a number is a float64; the cases for other number types do not arise.\<close>

definition valuesEqual :: "json \<Rightarrow> json \<Rightarrow> bool" where
  "valuesEqual actual expected =
     (case (actual, expected) of
        (JNum a, JNum e) \<Rightarrow> \<bar>fsub a e\<bar> < tolerance
      | _ \<Rightarrow> formatValue actual = formatValue expected)"

definition valueMessage :: "bool \<Rightarrow> json \<Rightarrow> json \<Rightarrow> string" where
  "valueMessage passed actual expected =
     (if passed then ''passed: observed '' @ formatValue actual
      else ''failed: observed '' @ formatValue actual @ '', expected '' @ formatValue expected)"

definition prepareProbe :: "(string gomap \<Rightarrow> string gomap) \<Rightarrow> string \<Rightarrow> Scenario \<Rightarrow> Invariant \<Rightarrow> HttpRequest result" where
  "prepareProbe iter runID sc iv =
     (case joinURL (tg_BaseURL (sc_Target sc)) (iv_Path iv) of
        Inl err \<Rightarrow> Inl err
      | Inr targetURL \<Rightarrow>
          (case newRequest (iv_Method iv) targetURL '''' of
             Inl err \<Rightarrow> Inl err
           | Inr r0 \<Rightarrow>
               Inr (headerSet ''X-Wreckr-Probe'' (iv_Name iv)
                 (headerSet ''X-Wreckr-Scenario'' (sc_Name sc)
                 (headerSet ''X-Wreckr-Run-ID'' runID
                 (setHeaders iter (iv_Headers iv) (setHeaders iter (tg_Headers (sc_Target sc)) r0)))))))"

definition evaluateHTTPProbe :: "(string \<Rightarrow> string) \<Rightarrow> (string gomap \<Rightarrow> string gomap) \<Rightarrow> ReqIO \<Rightarrow> string \<Rightarrow> Scenario \<Rightarrow> Invariant \<Rightarrow> CheckResult" where
  "evaluateHTTPProbe jsonErr iter io runID sc iv =
     (case prepareProbe iter runID sc iv of
        Inl err \<Rightarrow> failedInvariant (iv_Name iv) err
      | Inr r \<Rightarrow>
          (if \<not> io_Admit io then failedInvariant (iv_Name iv) (io_CtxErr io)
           else case io_Do io r of
                  Inl err \<Rightarrow> failedInvariant (iv_Name iv) err
                | Inr resp \<Rightarrow>
                    (case readLimited (maxBodyPreviewBytes + 1) resp of
                       (_, Some err) \<Rightarrow> failedInvariant (iv_Name iv) err
                     | (raw, None) \<Rightarrow>
                         (if hr_StatusCode resp \<ge> 400
                          then failedInvariant (iv_Name iv) (''probe returned status '' @ Itoa (hr_StatusCode resp))
                          else case LookupJSONPath jsonErr raw (iv_ExpectJSONPath iv) of
                                 LookupError err \<Rightarrow> failedInvariant (iv_Name iv) err
                               | NotFound \<Rightarrow>
                                   failedInvariant (iv_Name iv) (''json path '' @ iv_ExpectJSONPath iv @ '' was not found'')
                               | Found got \<Rightarrow>
                                   (let passed = valuesEqual got (iv_ExpectEquals iv)
                                    in \<lparr>ck_Name = iv_Name iv, ck_Passed = passed,
                                        ck_Message = valueMessage passed got (iv_ExpectEquals iv),
                                        ck_Expected = formatValue (iv_ExpectEquals iv),
                                        ck_Actual = formatValue got\<rparr>)))))"

definition evaluateInvariant :: "(string \<Rightarrow> string) \<Rightarrow> (string gomap \<Rightarrow> string gomap) \<Rightarrow> string \<Rightarrow> Scenario \<Rightarrow> ResponseRecord list \<Rightarrow>
    Invariant \<Rightarrow> ReqIO \<Rightarrow> CheckResult list" where
  "evaluateInvariant jsonErr iter runID sc records iv io =
     (if iv_Type iv = ''response_count'' then [evaluateResponseCount iv records]
      else if iv_Type iv = ''http_probe'' then [evaluateHTTPProbe jsonErr iter io runID sc iv]
      else [])"

definition evaluateInvariants :: "(string \<Rightarrow> string) \<Rightarrow> (string gomap \<Rightarrow> string gomap) \<Rightarrow> (nat \<Rightarrow> ReqIO) \<Rightarrow> string \<Rightarrow> Scenario \<Rightarrow>
    ResponseRecord list \<Rightarrow> CheckResult list" where
  "evaluateInvariants jsonErr iter ios runID sc records =
     concat (map (\<lambda>(i, iv). evaluateInvariant jsonErr iter runID sc records iv (ios i)) (enumerate 0 (sc_Invariants sc)))"

definition emitFailedChecks :: "string \<Rightarrow> CheckResult list \<Rightarrow> string \<Rightarrow> Event list" where
  "emitFailedChecks runID checks eventType =
     map (\<lambda>c. emitEvent runID LevelError eventType (ck_Message c)
            [(''check'', MString (ck_Name c)), (''expected'', MString (ck_Expected c)), (''actual'', MString (ck_Actual c))])
       (filter (\<lambda>c. \<not> ck_Passed c) checks)"

section \<open>The limiter\<close>

definition newRequestLimiter :: "int \<Rightarrow> int option" where
  "newRequestLimiter ratePerSecond =
     (if ratePerSecond \<le> 0 then None
      else let interval = quot Second ratePerSecond in Some (if interval \<le> 0 then 1 else interval))"

section \<open>A run\<close>

text \<open>
  The world of one run: the environment variables, the clock, the requests of the three phases and the records and events
  of the traffic phase, as a function of the scenario that is run.
\<close>

record RunIO =
  ri_Env :: "string \<Rightarrow> string"
  ri_StartedAt :: int
  ri_FinishedAt :: int
  ri_NewRunID :: string
  ri_Iter :: "string gomap \<Rightarrow> string gomap"
  ri_JsonErr :: "string \<Rightarrow> string"
  ri_Setup :: "nat \<Rightarrow> ReqIO"
  ri_Traffic :: "string \<Rightarrow> Scenario \<Rightarrow> ResponseRecord list \<times> Event list"
  ri_Probes :: "nat \<Rightarrow> ReqIO"
  ri_Teardown :: "nat \<Rightarrow> ReqIO"

definition RunWithOptions :: "RunIO \<Rightarrow> string \<Rightarrow> Scenario \<Rightarrow> Report result \<times> Event list" where
  "RunWithOptions w optRunID sc0 =
     (let sc = Normalized (WithEnv (ri_Env w) sc0)
      in case Validate sc of
           Some err \<Rightarrow> (Inl err, [])
         | None \<Rightarrow>
             (let runID = (if optRunID = '''' then ri_NewRunID w else optRunID);
                  (setupRecords, setupChecks, es0) = runControlRequests (ri_Iter w) (ri_Setup w) runID sc ''setup'' (sc_Setup sc)
              in if hasFailedCheck setupChecks
                 then (Inr (Build (ri_FinishedAt w) runID (sc_Name sc) (ri_StartedAt w) setupRecords setupChecks []), es0)
                 else let (records, es1) = ri_Traffic w runID sc;
                          thresholds = evaluateThresholds sc records;
                          invariants = evaluateInvariants (ri_JsonErr w) (ri_Iter w) (ri_Probes w) runID sc records;
                          (teardownRecords, teardownChecks, es2) =
                            runControlRequests (ri_Iter w) (ri_Teardown w) runID sc ''teardown'' (sc_Teardown sc);
                          (records', thresholds') =
                            (if hasFailedCheck teardownChecks then (records @ teardownRecords, thresholds @ teardownChecks)
                             else (records, thresholds))
                      in (Inr (Build (ri_FinishedAt w) runID (sc_Name sc) (ri_StartedAt w) records' thresholds' invariants),
                          es0 @ es1 @ emitFailedChecks runID thresholds TypeThresholdFailed @
                          emitFailedChecks runID invariants TypeInvariantFailed @ es2)))"

section \<open>The traffic phase: workers that share a channel\<close>

text \<open>A request to send: its iteration, the request and the attempt. The jobs of one iteration are in the order of the code.\<close>

type_synonym job = "nat \<times> Request \<times> nat"

definition jobsOf :: "Scenario \<Rightarrow> nat \<Rightarrow> nat \<Rightarrow> job list" where
  "jobsOf sc attempts k = concat (map (\<lambda>req. map (\<lambda>a. (k, req, a)) [1..<Suc attempts]) (sc_Requests sc))"

definition trafficAttempts :: "Scenario \<Rightarrow> nat" where
  "trafficAttempts sc =
     (if tr_Type (sc_Traffic sc) = TrafficRetryStorm then nat (max 1 (rp_Attempts (tr_Retry (sc_Traffic sc)))) else 1)"

text \<open>
  A worker waits on the channel, serves an iteration (with the jobs that are left), or has returned. The sender has sent
  the iterations below \<open>pa_Next\<close>; it closes the channel at the end or when the run is canceled.
\<close>

datatype pworker = Receiving | Serving "job list" | Returned

record Par =
  pa_Next :: nat
  pa_Closed :: bool
  pa_Canceled :: bool
  pa_Workers :: "pworker list"
  pa_Items :: "ResponseRecord list"

definition parInit :: "Scenario \<Rightarrow> Par" where
  "parInit sc = \<lparr>pa_Next = 0, pa_Closed = False, pa_Canceled = False,
     pa_Workers = replicate (nat (tr_Concurrency (sc_Traffic sc))) Receiving, pa_Items = []\<rparr>"

definition iterations :: "Scenario \<Rightarrow> nat" where
  "iterations sc = nat (tr_Iterations (sc_Traffic sc))"

text \<open>
  One step of \<^verbatim>\<open>runParallel\<close>: the sender hands an iteration to a waiting worker; a worker executes its next job and adds
  the record to the collector; it goes back to the channel when the iteration is served; the context is canceled; a
  worker that finds it canceled returns; the sender closes the channel; a worker finds it closed and returns.
\<close>

inductive parStep :: "(string gomap \<Rightarrow> string gomap) \<Rightarrow> string \<Rightarrow> Scenario \<Rightarrow> nat \<Rightarrow> Par \<Rightarrow> Par \<Rightarrow> bool"
  for iter runID sc attempts where
  send: "pa_Next p < iterations sc \<Longrightarrow> \<not> pa_Closed p \<Longrightarrow> i < length (pa_Workers p) \<Longrightarrow> pa_Workers p ! i = Receiving \<Longrightarrow>
    parStep iter runID sc attempts p
      (p\<lparr>pa_Next := Suc (pa_Next p), pa_Workers := (pa_Workers p)[i := Serving (jobsOf sc attempts (pa_Next p))]\<rparr>)"
| exec: "i < length (pa_Workers p) \<Longrightarrow> pa_Workers p ! i = Serving ((k, req, a) # js) \<Longrightarrow>
    parStep iter runID sc attempts p
      (p\<lparr>pa_Workers := (pa_Workers p)[i := Serving js],
         pa_Items := pa_Items p @ [fst (executeRequest iter io runID sc req (int k) (int a))]\<rparr>)"
| served: "i < length (pa_Workers p) \<Longrightarrow> pa_Workers p ! i = Serving [] \<Longrightarrow>
    parStep iter runID sc attempts p (p\<lparr>pa_Workers := (pa_Workers p)[i := Receiving]\<rparr>)"
| cancel: "\<not> pa_Canceled p \<Longrightarrow> parStep iter runID sc attempts p (p\<lparr>pa_Canceled := True\<rparr>)"
| abandon: "pa_Canceled p \<Longrightarrow> i < length (pa_Workers p) \<Longrightarrow> pa_Workers p ! i = Serving js \<Longrightarrow>
    parStep iter runID sc attempts p (p\<lparr>pa_Workers := (pa_Workers p)[i := Returned]\<rparr>)"
| close: "pa_Next p = iterations sc \<or> pa_Canceled p \<Longrightarrow> \<not> pa_Closed p \<Longrightarrow>
    parStep iter runID sc attempts p (p\<lparr>pa_Closed := True\<rparr>)"
| leave: "pa_Closed p \<Longrightarrow> i < length (pa_Workers p) \<Longrightarrow> pa_Workers p ! i = Receiving \<Longrightarrow>
    parStep iter runID sc attempts p (p\<lparr>pa_Workers := (pa_Workers p)[i := Returned]\<rparr>)"

abbreviation parReachable :: "(string gomap \<Rightarrow> string gomap) \<Rightarrow> string \<Rightarrow> Scenario \<Rightarrow> nat \<Rightarrow> Par \<Rightarrow> bool" where
  "parReachable iter runID sc attempts p \<equiv> (parStep iter runID sc attempts)\<^sup>*\<^sup>* (parInit sc) p"

definition parDone :: "Par \<Rightarrow> bool" where
  "parDone p \<longleftrightarrow> pa_Closed p \<and> list_all (\<lambda>x. x = Returned) (pa_Workers p)"

text \<open>
  \<^verbatim>\<open>runRace\<close>: one round per iteration and request; in a round every racer is released by the start line and sends
  the request once, in some order; a canceled round may lose racers and is the last one.
\<close>

definition raceRounds :: "Scenario \<Rightarrow> (nat \<times> Request) list" where
  "raceRounds sc = concat (map (\<lambda>k. map (\<lambda>req. (k, req)) (sc_Requests sc)) [0..<iterations sc])"

definition raceRecords :: "(string gomap \<Rightarrow> string gomap) \<Rightarrow> string \<Rightarrow> Scenario \<Rightarrow> nat \<Rightarrow> Request \<Rightarrow> (nat \<times> ReqIO) list \<Rightarrow> ResponseRecord list" where
  "raceRecords iter runID sc k req racers =
     map (\<lambda>(racer, io). fst (executeRequest iter io runID sc req (int k) (int racer + 1))) racers"

inductive raceRun :: "(string gomap \<Rightarrow> string gomap) \<Rightarrow> string \<Rightarrow> Scenario \<Rightarrow> (nat \<times> Request) list \<Rightarrow> ResponseRecord list \<Rightarrow> bool \<Rightarrow> bool"
  for iter runID sc where
  finished: "raceRun iter runID sc [] [] False"
| canceled: "raceRun iter runID sc rounds [] True"
| round: "mset (map fst racers) = mset [0..<nat (tr_Concurrency (sc_Traffic sc))] \<Longrightarrow>
    raceRun iter runID sc rounds records c \<Longrightarrow>
    raceRun iter runID sc ((k, req) # rounds) (raceRecords iter runID sc k req racers @ records) c"
| cut: "mset (map fst racers) \<subseteq># mset [0..<nat (tr_Concurrency (sc_Traffic sc))] \<Longrightarrow>
    raceRun iter runID sc ((k, req) # rounds) (raceRecords iter runID sc k req racers) True"

text \<open>The choice of the traffic phase.\<close>

definition trafficRuns :: "(string gomap \<Rightarrow> string gomap) \<Rightarrow> string \<Rightarrow> Scenario \<Rightarrow> ResponseRecord list \<Rightarrow> bool \<Rightarrow> bool" where
  "trafficRuns iter runID sc records canceled \<longleftrightarrow>
     (if tr_Type (sc_Traffic sc) = TrafficRace then raceRun iter runID sc (raceRounds sc) records canceled
      else \<exists>p. parReachable iter runID sc (trafficAttempts sc) p \<and> parDone p \<and> records = pa_Items p \<and> canceled = pa_Canceled p)"

section \<open>Every request is sent once\<close>

type_synonym key = "string \<times> int \<times> int"

definition recKey :: "ResponseRecord \<Rightarrow> key" where
  "recKey r = (rr_RequestName r, rr_Iteration r, rr_Attempt r)"

definition jobKey :: "job \<Rightarrow> key" where
  "jobKey j = (case j of (k, req, a) \<Rightarrow> (rq_Name req, int k, int a))"

definition allJobs :: "Scenario \<Rightarrow> nat \<Rightarrow> job list" where
  "allJobs sc attempts = concat (map (jobsOf sc attempts) [0..<iterations sc])"

lemma recordResponse_kept [simp]:
  "rr_RequestName (fst (recordResponse runID req resp r)) = rr_RequestName r"
  "rr_Iteration (fst (recordResponse runID req resp r)) = rr_Iteration r"
  "rr_Attempt (fst (recordResponse runID req resp r)) = rr_Attempt r"
  "rr_DurationMS (fst (recordResponse runID req resp r)) = rr_DurationMS r"
  "rr_StartedAt (fst (recordResponse runID req resp r)) = rr_StartedAt r"
  by (simp_all add: recordResponse_def readLimited_def Let_def split: option.split)

lemma recKey_executeRequest [simp]:
  "recKey (fst (executeRequest iter io runID sc req k a)) = (rq_Name req, k, a)"
  by (simp add: recKey_def executeRequest_def Let_def split: sum.split prod.split)
    (metis ResponseRecord.select_convs(1,2,3) ResponseRecord.update_convs(5) fst_conv recordResponse_kept)

fun workerJobs :: "pworker \<Rightarrow> job list" where
  "workerJobs (Serving js) = js"
| "workerJobs _ = []"

text \<open>What has been sent, what the workers hold and what has not been handed out yet.\<close>

definition parKeys :: "Scenario \<Rightarrow> nat \<Rightarrow> Par \<Rightarrow> key multiset" where
  "parKeys sc attempts p =
     mset (map recKey (pa_Items p)) + mset (map jobKey (concat (map workerJobs (pa_Workers p)))) +
     mset (map jobKey (concat (map (jobsOf sc attempts) [pa_Next p..<iterations sc])))"

lemma mset_concat_update:
  "i < length xs \<Longrightarrow> mset (concat (map f (xs[i := y]))) + mset (f (xs ! i)) = mset (concat (map f xs)) + mset (f y)"
proof (induction xs arbitrary: i)
  case (Cons x xs)
  then show ?case
  proof (cases i)
    case (Suc n)
    then show ?thesis
      using Cons by (simp add: add.assoc)
  qed (simp add: add_ac)
qed simp

lemma workers_update:
  assumes "i < length ws" and "ws ! i = w"
  shows "image_mset jobKey (mset (concat (map workerJobs (ws[i := w'])))) + image_mset jobKey (mset (workerJobs w)) =
    image_mset jobKey (mset (concat (map workerJobs ws))) + image_mset jobKey (mset (workerJobs w'))"
  using arg_cong [OF mset_concat_update [OF assms(1), of workerJobs w'], of "image_mset jobKey"] assms(2)
  by (simp del: mset_concat mset_map)

lemma step_keys:
  assumes "parStep iter runID sc attempts p p'"
  shows "parKeys sc attempts p' \<subseteq># parKeys sc attempts p"
    and "\<not> pa_Canceled p' \<Longrightarrow> parKeys sc attempts p' = parKeys sc attempts p \<and> \<not> pa_Canceled p"
proof -
  have "parKeys sc attempts p' = parKeys sc attempts p \<or> pa_Canceled p' \<and> parKeys sc attempts p' \<subseteq># parKeys sc attempts p"
    using assms
  proof (cases rule: parStep.cases)
    case (send i)
    have "[pa_Next p..<iterations sc] = pa_Next p # [Suc (pa_Next p)..<iterations sc]"
      using send(2) by (simp add: upt_conv_Cons)
    then show ?thesis
      using workers_update [OF send(4,5), of "Serving (jobsOf sc attempts (pa_Next p))"] send(1)
      by (simp add: parKeys_def add_ac)
  next
    case (exec i k req a js io)
    then show ?thesis
      using workers_update [OF exec(2,3), of "Serving js"] by (simp add: parKeys_def jobKey_def add_ac)
  next
    case (served i)
    then show ?thesis
      using workers_update [OF served(2,3), of Receiving] by (simp add: parKeys_def)
  next
    case (abandon i js)
    then show ?thesis
      using workers_update [OF abandon(3,4), of Returned]
      by (simp add: parKeys_def) (metis mset_subset_eq_add_left)
  next
    case (leave i)
    then show ?thesis
      using workers_update [OF leave(3,4), of Returned] by (simp add: parKeys_def)
  qed (simp_all add: parKeys_def)
  moreover have "pa_Canceled p \<Longrightarrow> pa_Canceled p'"
    using assms by (cases rule: parStep.cases) simp_all
  ultimately show "parKeys sc attempts p' \<subseteq># parKeys sc attempts p"
    and "\<not> pa_Canceled p' \<Longrightarrow> parKeys sc attempts p' = parKeys sc attempts p \<and> \<not> pa_Canceled p"
    by auto
qed

text \<open>The bookkeeping of the channel and the workers.\<close>

definition parWf :: "Scenario \<Rightarrow> Par \<Rightarrow> bool" where
  "parWf sc p \<longleftrightarrow>
     length (pa_Workers p) = nat (tr_Concurrency (sc_Traffic sc)) \<and> pa_Next p \<le> iterations sc \<and>
     (pa_Closed p \<longrightarrow> pa_Next p = iterations sc \<or> pa_Canceled p) \<and>
     (Returned \<in> set (pa_Workers p) \<longrightarrow> pa_Closed p \<or> pa_Canceled p)"

lemma step_parWf:
  assumes "parStep iter runID sc attempts p p'" and "parWf sc p"
  shows "parWf sc p'"
proof -
  have upd: "Returned \<in> set (xs[i := x]) \<Longrightarrow> x \<noteq> Returned \<Longrightarrow> Returned \<in> set xs" for xs i x
    using set_update_subset_insert [of xs i x] by auto
  show ?thesis
    using assms by (cases rule: parStep.cases) (auto simp: parWf_def dest: upd)
qed

lemma reachable_par:
  assumes "parReachable iter runID sc attempts p"
  shows "parWf sc p" and "parKeys sc attempts p \<subseteq># mset (map jobKey (allJobs sc attempts))"
    and "\<not> pa_Canceled p \<Longrightarrow> parKeys sc attempts p = mset (map jobKey (allJobs sc attempts))"
  using assms
proof (induction rule: rtranclp_induct)
  case base
  have "concat (map workerJobs (pa_Workers (parInit sc))) = []"
    by (simp add: parInit_def)
  then have k: "parKeys sc attempts (parInit sc) = mset (map jobKey (allJobs sc attempts))"
    by (simp add: parKeys_def parInit_def allJobs_def)
  {
    case 1
    show ?case by (auto simp: parWf_def parInit_def)
  next
    case 2
    show ?case by (simp add: k)
  next
    case 3
    show ?case by (rule k)
  }
next
  case (step p p')
  {
    case 1
    show ?case using step step_parWf by blast
  next
    case 2
    show ?case using step step_keys(1) subset_mset.order_trans by blast
  next
    case 3
    then show ?case using step step_keys(2) by metis
  }
qed

text \<open>What is left to do: every step reduces it.\<close>

definition iterationSize :: "Scenario \<Rightarrow> nat \<Rightarrow> nat" where
  "iterationSize sc attempts = attempts * length (sc_Requests sc)"

lemma length_jobsOf [simp]: "length (jobsOf sc attempts k) = iterationSize sc attempts"
  by (simp add: jobsOf_def iterationSize_def length_concat o_def sum_list_triv)

fun workerWeight :: "pworker \<Rightarrow> nat" where
  "workerWeight Receiving = 1"
| "workerWeight (Serving js) = length js + 2"
| "workerWeight Returned = 0"

definition unsentWeight :: "Scenario \<Rightarrow> nat \<Rightarrow> nat \<Rightarrow> nat" where
  "unsentWeight sc attempts n = (iterations sc - n) * (iterationSize sc attempts + 2)"

lemma unsentWeight_Suc:
  "n < iterations sc \<Longrightarrow> unsentWeight sc attempts n = unsentWeight sc attempts (Suc n) + iterationSize sc attempts + 2"
  unfolding unsentWeight_def by (metis Suc_diff_Suc add.assoc add.commute mult_Suc)

definition parMeasure :: "Scenario \<Rightarrow> nat \<Rightarrow> Par \<Rightarrow> nat" where
  "parMeasure sc attempts p =
     unsentWeight sc attempts (pa_Next p) + sum_list (map workerWeight (pa_Workers p)) +
     (if pa_Closed p then 0 else 1) + (if pa_Canceled p then 0 else 1)"

lemma sum_list_update_nat:
  "i < length xs \<Longrightarrow> sum_list (map f (xs[i := y])) + (f (xs ! i) :: nat) = sum_list (map f xs) + f y"
proof (induction xs arbitrary: i)
  case (Cons x xs)
  then show ?case
  proof (cases i)
    case (Suc n)
    then show ?thesis
      using Cons by (simp add: add.assoc)
  qed simp
qed simp

lemma step_measure:
  assumes "parStep iter runID sc attempts p p'"
  shows "parMeasure sc attempts p' < parMeasure sc attempts p"
  using assms
proof (cases rule: parStep.cases)
  case (send i)
  then show ?thesis
    using sum_list_update_nat [OF send(4), of workerWeight "Serving (jobsOf sc attempts (pa_Next p))"]
      unsentWeight_Suc [OF send(2), of attempts]
    by (simp add: parMeasure_def)
next
  case (exec i k req a js io)
  then show ?thesis
    using sum_list_update_nat [OF exec(2), of workerWeight "Serving js"] by (simp add: parMeasure_def)
next
  case (served i)
  then show ?thesis
    using sum_list_update_nat [OF served(2), of workerWeight Receiving] by (simp add: parMeasure_def)
next
  case (abandon i js)
  then show ?thesis
    using sum_list_update_nat [OF abandon(3), of workerWeight Returned] by (simp add: parMeasure_def)
next
  case (leave i)
  then show ?thesis
    using sum_list_update_nat [OF leave(3), of workerWeight Returned] by (simp add: parMeasure_def)
qed (simp_all add: parMeasure_def)

lemma progress:
  assumes wf: "parWf sc p" and "1 \<le> tr_Concurrency (sc_Traffic sc)" and "\<not> parDone p"
  shows "\<exists>p'. parStep iter runID sc attempts p p'"
proof (cases "\<exists>i js. i < length (pa_Workers p) \<and> pa_Workers p ! i = Serving js")
  case True
  then obtain i js where i: "i < length (pa_Workers p)" "pa_Workers p ! i = Serving js"
    by blast
  show ?thesis
  proof (cases js)
    case Nil
    with i show ?thesis using served by blast
  next
    case (Cons j js')
    with i show ?thesis using exec by (cases j) blast
  qed
next
  case idle: False
  have ws: "length (pa_Workers p) > 0"
    using wf assms(2) by (simp add: parWf_def)
  show ?thesis
  proof (cases "pa_Closed p")
    case True
    then obtain i where "i < length (pa_Workers p)" "pa_Workers p ! i \<noteq> Returned"
      using assms(3) by (auto simp: parDone_def list_all_length)
    then have "pa_Workers p ! i = Receiving"
      using idle by (cases "pa_Workers p ! i") auto
    with True show ?thesis
      using leave \<open>i < length (pa_Workers p)\<close> by blast
  next
    case open_: False
    show ?thesis
    proof (cases "pa_Next p = iterations sc \<or> pa_Canceled p")
      case True
      then show ?thesis using close open_ by blast
    next
      case False
      then have "pa_Workers p ! 0 \<noteq> Returned"
        using wf open_ ws nth_mem [OF ws] by (auto simp: parWf_def simp del: nth_mem)
      then have "pa_Workers p ! 0 = Receiving"
        using idle ws by (cases "pa_Workers p ! 0") auto
      moreover have "pa_Next p < iterations sc"
        using wf False by (simp add: parWf_def)
      ultimately show ?thesis
        using send open_ ws by blast
    qed
  qed
qed


lemma parallel_keys:
  assumes "parReachable iter runID sc attempts p" and "parDone p"
  shows "mset (map recKey (pa_Items p)) \<subseteq># mset (map jobKey (allJobs sc attempts)) \<and>
    (\<not> pa_Canceled p \<longrightarrow> mset (map recKey (pa_Items p)) = mset (map jobKey (allJobs sc attempts)))"
proof -
  have idle: "concat (map workerJobs (pa_Workers p)) = []"
    using assms(2) by (auto simp: parDone_def list_all_iff)
  have sub: "mset (map recKey (pa_Items p)) \<subseteq># parKeys sc attempts p"
    by (simp add: parKeys_def add.assoc)
  have "mset (map recKey (pa_Items p)) = parKeys sc attempts p" if "\<not> pa_Canceled p"
    using reachable_par(1) [OF assms(1)] assms(2) that idle by (auto simp: parKeys_def parWf_def parDone_def)
  with sub reachable_par(2,3) [OF assms(1)] show ?thesis
    using subset_mset.order_trans by auto
qed

text \<open>How often a request name is to be sent under an iteration and an attempt (or a racer) out of \<open>n\<close>.\<close>

fun expectedCount :: "Scenario \<Rightarrow> int \<Rightarrow> key \<Rightarrow> nat" where
  "expectedCount sc n (name, k, a) =
     (if 0 \<le> k \<and> k < tr_Iterations (sc_Traffic sc) \<and> 1 \<le> a \<and> a \<le> n
      then length (filter (\<lambda>r. rq_Name r = name) (sc_Requests sc)) else 0)"

lemma count_attempts:
  "count (mset (map (\<lambda>a. (rq_Name req, int k, int a)) [1..<Suc attempts])) (name, i, a) =
     (if i = int k \<and> 1 \<le> a \<and> a \<le> int attempts \<and> rq_Name req = name then 1 else 0)"
proof -
  let ?xs = "map (\<lambda>a. (rq_Name req, int k, int a)) [1..<Suc attempts]"
  have "distinct ?xs"
    by (auto simp: distinct_map inj_on_def)
  moreover have "(name, i, a) \<in> set ?xs \<longleftrightarrow> i = int k \<and> 1 \<le> a \<and> a \<le> int attempts \<and> rq_Name req = name"
    by (auto simp: image_iff Bex_def intro!: exI [of _ "nat a"])
  ultimately show ?thesis
    using distinct_count_atmost_1 by metis
qed

lemma count_iteration:
  "count (mset (map jobKey (jobsOf sc attempts k))) (name, i, a) =
     (if i = int k \<and> 1 \<le> a \<and> a \<le> int attempts then length (filter (\<lambda>r. rq_Name r = name) (sc_Requests sc)) else 0)"
proof -
  have "count (mset (map jobKey (concat (map (\<lambda>req. map (\<lambda>a. (k, req, a)) [1..<Suc attempts]) rs)))) (name, i, a) =
      (if i = int k \<and> 1 \<le> a \<and> a \<le> int attempts then length (filter (\<lambda>r. rq_Name r = name) rs) else 0)" for rs
  proof (induction rs)
    case (Cons req rs)
    then show ?case
      using count_attempts [of req k attempts name i a] by (simp add: jobKey_def o_def del: upt_Suc mset_map)
  qed simp
  then show ?thesis
    by (simp add: jobsOf_def)
qed

lemma count_allJobs: "count (mset (map jobKey (allJobs sc attempts))) key = expectedCount sc (int attempts) key"
proof -
  obtain name i a where key: "key = (name, i, a)"
    by (cases key)
  have "count (mset (map jobKey (concat (map (jobsOf sc attempts) [0..<n])))) key =
      (if 0 \<le> i \<and> i < int n \<and> 1 \<le> a \<and> a \<le> int attempts then length (filter (\<lambda>r. rq_Name r = name) (sc_Requests sc)) else 0)" for n
  proof (induction n)
    case (Suc n)
    then show ?case
      using count_iteration [of sc attempts n name i a] by (auto simp: key simp del: mset_map)
  qed auto
  then show ?thesis
    by (simp add: allJobs_def iterations_def key)
qed

text \<open>
  C8: the traffic phase sends every request once. When the workers are done and the run was not canceled, the collector
  holds, for each iteration and each attempt, exactly one record for each request of the scenario and no other; when it
  was canceled, at most one.
\<close>

theorem runParallel_exactly_once:
  assumes "parReachable iter runID sc attempts p" and "parDone p"
  shows "count (mset (map recKey (pa_Items p))) key \<le> expectedCount sc (int attempts) key \<and>
    (\<not> pa_Canceled p \<longrightarrow> count (mset (map recKey (pa_Items p))) key = expectedCount sc (int attempts) key)"
  using parallel_keys [OF assms] unfolding count_allJobs [symmetric] by (metis mset_subset_eq_count)

text \<open>The race: each racer sends each request of each iteration once.\<close>

definition roundKeys :: "Scenario \<Rightarrow> nat \<Rightarrow> Request \<Rightarrow> key list" where
  "roundKeys sc k req = map (\<lambda>n. (rq_Name req, int k, int n + 1)) [0..<nat (tr_Concurrency (sc_Traffic sc))]"

definition raceKeys :: "Scenario \<Rightarrow> (nat \<times> Request) list \<Rightarrow> key list" where
  "raceKeys sc rounds = concat (map (\<lambda>(k, req). roundKeys sc k req) rounds)"

lemma mset_raceRecords:
  "mset (map recKey (raceRecords iter runID sc k req racers)) =
     image_mset (\<lambda>n. (rq_Name req, int k, int n + 1)) (mset (map fst racers))"
  by (induction racers) (auto simp: raceRecords_def)

lemma raceRun_keys:
  assumes "raceRun iter runID sc rounds records c"
  shows "mset (map recKey records) \<subseteq># mset (raceKeys sc rounds) \<and>
    (\<not> c \<longrightarrow> mset (map recKey records) = mset (raceKeys sc rounds))"
  using assms
proof (induction rule: raceRun.induct)
  case (round racers rounds records c k req)
  have "mset (map recKey (raceRecords iter runID sc k req racers)) = mset (roundKeys sc k req)"
    unfolding mset_raceRecords round(1) roundKeys_def by simp
  with round.IH show ?case
    by (auto simp: raceKeys_def simp del: mset_map)
next
  case (cut racers k req rounds)
  have "mset (map recKey (raceRecords iter runID sc k req racers)) \<subseteq># mset (roundKeys sc k req)"
    unfolding mset_raceRecords roundKeys_def mset_map [of _ "[0..<_]"] by (rule image_mset_subseteq_mono [OF cut])
  then show ?case
    by (auto simp: raceKeys_def simp del: mset_map intro: subset_mset.order_trans)
qed (simp_all add: raceKeys_def)

lemma concat_concat: "concat (concat xss) = concat (map concat xss)"
  by (induction xss) simp_all

lemma raceKeys_jobs:
  "raceKeys sc (raceRounds sc) = map jobKey (allJobs sc (nat (tr_Concurrency (sc_Traffic sc))))"
proof -
  have "map (\<lambda>n. (rq_Name req, int k, int n + 1)) [0..<c] = map jobKey (map (\<lambda>a. (k, req, a)) [1..<Suc c])" for req k c
    by (induction c) (simp_all add: jobKey_def)
  then show ?thesis
    by (simp add: raceKeys_def raceRounds_def roundKeys_def allJobs_def jobsOf_def map_concat concat_concat o_def
        del: upt_Suc)
qed


section \<open>One request\<close>

text \<open>
  A record tells what happened to its request: it carries the request's name, iteration and attempt, its preview holds
  at most 4096 bytes of the body, and it has no error exactly when the request could be built, the target answered, the
  body was read, and the status is an expected one or, where none is expected, below 500.
\<close>

theorem executeRequest_record:
  assumes "executeRequest iter io runID sc req k a = (rec, es)"
    and "\<And>r err. io_Do io r = Inl err \<Longrightarrow> err \<noteq> ''''"
    and "\<And>err. prepareRequest iter runID sc req k a = Inl err \<Longrightarrow> err \<noteq> ''''"
    and "\<And>r resp. io_Do io r = Inr resp \<Longrightarrow> hr_BodyErr resp \<noteq> Some ''''"
  shows "recKey rec = (rq_Name req, k, a) \<and> length (rr_BodyPreview rec) \<le> 4096 \<and>
    (rr_Error rec = '''' \<longleftrightarrow>
      (\<exists>r resp. prepareRequest iter runID sc req k a = Inr r \<and> io_Do io r = Inr resp \<and>
         snd (readLimited 4097 resp) = None \<and> rr_StatusCode rec = hr_StatusCode resp \<and>
         (if expectedStatuses req = [] then hr_StatusCode resp < 500 else hr_StatusCode resp \<in> set (expectedStatuses req))))"
proof (cases "prepareRequest iter runID sc req k a")
  case (Inl err)
  then show ?thesis
    using assms(1) assms(3) [OF Inl] by (auto simp: executeRequest_def Let_def recKey_def)
next
  case prep: (Inr r)
  show ?thesis
  proof (cases "io_Do io r")
    case (Inl err)
    then show ?thesis
      using assms(1) assms(2) [OF Inl] prep by (auto simp: executeRequest_def Let_def recKey_def)
  next
    case (Inr resp)
    have "recKey rec = (rq_Name req, k, a)"
      using recKey_executeRequest [of iter io runID sc req k a] assms(1) by simp
    moreover have "length (rr_BodyPreview rec) \<le> 4096 \<and>
      (rr_Error rec = '''' \<longleftrightarrow> snd (readLimited 4097 resp) = None \<and>
         (if expectedStatuses req = [] then hr_StatusCode resp < 500 else hr_StatusCode resp \<in> set (expectedStatuses req))) \<and>
      rr_StatusCode rec = hr_StatusCode resp"
      using assms(1) assms(4) [OF Inr] prep Inr
      by (auto simp: executeRequest_def recordResponse_def readLimited_def maxBodyPreviewBytes_def Let_def
          unexpectedStatus_def containsStatus_def list_ex_iff split: option.splits if_splits)
    ultimately show ?thesis
      using prep Inr by auto
  qed
qed

text \<open>
  A request is labelled with the run. The five headers that identify the run, the scenario, the request, the iteration
  and the attempt have the runner's values in every request it sends, whatever headers the scenario sets.
\<close>

theorem prepareRequest_labels:
  assumes "prepareRequest iter runID sc req k a = Inr r"
  shows "headerGet ''X-Wreckr-Run-ID'' r = runID \<and> headerGet ''X-Wreckr-Scenario'' r = sc_Name sc \<and>
    headerGet ''X-Wreckr-Request'' r = rq_Name req \<and> headerGet ''X-Wreckr-Iteration'' r = Itoa k \<and>
    headerGet ''X-Wreckr-Attempt'' r = Itoa a"
proof -
  have keys: "CanonicalHeaderKey ''X-Wreckr-Run-ID'' = ''X-Wreckr-Run-Id''"
    "CanonicalHeaderKey ''X-Wreckr-Scenario'' = ''X-Wreckr-Scenario''"
    "CanonicalHeaderKey ''X-Wreckr-Request'' = ''X-Wreckr-Request''"
    "CanonicalHeaderKey ''X-Wreckr-Iteration'' = ''X-Wreckr-Iteration''"
    "CanonicalHeaderKey ''X-Wreckr-Attempt'' = ''X-Wreckr-Attempt''"
    by code_simp+
  show ?thesis
    using assms
    by (auto simp: prepareRequest_def headerGet_def headerSet_def keys Let_def split: sum.splits prod.splits)
qed

section \<open>The checks\<close>

lemma countLoop_filter: "countLoop iv n rs = n + int (length (filter (countsRecord iv) rs))"
  by (induction iv n rs rule: countLoop.induct) auto

text \<open>The number of responses an invariant counts: those of its request, if it names one, with its status, if it gives one.\<close>

definition responseCount :: "Invariant \<Rightarrow> ResponseRecord list \<Rightarrow> int" where
  "responseCount iv records = int (length (filter (\<lambda>r.
     iv_Request iv \<in> {'''', rr_RequestName r} \<and> iv_Status iv \<in> {None, Some (rr_StatusCode r)}) records))"

definition countWithin :: "int option \<Rightarrow> int option \<Rightarrow> int option \<Rightarrow> int \<Rightarrow> bool" where
  "countWithin eq lo hi n \<longleftrightarrow> (case eq of None \<Rightarrow> True | Some e \<Rightarrow> n = e) \<and>
     (case lo of None \<Rightarrow> True | Some l \<Rightarrow> l \<le> n) \<and> (case hi of None \<Rightarrow> True | Some h \<Rightarrow> n \<le> h)"

lemma countLoop_responseCount: "countLoop iv 0 records = responseCount iv records"
proof -
  have "countsRecord iv = (\<lambda>r. iv_Request iv \<in> {'''', rr_RequestName r} \<and> iv_Status iv \<in> {None, Some (rr_StatusCode r)})"
    by (rule ext) (auto simp: countsRecord_def split: option.split)
  then show ?thesis
    by (simp add: countLoop_filter responseCount_def)
qed

lemma evaluateResponseCount_Passed:
  "ck_Passed (evaluateResponseCount iv records) \<longleftrightarrow>
     countWithin (iv_Equals iv) (iv_Min iv) (iv_Max iv) (responseCount iv records)"
  unfolding evaluateResponseCount_def Let_def countWithin_def countLoop_responseCount
  by (simp add: case_prod_beta split: option.split)

definition thresholdsHold :: "Thresholds \<Rightarrow> Summary \<Rightarrow> bool" where
  "thresholdsHold th s \<longleftrightarrow>
     (case th_MaxErrorRate th of None \<Rightarrow> True | Some l \<Rightarrow> sm_ErrorRate s \<le> l) \<and>
     (case th_P95MS th of None \<Rightarrow> True | Some l \<Rightarrow> la_P95MS (sm_Latency s) \<le> l)"

lemma evaluateThresholds_Passed:
  "list_all ck_Passed (evaluateThresholds sc records) \<longleftrightarrow> thresholdsHold (sc_Thresholds sc) (Summarize records)"
  by (auto simp: evaluateThresholds_def thresholdsHold_def Let_def split: option.split)

text \<open>
  A count invariant passes exactly when the number of responses with its request name and status is the
  required one and within the required bounds, and the number it reports is that number.
\<close>

theorem response_count_invariant:
  "(ck_Passed (evaluateResponseCount iv records) \<longleftrightarrow>
      countWithin (iv_Equals iv) (iv_Min iv) (iv_Max iv) (responseCount iv records)) \<and>
   ck_Actual (evaluateResponseCount iv records) = Itoa (responseCount iv records)"
  unfolding evaluateResponseCount_Passed
  by (simp add: evaluateResponseCount_def Let_def countLoop_responseCount case_prod_beta)

lemma controlLoop_shape:
  "controlLoop iter runID sc phase rs = (records, checks, es) \<Longrightarrow>
     length records = length checks \<and> length checks \<le> length rs \<and> list_all ck_Passed (butlast checks) \<and>
     map ck_Passed checks = map (\<lambda>r. rr_Error r = '''') records"
proof (induction iter runID sc phase rs arbitrary: records checks es rule: controlLoop.induct)
  case (2 iter runID sc phase req io rest)
  then show ?case
    by (fastforce simp: Let_def controlCheck_def split: if_splits prod.splits)
qed simp

text \<open>
  Setup and teardown stop at the first failure: there is one check per response, never more than requests, every check
  but the last has passed, and the number of responses in the completed event is the number of requests sent.
\<close>

theorem control_requests_stop:
  assumes "runControlRequests iter ios runID sc phase requests = (records, checks, es)"
  shows "length records = length checks \<and> length checks \<le> length requests \<and> list_all ck_Passed (butlast checks) \<and>
    map ck_Passed checks = map (\<lambda>r. rr_Error r = '''') records"
proof (cases "requests = []")
  case False
  then obtain es' where "controlLoop iter runID sc phase (map (\<lambda>(i, r). (r, ios i)) (enumerate 0 requests)) = (records, checks, es')"
    using assms by (auto simp: runControlRequests_def Let_def split: prod.splits if_splits)
  from controlLoop_shape [OF this] show ?thesis
    by simp
qed (use assms in \<open>simp add: runControlRequests_def\<close>)

section \<open>The verdict of a run\<close>

definition effectiveScenario :: "RunIO \<Rightarrow> Scenario \<Rightarrow> Scenario" where
  "effectiveScenario w sc = Normalized (WithEnv (ri_Env w) sc)"

definition effectiveRunID :: "RunIO \<Rightarrow> string \<Rightarrow> string" where
  "effectiveRunID w optRunID = (if optRunID = '''' then ri_NewRunID w else optRunID)"

definition setupChecks :: "RunIO \<Rightarrow> string \<Rightarrow> Scenario \<Rightarrow> CheckResult list" where
  "setupChecks w runID sc = fst (snd (runControlRequests (ri_Iter w) (ri_Setup w) runID sc ''setup'' (sc_Setup sc)))"

definition teardownChecks :: "RunIO \<Rightarrow> string \<Rightarrow> Scenario \<Rightarrow> CheckResult list" where
  "teardownChecks w runID sc = fst (snd (runControlRequests (ri_Iter w) (ri_Teardown w) runID sc ''teardown'' (sc_Teardown sc)))"

definition invariantHolds :: "RunIO \<Rightarrow> string \<Rightarrow> Scenario \<Rightarrow> ResponseRecord list \<Rightarrow> nat \<times> Invariant \<Rightarrow> bool" where
  "invariantHolds w runID sc records x \<longleftrightarrow>
     (if iv_Type (snd x) = ''response_count''
      then countWithin (iv_Equals (snd x)) (iv_Min (snd x)) (iv_Max (snd x)) (responseCount (snd x) records)
      else iv_Type (snd x) = ''http_probe'' \<longrightarrow>
        ck_Passed (evaluateHTTPProbe (ri_JsonErr w) (ri_Iter w) (ri_Probes w (fst x)) runID sc (snd x)))"

lemma list_all_concat_map: "(\<And>x. list_all P (f x) = Q x) \<Longrightarrow> list_all P (concat (map f xs)) = list_all Q xs"
  by (induction xs) auto

lemma evaluateInvariants_Passed:
  "list_all ck_Passed (evaluateInvariants (ri_JsonErr w) (ri_Iter w) (ri_Probes w) runID sc records) \<longleftrightarrow>
     list_all (invariantHolds w runID sc records) (enumerate 0 (sc_Invariants sc))"
  unfolding evaluateInvariants_def
  by (rule list_all_concat_map)
    (simp add: evaluateInvariant_def invariantHolds_def evaluateResponseCount_Passed case_prod_beta)

lemma hasFailedCheck_iff: "hasFailedCheck cs \<longleftrightarrow> \<not> list_all ck_Passed cs"
  by (simp add: hasFailedCheck_def list_all_iff list_ex_iff)

lemma run_checks:
  assumes "RunWithOptions w optRunID sc0 = (Inr rep, es)"
    and "sc = effectiveScenario w sc0" and "runID = effectiveRunID w optRunID"
    and "records = fst (ri_Traffic w runID sc)"
  shows "(rp_Status rep = StatusPassed \<longleftrightarrow>
      list_all ck_Passed (setupChecks w runID sc) \<and> \<not> list_ex failedRecord records \<and>
      thresholdsHold (sc_Thresholds sc) (Summarize records) \<and>
      list_all (invariantHolds w runID sc records) (enumerate 0 (sc_Invariants sc)) \<and>
      list_all ck_Passed (teardownChecks w runID sc)) \<and>
    (\<not> list_all ck_Passed (setupChecks w runID sc) \<longrightarrow>
      rp_Responses rep = fst (runControlRequests (ri_Iter w) (ri_Setup w) runID sc ''setup'' (sc_Setup sc))) \<and>
    rp_RunID rep = runID \<and> Validate sc = None"
proof -
  obtain r1 c1 e1 where su: "runControlRequests (ri_Iter w) (ri_Setup w) runID sc ''setup'' (sc_Setup sc) = (r1, c1, e1)"
    by (cases "runControlRequests (ri_Iter w) (ri_Setup w) runID sc ''setup'' (sc_Setup sc)")
  obtain r2 c2 e2 where tear: "runControlRequests (ri_Iter w) (ri_Teardown w) runID sc ''teardown'' (sc_Teardown sc) = (r2, c2, e2)"
    by (cases "runControlRequests (ri_Iter w) (ri_Teardown w) runID sc ''teardown'' (sc_Teardown sc)")
  obtain e3 where traffic: "ri_Traffic w runID sc = (records, e3)"
    using assms(4) by (cases "ri_Traffic w runID sc") simp
  note fold = assms(2) [symmetric, unfolded effectiveScenario_def] assms(3) [symmetric, unfolded effectiveRunID_def]
  have v: "Validate sc = None"
    using assms(1) by (auto simp: RunWithOptions_def fold Let_def split: option.splits)
  have run: "rep = (if hasFailedCheck c1 then Build (ri_FinishedAt w) runID (sc_Name sc) (ri_StartedAt w) r1 c1 []
      else let th = evaluateThresholds sc records;
               ivs = evaluateInvariants (ri_JsonErr w) (ri_Iter w) (ri_Probes w) runID sc records
           in if hasFailedCheck c2 then Build (ri_FinishedAt w) runID (sc_Name sc) (ri_StartedAt w) (records @ r2) (th @ c2) ivs
              else Build (ri_FinishedAt w) runID (sc_Name sc) (ri_StartedAt w) records th ivs)"
    using assms(1) unfolding RunWithOptions_def Let_def fold
    by (simp add: v su tear traffic split: if_splits)
  have st: "StatusPassed \<noteq> StatusFailed" "StatusFailed \<noteq> StatusPassed"
    by (simp_all add: report_status)
  show ?thesis
    using v unfolding run setupChecks_def teardownChecks_def su tear
    by (simp add: hasFailedCheck_iff Build_Status Let_def evaluateThresholds_Passed evaluateInvariants_Passed st) blast
qed

text \<open>
  C10: a run passes exactly when everything it checks holds: no setup request failed, no request of the traffic phase failed,
  the error rate and the 95th percentile are within their thresholds, every invariant holds, and no teardown request
  failed. A run whose setup fails reports the setup responses only and sends no traffic.
\<close>

theorem run_verdict:
  assumes "RunWithOptions w optRunID sc0 = (Inr rep, es)"
    and "sc = effectiveScenario w sc0" and "runID = effectiveRunID w optRunID"
    and "records = fst (ri_Traffic w runID sc)"
  shows "(rp_Status rep = StatusPassed \<longleftrightarrow>
      list_all ck_Passed (setupChecks w runID sc) \<and> \<not> list_ex failedRecord records \<and>
      thresholdsHold (sc_Thresholds sc) (Summarize records) \<and>
      list_all (invariantHolds w runID sc records) (enumerate 0 (sc_Invariants sc)) \<and>
      list_all ck_Passed (teardownChecks w runID sc)) \<and>
    (\<not> list_all ck_Passed (setupChecks w runID sc) \<longrightarrow>
      rp_Responses rep = fst (runControlRequests (ri_Iter w) (ri_Setup w) runID sc ''setup'' (sc_Setup sc))) \<and>
    rp_RunID rep = runID \<and> Validate sc = None"
  using assms by (rule run_checks)

section \<open>Concrete runs\<close>

definition okIO :: "string \<Rightarrow> ReqIO" where
  "okIO body = \<lparr>io_Admit = True, io_CtxErr = '''', io_Now = 5, io_Elapsed = 2000000,
     io_Do = (\<lambda>_. Inr \<lparr>hr_StatusCode = 200, hr_Body = body, hr_BodyErr = None\<rparr>)\<rparr>"

definition oneShot :: Scenario where
  "oneShot = checkoutRace\<lparr>sc_Traffic := \<lparr>tr_Type = TrafficLoad, tr_Concurrency = 1, tr_Iterations = 1, tr_RatePerSecond = 0,
     tr_Retry = \<lparr>rp_Attempts = 0, rp_BackoffMS = 0\<rparr>\<rparr>, sc_Requests := [checkoutRequest]\<rparr>"

definition oneShotRecord :: ResponseRecord where
  "oneShotRecord = fst (executeRequest (\<lambda>m. m) (okIO '''') ''run_7'' oneShot checkoutRequest 0 1)"

definition oneShotEnd :: Par where
  "oneShotEnd = \<lparr>pa_Next = 1, pa_Closed = True, pa_Canceled = False, pa_Workers = [Returned], pa_Items = [oneShotRecord]\<rparr>"

lemma oneShot_traffic [simp]:
  "iterations oneShot = 1" "tr_Concurrency (sc_Traffic oneShot) = 1" "sc_Requests oneShot = [checkoutRequest]"
  "jobsOf oneShot (Suc 0) k = [(k, checkoutRequest, 1)]"
  by (simp_all add: iterations_def oneShot_def jobsOf_def)

lemma oneShotEnd_reachable: "parReachable (\<lambda>m. m) ''run_7'' oneShot 1 oneShotEnd"
proof -
  let ?step = "parStep (\<lambda>m. m) ''run_7'' oneShot 1"
  let ?p = "\<lambda>ws its. \<lparr>pa_Next = 1, pa_Closed = False, pa_Canceled = False, pa_Workers = ws, pa_Items = its\<rparr>"
  have "?step (parInit oneShot) (?p [Serving [(0, checkoutRequest, 1)]] [])"
    using send [of "parInit oneShot" oneShot 0 "\<lambda>m. m" "''run_7''" 1] by (simp add: parInit_def)
  moreover have "?step (?p [Serving [(0, checkoutRequest, 1)]] []) (?p [Serving []] [oneShotRecord])"
    using exec [of 0 "?p [Serving [(0, checkoutRequest, 1)]] []" 0 checkoutRequest 1 "[]" "\<lambda>m. m" "''run_7''" oneShot 1 "okIO ''''"]
    by (simp add: oneShotRecord_def)
  moreover have "?step (?p [Serving []] [oneShotRecord]) (?p [Receiving] [oneShotRecord])"
    using served [of 0 "?p [Serving []] [oneShotRecord]" "\<lambda>m. m" "''run_7''" oneShot 1] by simp
  moreover have "?step (?p [Receiving] [oneShotRecord]) (oneShotEnd\<lparr>pa_Workers := [Receiving]\<rparr>)"
    using close [of "?p [Receiving] [oneShotRecord]" oneShot "\<lambda>m. m" "''run_7''" 1] by (simp add: oneShotEnd_def)
  moreover have "?step (oneShotEnd\<lparr>pa_Workers := [Receiving]\<rparr>) oneShotEnd"
    using leave [of "oneShotEnd\<lparr>pa_Workers := [Receiving]\<rparr>" 0 "\<lambda>m. m" "''run_7''" oneShot 1] by (simp add: oneShotEnd_def)
  ultimately show ?thesis
    by (meson converse_rtranclp_into_rtranclp r_into_rtranclp)
qed


theorem runParallel_exactly_once_witness:
  "count (mset (map recKey (pa_Items oneShotEnd))) (''checkout'', 0, 1) = 1"
proof -
  have "parDone oneShotEnd" "\<not> pa_Canceled oneShotEnd"
    by (simp_all add: oneShotEnd_def parDone_def)
  moreover have "expectedCount oneShot (int 1) (''checkout'', 0, 1) = 1"
    by code_simp
  ultimately show ?thesis
    using runParallel_exactly_once [OF oneShotEnd_reachable, of "(''checkout'', 0, 1)"] by simp
qed


lemma oneShot_prepared: "\<exists>r. prepareRequest (\<lambda>m. m) ''run_7'' oneShot checkoutRequest 0 1 = Inr r"
proof -
  have "isl (prepareRequest (\<lambda>m. m) ''run_7'' oneShot checkoutRequest 0 1) = False"
    by code_simp
  then show ?thesis
    by (cases "prepareRequest (\<lambda>m. m) ''run_7'' oneShot checkoutRequest 0 1") auto
qed

theorem executeRequest_record_witness:
  "recKey oneShotRecord = (''checkout'', 0, 1) \<and> rr_Error oneShotRecord \<noteq> '''' \<and> length (rr_BodyPreview oneShotRecord) \<le> 4096"
proof -
  have prep: "prepareRequest (\<lambda>m. m) ''run_7'' oneShot checkoutRequest 0 1 \<noteq> Inl e" for e
    using oneShot_prepared by auto
  have r: "executeRequest (\<lambda>m. m) (okIO '''') ''run_7'' oneShot checkoutRequest 0 1 =
      (oneShotRecord, snd (executeRequest (\<lambda>m. m) (okIO '''') ''run_7'' oneShot checkoutRequest 0 1))"
    by (simp add: oneShotRecord_def)
  have "recKey oneShotRecord = (rq_Name checkoutRequest, 0, 1) \<and> length (rr_BodyPreview oneShotRecord) \<le> 4096 \<and>
    (rr_Error oneShotRecord = '''' \<longleftrightarrow>
      (\<exists>r resp. prepareRequest (\<lambda>m. m) ''run_7'' oneShot checkoutRequest 0 1 = Inr r \<and> io_Do (okIO '''') r = Inr resp \<and>
         snd (readLimited 4097 resp) = None \<and> rr_StatusCode oneShotRecord = hr_StatusCode resp \<and>
         (if expectedStatuses checkoutRequest = [] then hr_StatusCode resp < 500
          else hr_StatusCode resp \<in> set (expectedStatuses checkoutRequest))))"
    by (rule executeRequest_record [OF r]) (simp_all add: okIO_def prep)
  moreover have "expectedStatuses checkoutRequest = [201, 409]" "rq_Name checkoutRequest = ''checkout''"
    by (simp_all add: expectedStatuses_def checkoutRequest_def)
  ultimately show ?thesis
    by (simp add: okIO_def)
qed

theorem prepareRequest_labels_witness:
  "\<exists>r. prepareRequest (\<lambda>m. m) ''run_7'' oneShot checkoutRequest 0 1 = Inr r \<and> headerGet ''X-Wreckr-Run-ID'' r = ''run_7'' \<and>
     headerGet ''X-Wreckr-Attempt'' r = Itoa 1"
proof -
  obtain r where "prepareRequest (\<lambda>m. m) ''run_7'' oneShot checkoutRequest 0 1 = Inr r"
    using oneShot_prepared by blast
  with prepareRequest_labels [OF this] show ?thesis
    by blast
qed

theorem control_requests_stop_witness:
  "length (fst (runControlRequests (\<lambda>m. m) (\<lambda>_. okIO '''') ''run_7'' oneShot ''setup'' [resetRequest])) =
     length (fst (snd (runControlRequests (\<lambda>m. m) (\<lambda>_. okIO '''') ''run_7'' oneShot ''setup'' [resetRequest])))"
proof -
  obtain records checks es where
    r: "runControlRequests (\<lambda>m. m) (\<lambda>_. okIO '''') ''run_7'' oneShot ''setup'' [resetRequest] = (records, checks, es)"
    by (cases "runControlRequests (\<lambda>m. m) (\<lambda>_. okIO '''') ''run_7'' oneShot ''setup'' [resetRequest]")
  from control_requests_stop [OF r] show ?thesis
    by (simp add: r)
qed

definition sampleRun :: RunIO where
  "sampleRun = \<lparr>ri_Env = (\<lambda>_. ''''), ri_StartedAt = 1, ri_FinishedAt = 2, ri_NewRunID = ''run_1'', ri_Iter = (\<lambda>m. m),
     ri_JsonErr = (\<lambda>_. ''invalid''), ri_Setup = (\<lambda>_. okIO ''''), ri_Traffic = (\<lambda>_ _. ([], [])),
     ri_Probes = (\<lambda>_. okIO [CHR ''['', CHR '']'']), ri_Teardown = (\<lambda>_. okIO '''')\<rparr>"

theorem run_verdict_witness:
  "\<exists>rep es. RunWithOptions sampleRun ''run_7'' oneShot = (Inr rep, es) \<and> rp_RunID rep = ''run_7'' \<and>
     rp_Status rep \<noteq> StatusPassed"
proof -
  have v: "Validate (effectiveScenario sampleRun oneShot) = None"
    by code_simp
  obtain res es where r: "RunWithOptions sampleRun ''run_7'' oneShot = (res, es)"
    by (cases "RunWithOptions sampleRun ''run_7'' oneShot")
  then obtain rep where rep: "res = Inr rep"
    using v by (auto simp: RunWithOptions_def effectiveScenario_def Let_def split: prod.splits if_splits)
  have id: "''run_7'' = effectiveRunID sampleRun ''run_7''"
    by (simp add: effectiveRunID_def)
  have "\<not> list_all (invariantHolds sampleRun ''run_7'' (effectiveScenario sampleRun oneShot) [])
      (enumerate 0 (sc_Invariants (effectiveScenario sampleRun oneShot)))"
    by code_simp
  with run_verdict [OF r [unfolded rep] refl id refl] r rep show ?thesis
    by (auto simp: sampleRun_def)
qed

text \<open>A probe compares by text what is not two numbers, so a string and a number of the same text are equal.\<close>

lemma valuesEqual_ignores_type: "valuesEqual (JStr ''true'') (JBool True) \<and> valuesEqual (JStr ''0'') (JNum 0)"
  by (simp add: valuesEqual_def formatBool_def FormatG_def)

text \<open>
  The limiter's interval is never zero, and never so long that the configured number of requests would not fit into a
  second: for a rate up to a billion per second it is the whole number of nanoseconds of a second divided by the rate.
\<close>

theorem limiter_interval:
  assumes "0 < rate"
  shows "\<exists>d. newRequestLimiter rate = Some d \<and> 1 \<le> d \<and>
    (rate \<le> Second \<longrightarrow> d * rate \<le> Second \<and> Second < (d + 1) * rate)"
proof -
  have q: "quot Second rate = Second div rate"
    using assms by (simp add: quot_def Second_def)
  have "Second = Second div rate * rate + Second mod rate" and "0 \<le> Second mod rate" and "Second mod rate < rate"
    using assms by simp_all
  then have "Second div rate * rate \<le> Second" and "Second < (Second div rate + 1) * rate"
    unfolding distrib_right by linarith+
  moreover have "rate \<le> Second \<Longrightarrow> 1 \<le> Second div rate"
    using assms by (simp add: pos_imp_zdiv_pos_iff int_one_le_iff_zero_less)
  ultimately show ?thesis
    using assms by (auto simp: newRequestLimiter_def q Let_def)
qed

theorem limiter_interval_witness: "\<exists>d. newRequestLimiter 3 = Some d \<and> 1 \<le> d"
  using limiter_interval [of 3] by auto

end
