(* ===== verification/GoEncode.thy ===== *)
theory GoEncode
  imports GoFmt
begin

text \<open>
  What the sources use of the encoder of \<^verbatim>\<open>encoding/json\<close>: \<^verbatim>\<open>Encoder.Encode\<close> without the escaping of HTML characters,
  followed by \<^verbatim>\<open>json.Indent\<close> with two blanks. A \<open>goval\<close> is a value to encode: a struct or a map is the list of the members it
  writes, in the order it writes them. Strings are bytes; the escapes for U+2028, U+2029 and invalid UTF-8 are left out.

  The last section shows that the parser of \<open>GoJson\<close> reads back what the encoder writes.
\<close>

section \<open>The encoder\<close>

datatype goval =
    GNull
  | GBool bool
  | GInt int
  | GFloat float64
  | GStr string
  | GArr "goval list"
  | GObj "(string \<times> goval) list"

definition encodeRawChar :: "char \<Rightarrow> string" where
  "encodeRawChar c = (if c \<in> set ''<>&'' then [c] else encodeChar c)"

definition encodeRaw :: "string \<Rightarrow> string" where
  "encodeRaw s = dquote # concat (map encodeRawChar s) @ [dquote]"

text \<open>A float64: the shortest digits, with an exponent outside \<open>10 ^ -6\<close> to \<open>10 ^ 21\<close>.\<close>

definition encodeExp :: "string \<Rightarrow> int \<Rightarrow> string" where
  "encodeExp ds ex =
     take 1 ds @ (if length ds > 1 then ''.'' @ drop 1 ds else '''') @ ''e'' @
     (if ex < 0 then ''-'' @ digits (nat (- ex)) else ''+'' @ padZeros 2 (digits (nat ex)))"

definition encodeFloat :: "float64 \<Rightarrow> string" where
  "encodeFloat x =
     (if x = 0 then ''0''
      else let (ds, dp) = shortestDigits \<bar>x\<bar>
           in (if x < 0 then ''-'' else '''') @
              (if \<bar>x\<bar> < 1 / 10 ^ 6 \<or> 10 ^ 21 \<le> \<bar>x\<bar> then encodeExp ds (dp - 1) else formatPlain ds dp))"

text \<open>A new line at a nesting depth.\<close>

definition indentTo :: "nat \<Rightarrow> string" where
  "indentTo n = CHR 10 # replicate (2 * n) (CHR 32)"

fun encodeIndent :: "nat \<Rightarrow> goval \<Rightarrow> string" where
  "encodeIndent n GNull = ''null''"
| "encodeIndent n (GBool b) = formatBool b"
| "encodeIndent n (GInt i) = Itoa i"
| "encodeIndent n (GFloat x) = encodeFloat x"
| "encodeIndent n (GStr s) = encodeRaw s"
| "encodeIndent n (GArr vs) =
     (if vs = [] then ''[]''
      else ''['' @ indentTo (Suc n) @ Join (map (encodeIndent (Suc n)) vs) ('','' @ indentTo (Suc n)) @ indentTo n @ '']'')"
| "encodeIndent n (GObj ms) =
     (if ms = [] then ''{}''
      else ''{'' @ indentTo (Suc n) @
           Join (map (\<lambda>(k, v). encodeRaw k @ '':'' @ CHR 32 # encodeIndent (Suc n) v) ms) ('','' @ indentTo (Suc n)) @
           indentTo n @ ''}'')"

text \<open>
  The encoder with its layout as parameters: what stands between the tokens of a nested value at a depth, what follows a
  colon, and the string encoder. The indented form and the compact form of \<^verbatim>\<open>json.Marshal\<close> are its instances.
\<close>

fun encodeLayout :: "(nat \<Rightarrow> string) \<Rightarrow> string \<Rightarrow> (string \<Rightarrow> string) \<Rightarrow> nat \<Rightarrow> goval \<Rightarrow> string" where
  "encodeLayout ws colon str n GNull = ''null''"
| "encodeLayout ws colon str n (GBool b) = formatBool b"
| "encodeLayout ws colon str n (GInt i) = Itoa i"
| "encodeLayout ws colon str n (GFloat x) = encodeFloat x"
| "encodeLayout ws colon str n (GStr s) = str s"
| "encodeLayout ws colon str n (GArr vs) =
     (if vs = [] then ''[]''
      else ''['' @ ws (Suc n) @ Join (map (encodeLayout ws colon str (Suc n)) vs) ('','' @ ws (Suc n)) @ ws n @ '']'')"
| "encodeLayout ws colon str n (GObj ms) =
     (if ms = [] then ''{}''
      else ''{'' @ ws (Suc n) @
           Join (map (\<lambda>(k, v). str k @ '':'' @ colon @ encodeLayout ws colon str (Suc n) v) ms) ('','' @ ws (Suc n)) @
           ws n @ ''}'')"

lemma encodeIndent_layout: "encodeIndent n v = encodeLayout indentTo [CHR 32] encodeRaw n v"
proof (induction v arbitrary: n)
  case (GArr vs)
  then show ?case by (simp cong: map_cong)
next
  case (GObj ms)
  have "map (\<lambda>(k, v). encodeRaw k @ '':'' @ CHR 32 # encodeIndent (Suc n) v) ms =
      map (\<lambda>(k, v). encodeRaw k @ '':'' @ [CHR 32] @ encodeLayout indentTo [CHR 32] encodeRaw (Suc n) v) ms"
  proof (rule map_cong [OF refl])
    fix m assume m: "m \<in> set ms"
    show "(case m of (k, v) \<Rightarrow> encodeRaw k @ '':'' @ CHR 32 # encodeIndent (Suc n) v) =
        (case m of (k, v) \<Rightarrow> encodeRaw k @ '':'' @ [CHR 32] @ encodeLayout indentTo [CHR 32] encodeRaw (Suc n) v)"
      using GObj [OF m, of "snd m" "Suc n"] by (simp add: case_prod_beta snds.intros)
  qed
  then show ?case by (simp only: encodeIndent.simps encodeLayout.simps)
qed simp_all

definition encodeCompact :: "goval \<Rightarrow> string" where
  "encodeCompact v = encodeLayout (\<lambda>_. '''') '''' encodeString 0 v"

text \<open>The value a reader of the text gets, how deep it is nested, and whether the decimals of its floats are exact.\<close>

fun jsonOf :: "goval \<Rightarrow> json" where
  "jsonOf GNull = JNull"
| "jsonOf (GBool b) = JBool b"
| "jsonOf (GInt i) = JNum (of_int i)"
| "jsonOf (GFloat x) = JNum x"
| "jsonOf (GStr s) = JStr s"
| "jsonOf (GArr vs) = JArr (map jsonOf vs)"
| "jsonOf (GObj ms) = JObj (map (\<lambda>(k, v). (k, jsonOf v)) ms)"

fun govalDepth :: "goval \<Rightarrow> nat" where
  "govalDepth (GArr vs) = Suc (fold max (map govalDepth vs) 0)"
| "govalDepth (GObj ms) = Suc (fold max (map (\<lambda>(k, v). govalDepth v) ms) 0)"
| "govalDepth _ = 0"

text \<open>What may follow a number in the text.\<close>

definition endsNumber :: "string \<Rightarrow> bool" where
  "endsNumber t \<longleftrightarrow> (case t of [] \<Rightarrow> True | c # _ \<Rightarrow> \<not> isDigit c \<and> c \<notin> set ''.eE'')"

fun exactFloats :: "goval \<Rightarrow> bool" where
  "exactFloats (GFloat x) \<longleftrightarrow> parseNum (encodeFloat x) = Some (x, '''') "
| "exactFloats (GArr vs) \<longleftrightarrow> list_all exactFloats vs"
| "exactFloats (GObj ms) \<longleftrightarrow> list_all (\<lambda>(k, v). exactFloats v) ms"
| "exactFloats _ \<longleftrightarrow> True"

section \<open>Strings and numbers are read back\<close>

lemma parseStr_encodeRawChar:
  "parseStr (encodeRawChar c @ t) = (case parseStr t of None \<Rightarrow> None | Some (x, r) \<Rightarrow> Some (c # x, r))"
proof (cases "c \<in> set ''<>&''")
  case True
  then have "c \<noteq> dquote" "c \<noteq> backslash" "\<not> code c < 32"
    by (auto simp: dquote_def backslash_def code_def)
  then show ?thesis
    using True by (simp add: encodeRawChar_def split: option.split)
qed (use parseStr_encodeChar in \<open>simp add: encodeRawChar_def\<close>)

lemma parseStr_encodeRaw: "parseStr (concat (map encodeRawChar s) @ dquote # t) = Some (s, t)"
  by (induction s) (simp_all add: parseStr_encodeRawChar)

lemma spanDigits_append:
  "list_all isDigit ds \<Longrightarrow> endsNumber t \<Longrightarrow> spanDigits (ds @ t) = (ds, t)"
  by (induction ds) (auto simp: spanDigits_def endsNumber_def split: list.splits)

lemma parseFrac_end: "endsNumber t \<Longrightarrow> parseFrac t = Some ('''', t)"
  by (auto simp: parseFrac_def HasPrefix_def endsNumber_def split: list.splits)

lemma parseExp_end: "endsNumber t \<Longrightarrow> parseExp t = Some (0, t)"
  by (auto simp: parseExp_def HasPrefix_def endsNumber_def split: list.splits)

lemma digits_no_leading_zero: "HasPrefix (digits n) ''0'' \<Longrightarrow> digits n = ''0''"
proof (induction n rule: digits.induct)
  case (1 n)
  show ?case
  proof (cases "n < 10")
    case True
    then show ?thesis
      using 1(2) by (simp add: HasPrefix_def digits.simps [of n])
  next
    case False
    then have "HasPrefix (digits (n div 10)) ''0''"
      using 1(2) by (cases "digits (n div 10)") (auto simp: HasPrefix_def digits.simps [of n])
    with 1(1) False have "digits (n div 10) = ''0''"
      by simp
    moreover have "digits 0 = ''0''"
      by code_simp
    ultimately have "n div 10 = 0"
      using digits_inj [of "n div 10" 0] by simp
    with False show ?thesis
      by simp
  qed
qed

lemma digitsVal_digits: "digitsVal (digits n) = n"
  by (simp add: digitsVal_def parseDigits_digits)

lemma list_all_digits: "list_all isDigit (digits n)"
  using isDigit_digits by (auto simp: list_all_iff)

lemma parseNum_digits:
  assumes "endsNumber t"
  shows "parseNum (digits n @ t) = Some (of_nat n, t)" "parseNum (CHR ''-'' # digits n @ t) = Some (- of_nat n, t)"
proof -
  have "\<not> HasPrefix (digits n @ t) ''-''"
    using hd_digits_no_sign(1) [of n] by (cases "digits n") (auto simp: HasPrefix_def)
  then show "parseNum (digits n @ t) = Some (of_nat n, t)" "parseNum (CHR ''-'' # digits n @ t) = Some (- of_nat n, t)"
    using assms digits_no_leading_zero [of n]
    by (auto simp: parseNum_def spanDigits_append list_all_digits parseFrac_end parseExp_end digitsVal_digits Let_def HasPrefix_def)
qed

lemma parseNum_Itoa: "endsNumber t \<Longrightarrow> parseNum (Itoa i @ t) = Some (of_int i, t)"
  using parseNum_digits [of t "nat \<bar>i\<bar>"] by (auto simp: Itoa_def of_nat_nat)

text \<open>A number that is read to the end of its text is read the same before anything that cannot belong to it.\<close>

lemma spanDigits_end: "spanDigits s = (ds, r) \<Longrightarrow> endsNumber t \<Longrightarrow> spanDigits (s @ t) = (ds, r @ t)"
proof (induction s arbitrary: ds)
  case Nil
  then show ?case
    by (auto simp: spanDigits_def endsNumber_def split: list.splits)
next
  case (Cons c s)
  then show ?case
    by (cases "isDigit c") (auto simp: spanDigits_def)
qed

lemma parseFrac_append: "parseFrac s = Some (fs, r) \<Longrightarrow> endsNumber t \<Longrightarrow> parseFrac (s @ t) = Some (fs, r @ t)"
proof (cases s)
  case (Cons c s')
  assume "parseFrac s = Some (fs, r)" and "endsNumber t"
  then show ?thesis
    using Cons spanDigits_end [of s' _ _ t] by (auto simp: parseFrac_def HasPrefix_def split: prod.splits if_splits)
qed (auto simp: parseFrac_end, (simp add: parseFrac_def HasPrefix_def)+)

lemma HasPrefix_Cons: "HasPrefix (c # s) [x] \<longleftrightarrow> c = x" "\<not> HasPrefix [] [x]"
  by (auto simp: HasPrefix_def)

lemma parseExp_append: "parseExp s = Some (e, r) \<Longrightarrow> endsNumber t \<Longrightarrow> parseExp (s @ t) = Some (e, r @ t)"
proof (cases s)
  case (Cons c s')
  assume a: "parseExp s = Some (e, r)" and t: "endsNumber t"
  show ?thesis
  proof (cases "c = CHR ''e'' \<or> c = CHR ''E''")
    case True
    then have "s' \<noteq> []"
      using a Cons by (auto simp: parseExp_def HasPrefix_Cons spanDigits_def)
    then obtain d s'' where "s' = d # s''"
      by (cases s') auto
    then show ?thesis
      using a t Cons True spanDigits_end [of s' _ _ t] spanDigits_end [of s'' _ _ t]
      by (auto simp: parseExp_def HasPrefix_Cons Let_def split: prod.splits if_splits)
  next
    case False
    then show ?thesis
      using a Cons by (auto simp: parseExp_def HasPrefix_Cons)
  qed
qed (auto simp: parseExp_end, (simp add: parseExp_def HasPrefix_def)+)

lemma parseNum_append:
  assumes "parseNum s = Some (x, [])" and "endsNumber t"
  shows "parseNum (s @ t) = Some (x, t)"
proof -
  have "s \<noteq> []"
    using assms(1) by (auto simp: parseNum_def spanDigits_def HasPrefix_def)
  then obtain c s' where s: "s = c # s'"
    by (cases s) auto
  define b where "b = (if c = CHR ''-'' then s' else s)"
  obtain ds r where sp: "spanDigits b = (ds, r)"
    by (cases "spanDigits b")
  from assms(1) obtain fs r1 e where
    rest: "parseFrac r = Some (fs, r1)" "parseExp r1 = Some (e, [])" "\<not> (ds = [] \<or> HasPrefix ds ''0'' \<and> ds \<noteq> ''0'')"
      "x = (let v = of_nat (digitsVal (ds @ fs)) * 10 powi (e - int (length fs)) in if c = CHR ''-'' then - v else v)"
    using sp by (auto simp: parseNum_def s HasPrefix_Cons b_def Let_def split: option.splits prod.splits if_splits)
  have "(if c = CHR ''-'' then tl (s @ t) else s @ t) = b @ t"
    by (simp add: b_def s)
  then show ?thesis
    using spanDigits_end [OF sp assms(2)] parseFrac_append [OF rest(1) assms(2)] parseExp_append [OF rest(2) assms(2)] rest(3,4)
    by (auto simp: parseNum_def s HasPrefix_Cons Let_def)
qed

section \<open>Values are read back\<close>

lemma skipWs_char: "\<not> isJsonSpace c \<Longrightarrow> skipWs (c # s) = c # s"
  by (simp add: skipWs_def)

lemma skipWs_idem [simp]: "skipWs (skipWs s) = skipWs s"
  by (simp add: skipWs_def)

lemma parseValue_skipWs: "skipWs s = skipWs s' \<Longrightarrow> parseValue f d s = parseValue f d s'"
  by (cases f) simp_all

lemma parseMembers_skipWs: "skipWs s = skipWs s' \<Longrightarrow> parseMembers f d s = parseMembers f d s'"
  by (cases f) simp_all

lemma parseElems_skipWs: "skipWs s = skipWs s' \<Longrightarrow> parseElems f d s = parseElems f d s'"
  by (cases f) (auto simp: parseValue_skipWs [of s s'])

lemma endsNumber_comma [simp]: "endsNumber (CHR '','' # t)"
  by (simp add: endsNumber_def isDigit_def code_def)

lemma fold_max_le: "fold max xs a \<le> (d :: nat) \<longleftrightarrow> a \<le> d \<and> list_all (\<lambda>x. x \<le> d) xs"
  by (induction xs arbitrary: a) auto

lemma depth_le:
  "govalDepth (GArr vs) \<le> Suc d \<longleftrightarrow> list_all (\<lambda>v. govalDepth v \<le> d) vs"
  "govalDepth (GObj ms) \<le> Suc d \<longleftrightarrow> list_all (\<lambda>(k, v). govalDepth v \<le> d) ms"
  by (auto simp: fold_max_le list_all_iff)

lemma parseNum_hd:
  assumes "parseNum s = Some r"
  obtains c s' where "s = c # s'" and "c = CHR ''-'' \<or> isDigit c"
proof (cases s)
  case Nil
  then show ?thesis
    using assms by (auto simp: parseNum_def spanDigits_def HasPrefix_def)
next
  case (Cons c s')
  then show ?thesis
    using assms that by (cases "isDigit c") (auto simp: parseNum_def spanDigits_def HasPrefix_Cons Let_def split: if_splits)
qed

lemma parseValue_num:
  assumes "parseNum s = Some (x, t)"
  shows "parseValue (Suc f) d s = Some (JNum x, t)"
proof -
  obtain c s' where s: "s = c # s'" and c: "c = CHR ''-'' \<or> isDigit c"
    by (rule parseNum_hd [OF assms])
  then have "\<not> isJsonSpace c" "c \<noteq> dquote" "c \<noteq> CHR ''{''" "c \<noteq> CHR ''[''" "c \<noteq> CHR ''n''" "c \<noteq> CHR ''t''" "c \<noteq> CHR ''f''"
    by (auto simp: isJsonSpace_def code_def isDigit_def dquote_def)
  then show ?thesis
    using assms by (simp add: s skipWs_char parseLit_def HasPrefix_def)
qed

lemma parseElems_no_bracket:
  assumes "parseElems f d s = Some r"
  shows "\<not> HasPrefix (skipWs s) '']''"
proof
  assume "HasPrefix (skipWs s) '']''"
  then obtain t where t: "skipWs s = CHR '']'' # t"
    by (auto simp: HasPrefix_iff)
  have "parseNum (CHR '']'' # t) = None"
    by (rule ccontr) (auto elim!: parseNum_hd simp: isDigit_def code_def)
  then have "parseValue g d s = None" for g
    using t by (cases g) (simp_all add: parseLit_def HasPrefix_def dquote_def)
  then show False
    using assms by (cases f) simp_all
qed

lemma parseMembers_no_brace: "parseMembers f d s = Some r \<Longrightarrow> \<not> HasPrefix (skipWs s) ''}''"
  by (cases f) (auto simp: HasPrefix_iff dquote_def split: if_splits)

text \<open>What the reader needs of a layout.\<close>

locale json_layout =
  fixes ws :: "nat \<Rightarrow> string" and colon :: string and str :: "string \<Rightarrow> string"
  assumes ws_space: "skipWs (ws n @ s) = skipWs s"
    and colon_space: "skipWs (colon @ s) = skipWs s"
    and str_reads: "\<exists>body. str s = dquote # body \<and> (\<forall>t. parseStr (body @ t) = Some (s, t))"
    and ws_ends: "c = CHR '']'' \<or> c = CHR ''}'' \<Longrightarrow> endsNumber (ws n @ c # t)"
begin

abbreviation enc :: "nat \<Rightarrow> goval \<Rightarrow> string" where
  "enc \<equiv> encodeLayout ws colon str"

definition reads :: "goval \<Rightarrow> bool" where
  "reads v \<longleftrightarrow> (\<forall>n d f t. govalDepth v \<le> d \<longrightarrow> endsNumber t \<longrightarrow> 2 * length (enc n v @ t) + 2 \<le> f \<longrightarrow>
     parseValue f d (enc n v @ t) = Some (jsonOf v, t))"

lemma elems_read:
  assumes "list_all reads vs" and "vs \<noteq> []" and "list_all (\<lambda>v. govalDepth v \<le> d) vs"
    and "s = Join (map (enc (Suc n)) vs) ('','' @ ws (Suc n)) @ ws n @ CHR '']'' # t"
    and "2 * length s + 3 \<le> f"
  shows "parseElems f d s = Some (map jsonOf vs, t)"
  using assms
proof (induction vs arbitrary: s f)
  case (Cons v vs)
  obtain f' where f: "f = Suc f'"
    using Cons.prems(5) by (cases f) auto
  have rd: "2 * length (enc (Suc n) v @ u) + 2 \<le> f' \<Longrightarrow> endsNumber u \<Longrightarrow>
      parseValue f' d (enc (Suc n) v @ u) = Some (jsonOf v, u)" for u
    using Cons.prems(1,3) by (simp add: reads_def)
  show ?case
  proof (cases vs)
    case Nil
    have s: "s = enc (Suc n) v @ ws n @ CHR '']'' # t"
      using Cons.prems(4) Nil by simp
    have "skipWs (CHR '']'' # t) = CHR '']'' # t"
      by (simp add: skipWs_char isJsonSpace_def code_def)
    then show ?thesis
      using rd [of "ws n @ CHR '']'' # t"] Cons.prems(5) Nil by (simp add: f s HasPrefix_Cons ws_space ws_ends)
  next
    case more: (Cons w vs0)
    define s' where "s' = Join (map (enc (Suc n)) vs) ('','' @ ws (Suc n)) @ ws n @ CHR '']'' # t"
    have s: "s = enc (Suc n) v @ CHR '','' # ws (Suc n) @ s'"
      using Cons.prems(4) more by (simp add: s'_def)
    have "parseElems f' d s' = Some (map jsonOf vs, t)"
      using Cons.IH [OF _ _ _ s'_def, of f'] Cons.prems more by (simp add: s f)
    then have "parseElems f' d (ws (Suc n) @ s') = Some (map jsonOf vs, t)"
      using parseElems_skipWs [OF ws_space] by metis
    moreover have "skipWs (CHR '','' # u) = CHR '','' # u" for u
      by (simp add: skipWs_char isJsonSpace_def code_def)
    ultimately show ?thesis
      using rd [of "CHR '','' # ws (Suc n) @ s'"] Cons.prems(5) by (simp add: f s HasPrefix_Cons)
  qed
qed simp

lemma members_read:
  assumes "list_all (\<lambda>(k, v). reads v) ms" and "ms \<noteq> []" and "list_all (\<lambda>(k, v). govalDepth v \<le> d) ms"
    and "s = Join (map (\<lambda>(k, v). str k @ '':'' @ colon @ enc (Suc n) v) ms) ('','' @ ws (Suc n)) @
      ws n @ CHR ''}'' # t"
    and "2 * length s + 3 \<le> f"
  shows "parseMembers f d s = Some (map (\<lambda>(k, v). (k, jsonOf v)) ms, t)"
  using assms
proof (induction ms arbitrary: s f)
  case (Cons m ms)
  obtain k v where m: "m = (k, v)"
    by (cases m)
  obtain f' where f: "f = Suc f'"
    using Cons.prems(5) by (cases f) auto
  have rd: "parseValue f' d (colon @ enc (Suc n) v @ u) = Some (jsonOf v, u)"
    if "2 * length (enc (Suc n) v @ u) + 2 \<le> f'" "endsNumber u" for u
  proof -
    have "parseValue f' d (colon @ enc (Suc n) v @ u) = parseValue f' d (enc (Suc n) v @ u)"
      by (rule parseValue_skipWs) (simp add: colon_space)
    then show ?thesis
      using that Cons.prems(1,3) by (simp add: m reads_def)
  qed
  have blank: "skipWs (CHR '']'' # u) = CHR '']'' # u" "skipWs (CHR ''}'' # u) = CHR ''}'' # u" "skipWs (CHR '','' # u) = CHR '','' # u"
    "skipWs (CHR '':'' # u) = CHR '':'' # u" "skipWs (dquote # u) = dquote # u" for u
    by (simp_all add: skipWs_char isJsonSpace_def code_def dquote_def)
  obtain body where key: "str k = dquote # body" "\<And>t. parseStr (body @ t) = Some (k, t)"
    using str_reads by blast
  show ?case
  proof (cases ms)
    case Nil
    have s: "s = str k @ CHR '':'' # colon @ enc (Suc n) v @ ws n @ CHR ''}'' # t"
      using Cons.prems(4) Nil by (simp add: m)
    then have "2 * length (enc (Suc n) v @ ws n @ CHR ''}'' # t) + 2 \<le> f'"
      using Cons.prems(5) f by simp
    from rd [OF this] show ?thesis
      using Nil by (simp add: f s m key blank HasPrefix_Cons ws_space ws_ends)
  next
    case more: (Cons w ws')
    define s' where "s' = Join (map (\<lambda>(k, v). str k @ '':'' @ colon @ enc (Suc n) v) ms) ('','' @ ws (Suc n)) @
      ws n @ CHR ''}'' # t"
    have s: "s = str k @ CHR '':'' # colon @ enc (Suc n) v @ CHR '','' # ws (Suc n) @ s'"
      using Cons.prems(4) more by (simp add: s'_def m)
    have "2 * length s' + 3 \<le> f'"
      using Cons.prems(5) by (simp add: s f)
    from Cons.IH [OF _ _ _ s'_def this] have "parseMembers f' d s' = Some (map (\<lambda>(k, v). (k, jsonOf v)) ms, t)"
      using Cons.prems(1,3) more by simp
    then have IH: "parseMembers f' d (ws (Suc n) @ s') = Some (map (\<lambda>(k, v). (k, jsonOf v)) ms, t)"
      using parseMembers_skipWs [OF ws_space] by metis
    have "2 * length (enc (Suc n) v @ CHR '','' # ws (Suc n) @ s') + 2 \<le> f'"
      using Cons.prems(5) f s by simp
    from rd [OF this] IH show ?thesis
      by (simp add: f s m key blank HasPrefix_Cons)
  qed
qed simp

lemma readsI:
  assumes "\<And>n d f t. govalDepth v \<le> d \<Longrightarrow> endsNumber t \<Longrightarrow> 2 * length (enc n v @ t) < f \<Longrightarrow>
    parseValue (Suc f) d (enc n v @ t) = Some (jsonOf v, t)"
  shows "reads v"
  unfolding reads_def
proof (intro allI impI)
  fix n d f t
  assume "govalDepth v \<le> d" "endsNumber t" "2 * length (enc n v @ t) + 2 \<le> f"
  then show "parseValue f d (enc n v @ t) = Some (jsonOf v, t)"
    using assms by (cases f) auto
qed

lemma reads_scalar:
  "reads GNull" "reads (GBool b)" "reads (GInt i)" "reads (GStr s)"
  "exactFloats (GFloat x) \<Longrightarrow> reads (GFloat x)"
proof -
  show "reads GNull" "reads (GBool b)"
    by (rule readsI, simp add: formatBool_def parseLit_def HasPrefix_def skipWs_char isJsonSpace_def code_def dquote_def)+
  show "reads (GStr s)"
    using str_reads [of s] by (intro readsI) (auto simp: skipWs_char isJsonSpace_def code_def dquote_def)
  show "reads (GInt i)"
    by (rule readsI) (simp add: parseValue_num parseNum_Itoa del: parseValue.simps)
  show "reads (GFloat x)" if "exactFloats (GFloat x)"
    using that by (intro readsI) (simp add: parseValue_num parseNum_append del: parseValue.simps)
qed

lemma reads_GArr:
  assumes "list_all reads vs"
  shows "reads (GArr vs)"
proof (rule readsI)
  fix n d f t
  assume d: "govalDepth (GArr vs) \<le> d" and f: "2 * length (enc n (GArr vs) @ t) < f"
  show "parseValue (Suc f) d (enc n (GArr vs) @ t) = Some (jsonOf (GArr vs), t)"
  proof (cases "vs = []")
    case True
    then show ?thesis
      using d by (simp add: skipWs_char isJsonSpace_def code_def HasPrefix_Cons)
  next
    case False
    define s where "s = Join (map (enc (Suc n)) vs) ('','' @ ws (Suc n)) @ ws n @ CHR '']'' # t"
    have "list_all (\<lambda>v. govalDepth v \<le> d - 1) vs"
      using d by (cases d) (auto simp: fold_max_le list_all_iff)
    moreover have "2 * length s + 3 \<le> f"
      using f False by (simp add: s_def)
    ultimately have "parseElems f (d - 1) s = Some (map jsonOf vs, t)"
      using elems_read [OF assms False _ s_def] by blast
    then have "parseElems f (d - 1) (ws (Suc n) @ s) = Some (map jsonOf vs, t)"
      using parseElems_skipWs [OF ws_space] by metis
    moreover from this have "\<not> HasPrefix (skipWs (ws (Suc n) @ s)) '']''"
      by (rule parseElems_no_bracket)
    ultimately show ?thesis
      using d False by (simp add: s_def skipWs_char isJsonSpace_def code_def)
  qed
qed

lemma reads_GObj:
  assumes "list_all (\<lambda>(k, v). reads v) ms"
  shows "reads (GObj ms)"
proof (rule readsI)
  fix n d f t
  assume d: "govalDepth (GObj ms) \<le> d" and f: "2 * length (enc n (GObj ms) @ t) < f"
  show "parseValue (Suc f) d (enc n (GObj ms) @ t) = Some (jsonOf (GObj ms), t)"
  proof (cases "ms = []")
    case True
    then show ?thesis
      using d by (simp add: skipWs_char isJsonSpace_def code_def HasPrefix_Cons)
  next
    case False
    define s where "s = Join (map (\<lambda>(k, v). str k @ '':'' @ colon @ enc (Suc n) v) ms) ('','' @ ws (Suc n)) @
      ws n @ CHR ''}'' # t"
    have "list_all (\<lambda>(k, v). govalDepth v \<le> d - 1) ms"
      using d by (cases d) (auto simp: fold_max_le list_all_iff)
    moreover have "2 * length s + 3 \<le> f"
      using f False by (simp add: s_def)
    ultimately have "parseMembers f (d - 1) s = Some (map (\<lambda>(k, v). (k, jsonOf v)) ms, t)"
      using members_read [OF assms False _ s_def] by blast
    then have "parseMembers f (d - 1) (ws (Suc n) @ s) = Some (map (\<lambda>(k, v). (k, jsonOf v)) ms, t)"
      using parseMembers_skipWs [OF ws_space] by metis
    moreover from this have "\<not> HasPrefix (skipWs (ws (Suc n) @ s)) ''}''"
      by (rule parseMembers_no_brace)
    ultimately show ?thesis
      using d False by (simp add: s_def skipWs_char isJsonSpace_def code_def)
  qed
qed

lemma exactFloats_reads: "exactFloats v \<Longrightarrow> reads v"
proof (induction v)
  case (GArr vs)
  then show ?case
    by (auto simp: list_all_iff intro: reads_GArr)
next
  case (GObj ms)
  have "list_all (\<lambda>(k, v). reads v) ms"
    unfolding list_all_iff
  proof (clarify)
    fix k v
    assume m: "(k, v) \<in> set ms"
    then have "exactFloats v"
      using GObj.prems by (auto simp: list_all_iff)
    then show "reads v"
      using GObj.IH [OF m, of v] by simp
  qed
  then show ?case
    by (rule reads_GObj)
qed (auto simp: reads_scalar simp del: exactFloats.simps(1))

lemma parse_layout:
  assumes "exactFloats v" and "govalDepth v \<le> maxNestingDepth"
  shows "parseJSON (enc 0 v) = Some (jsonOf v)"
proof -
  have "endsNumber ''''"
    by (simp add: endsNumber_def)
  then have "2 * length (enc 0 v @ '''') + 2 \<le> f \<Longrightarrow> parseValue f maxNestingDepth (enc 0 v @ '''') = Some (jsonOf v, '''')" for f
    using exactFloats_reads [OF assms(1)] assms(2) unfolding reads_def by blast
  then have "parseValue (2 * length (enc 0 v) + 4) maxNestingDepth (enc 0 v) = Some (jsonOf v, '''')"
    by simp
  then show ?thesis
    by (simp add: parseJSON_def skipWs_def)
qed

end

lemma skipWs_indent [simp]: "skipWs (indentTo n @ s) = skipWs s"
  by (simp add: skipWs_def indentTo_def isJsonSpace_def code_def dropWhile_append)

interpretation indented: json_layout indentTo "[CHR 32]" encodeRaw
proof
  show "\<exists>body. encodeRaw s = dquote # body \<and> (\<forall>t. parseStr (body @ t) = Some (s, t))" for s
    using parseStr_encodeRaw [of s] by (intro exI [of _ "concat (map encodeRawChar s) @ [dquote]"]) (simp add: encodeRaw_def)
  show "skipWs ([CHR 32] @ s) = skipWs s" for s
    by (simp add: skipWs_def isJsonSpace_def code_def)
  show "endsNumber (indentTo n @ c # t)" for n c t
    by (simp add: endsNumber_def indentTo_def isDigit_def code_def)
qed simp

interpretation compact: json_layout "\<lambda>_. ''''" "''''" encodeString
proof
  show "\<exists>body. encodeString s = dquote # body \<and> (\<forall>t. parseStr (body @ t) = Some (s, t))" for s
    using parseStr_encode [of s] by (intro exI [of _ "concat (map encodeChar s) @ [dquote]"]) (simp add: encodeString_def)
  show "endsNumber ('''' @ c # t)" if "c = CHR '']'' \<or> c = CHR ''}''" for n c t
    using that by (auto simp: endsNumber_def isDigit_def code_def)
qed simp_all

text \<open>The parser reads back what the encoders write.\<close>

lemma parse_encodeIndent:
  "exactFloats v \<Longrightarrow> govalDepth v \<le> maxNestingDepth \<Longrightarrow> parseJSON (encodeIndent 0 v) = Some (jsonOf v)"
  by (simp add: encodeIndent_layout indented.parse_layout)

lemma parse_encodeCompact:
  "exactFloats v \<Longrightarrow> govalDepth v \<le> maxNestingDepth \<Longrightarrow> parseJSON (encodeCompact v) = Some (jsonOf v)"
  by (simp add: encodeCompact_def compact.parse_layout)

end
