(* ===== verification/GoJsonPrefix.thy ===== *)
theory GoJsonPrefix
  imports GoEncode
begin

text \<open>
  A JSON object is its own end: a text that was read as an object is read as the same object when more text follows, so no
  proper prefix of an encoded object is a JSON text. The runner reads at most a fixed number of bytes of a response,
  and this is what that limit means for a larger one.
\<close>

lemma hex4_append: "hex4 s = Some n \<Longrightarrow> hex4 (s @ q) = Some n \<and> 4 \<le> length s"
proof -
  assume h: "hex4 s = Some n"
  then obtain a b c e where "take 4 s = [a, b, c, e]"
    unfolding hex4_def by (auto split: list.splits option.splits)
  from arg_cong [OF this, of length] have "4 \<le> length s"
    by simp
  then show ?thesis
    using h by (simp add: hex4_def)
qed

lemma HasPrefix_append: "HasPrefix s p \<Longrightarrow> HasPrefix (s @ q) p"
  by (auto simp: HasPrefix_iff)

lemma unicode_append:
  assumes "unicodeEscape s = Some (b, n)" and "parseStr (drop n s) \<noteq> None"
  shows "unicodeEscape (s @ q) = Some (b, n) \<and> n \<le> length s"
proof -
  obtain m where m: "hex4 s = Some m"
    using assms(1) by (auto simp: unicodeEscape_def split: option.splits)
  have four: "hex4 (s @ q) = Some m" "4 \<le> length s" "drop 4 (s @ q) = drop 4 s @ q"
    using hex4_append [OF m] by auto
  show ?thesis
  proof (cases "isSurrogate m \<and> m < 56320 \<and> HasPrefix (drop 4 s) [backslash, CHR ''u'']")
    case True
    then have pre: "HasPrefix (drop 4 s @ q) [backslash, CHR ''u'']"
      using HasPrefix_append by blast
    obtain t where t: "drop 4 s = backslash # CHR ''u'' # t"
      using True by (auto simp: HasPrefix_iff)
    then have t6: "drop 6 s = t"
      using drop_drop [of 2 4 s] by simp
    have "6 \<le> length s"
      using arg_cong [OF t, of length] by simp
    then have q6: "drop 6 (s @ q) = t @ q"
      using t6 by simp
    show ?thesis
    proof (cases "hex4 t")
      case None
      then have "parseStr (drop 4 s) = None"
        by (simp add: t unicodeEscape_def backslash_def dquote_def)
      then show ?thesis
        using assms True m None by (simp add: unicodeEscape_def t6)
    next
      case (Some k)
      have "hex4 (t @ q) = Some k" "10 \<le> length s"
        using hex4_append [OF Some, of q] t6 \<open>6 \<le> length s\<close> by auto
      then show ?thesis
        using assms(1) True pre unfolding unicodeEscape_def m four t6 q6 Some by (simp split: if_splits)
    qed
  next
    case False
    have "\<not> HasPrefix (drop 4 s @ q) [backslash, CHR ''u'']" if "isSurrogate m" "m < 56320"
    proof
      assume p: "HasPrefix (drop 4 s @ q) [backslash, CHR ''u'']"
      have n: "n = 4"
        using assms(1) False that m by (auto simp: unicodeEscape_def)
      then obtain c u where u: "drop 4 s = c # u"
        using assms(2) by (cases "drop 4 s") auto
      then have "c = backslash" "u = []"
        using p False that by (cases u; simp add: HasPrefix_Cons HasPrefix_def)+
      then show False
        using assms(2) n u by (simp add: backslash_def dquote_def)
    qed
    then show ?thesis
      using assms(1) False four(2) unfolding unicodeEscape_def m four(1,3) by (cases "isSurrogate m") (auto split: if_splits)
  qed
qed

lemma parseStr_append: "parseStr p = Some (t, r) \<Longrightarrow> parseStr (p @ q) = Some (t, r @ q)"
proof (induction p arbitrary: t r rule: parseStr.induct)
  case (2 c s)
  show ?case
  proof (cases "c = backslash \<and> c \<noteq> dquote")
    case True
    then obtain e u where s: "s = e # u"
      using "2.prems" by (cases s) auto
    show ?thesis
    proof (cases "e = CHR ''u''")
      case u: True
      obtain b n t' where esc: "unicodeEscape u = Some (b, n)" "parseStr (drop n u) = Some (t', r)" "t = b @ t'"
        using "2.prems" True s u by (auto split: option.splits)
      have "unicodeEscape (u @ q) = Some (b, n)" "n \<le> length u"
        using unicode_append [OF esc(1), of q] esc(2) by auto
      moreover have "parseStr (drop n u @ q) = Some (t', r @ q)"
        using True by (intro "2.IH"(1) [OF _ _ s u esc(1) refl esc(2)]) auto
      ultimately show ?thesis
        using True s u esc(3) by auto
    next
      case False
      obtain x t' where esc: "simpleEscape e = Some x" "parseStr u = Some (t', r)" "t = x # t'"
        using "2.prems" True s False by (auto split: option.splits)
      then have "parseStr (u @ q) = Some (t', r @ q)"
        using True by (intro "2.IH"(2) [OF _ _ s False esc(1,2)]) auto
      then show ?thesis
        using True s False esc by auto
    qed
  next
    case False
    then show ?thesis
      using "2.prems" "2.IH"(3) by (auto split: option.splits if_splits)
  qed
qed simp

lemma spanDigits_more: "spanDigits s = (ds, r) \<Longrightarrow> r \<noteq> [] \<Longrightarrow> spanDigits (s @ q) = (ds, r @ q)"
  by (auto simp: spanDigits_def takeWhile_append dropWhile_append dropWhile_eq_Nil_conv)

lemma HasPrefix_char_append: "s \<noteq> [] \<Longrightarrow> HasPrefix (s @ q) [c] = HasPrefix s [c]"
  by (cases s) (simp_all add: HasPrefix_Cons)

lemma parseFrac_more: "parseFrac s = Some (fs, r) \<Longrightarrow> r \<noteq> [] \<Longrightarrow> parseFrac (s @ q) = Some (fs, r @ q)"
proof (cases s)
  case (Cons c u)
  assume "parseFrac s = Some (fs, r)" "r \<noteq> []"
  then show ?thesis
    using Cons spanDigits_more [of u fs r q] by (auto simp: parseFrac_def HasPrefix_Cons split: if_splits prod.splits)
qed (simp add: parseFrac_def HasPrefix_def)

lemma parseExp_more: "parseExp s = Some (e, r) \<Longrightarrow> r \<noteq> [] \<Longrightarrow> parseExp (s @ q) = Some (e, r @ q)"
proof (cases s)
  case (Cons c u)
  assume a: "parseExp s = Some (e, r)" "r \<noteq> []"
  show ?thesis
  proof (cases "c = CHR ''e'' \<or> c = CHR ''E''")
    case True
    have u: "u \<noteq> []"
      using a True Cons by (auto simp: parseExp_def HasPrefix_Cons HasPrefix_def spanDigits_def)
    define v where "v = (if HasPrefix u ''-'' \<or> HasPrefix u ''+'' then tl u else u)"
    obtain ds where ds: "spanDigits v = (ds, r)" "ds \<noteq> []" "e = (if HasPrefix u ''-'' then - int (digitsVal ds) else int (digitsVal ds))"
      using a True Cons by (auto simp: parseExp_def HasPrefix_Cons Let_def v_def split: prod.splits if_splits)
    have "(if HasPrefix (u @ q) ''-'' \<or> HasPrefix (u @ q) ''+'' then tl (u @ q) else u @ q) = v @ q"
      using u by (simp add: HasPrefix_char_append v_def)
    then show ?thesis
      using True Cons ds u spanDigits_more [OF ds(1) a(2), of q] by (simp add: parseExp_def HasPrefix_Cons Let_def HasPrefix_char_append)
  next
    case False
    then show ?thesis
      using a Cons by (auto simp: parseExp_def HasPrefix_Cons)
  qed
qed (simp add: parseExp_def HasPrefix_def)

lemma parseNum_more: "parseNum s = Some (x, r) \<Longrightarrow> r \<noteq> [] \<Longrightarrow> parseNum (s @ q) = Some (x, r @ q)"
proof -
  assume a: "parseNum s = Some (x, r)" "r \<noteq> []"
  define v where "v = (if HasPrefix s ''-'' then tl s else s)"
  obtain ds r0 fs r1 e where p: "spanDigits v = (ds, r0)" "ds \<noteq> []" "\<not> (HasPrefix ds ''0'' \<and> ds \<noteq> ''0'')"
    "parseFrac r0 = Some (fs, r1)" "parseExp r1 = Some (e, r)"
    using a(1) by (auto simp: parseNum_def Let_def v_def split: prod.splits if_splits option.splits)
  have ne: "s \<noteq> []" "r1 \<noteq> []" "r0 \<noteq> []"
    using p a(2) parseExp_length [OF p(5)] parseFrac_length [OF p(4)] by (auto simp: v_def spanDigits_def HasPrefix_def split: if_splits)
  have "(if HasPrefix (s @ q) ''-'' then tl (s @ q) else s @ q) = v @ q" "HasPrefix (s @ q) ''-'' = HasPrefix s ''-''"
    using ne(1) by (simp_all add: HasPrefix_char_append v_def)
  then show ?thesis
    using a(1) p spanDigits_more [OF p(1) ne(3), of q] parseFrac_more [OF p(4) ne(2), of q] parseExp_more [OF p(5) a(2), of q]
    unfolding parseNum_def Let_def v_def [symmetric] by (auto split: if_splits)
qed

lemma skipWs_append: "skipWs s \<noteq> [] \<Longrightarrow> skipWs (s @ q) = skipWs s @ q"
  by (auto simp: skipWs_def dropWhile_append dropWhile_eq_Nil_conv)

lemma parseLit_more: "parseLit s = Some (v, r) \<Longrightarrow> r \<noteq> [] \<or> (\<forall>x. v \<noteq> JNum x) \<Longrightarrow> parseLit (s @ q) = Some (v, r @ q)"
proof -
  assume a: "parseLit s = Some (v, r)" "r \<noteq> [] \<or> (\<forall>x. v \<noteq> JNum x)"
  consider "HasPrefix s ''null''" | "HasPrefix s ''true''" | "HasPrefix s ''false''"
    | "\<not> HasPrefix s ''null''" "\<not> HasPrefix s ''true''" "\<not> HasPrefix s ''false''"
    by blast
  then show ?thesis
  proof cases
    case 4
    then obtain x where x: "parseNum s = Some (x, r)" "v = JNum x"
      using a(1) by (auto simp: parseLit_def)
    then have n: "parseNum (s @ q) = Some (x, r @ q)"
      using parseNum_more a(2) by blast
    then have "\<not> HasPrefix (s @ q) ''null''" "\<not> HasPrefix (s @ q) ''true''" "\<not> HasPrefix (s @ q) ''false''"
      by (auto simp: HasPrefix_iff parseNum_def spanDigits_def HasPrefix_def isDigit_def code_def)
    then show ?thesis
      using n x by (simp add: parseLit_def)
  qed (use a(1) in \<open>auto simp: parseLit_def HasPrefix_iff HasPrefix_def\<close>)
qed

text \<open>Reading goes on the same way when more text follows, except at a number that the text ends with.\<close>

lemma parse_more:
  "(parseValue f d p = Some (v, r) \<longrightarrow> r \<noteq> [] \<or> (\<forall>x. v \<noteq> JNum x) \<longrightarrow> parseValue f d (p @ q) = Some (v, r @ q)) \<and>
   (parseElems f d p = Some (vs, r) \<longrightarrow> parseElems f d (p @ q) = Some (vs, r @ q)) \<and>
   (parseMembers f d p = Some (ms, r) \<longrightarrow> parseMembers f d (p @ q) = Some (ms, r @ q))"
proof (induction f arbitrary: d p v vs ms r)
  case (Suc f)
  have IHv: "parseValue f d p = Some (v, r) \<Longrightarrow> r \<noteq> [] \<or> (\<forall>x. v \<noteq> JNum x) \<Longrightarrow> parseValue f d (p @ q) = Some (v, r @ q)" for d p v r
    using Suc.IH by blast
  have IHe: "parseElems f d p = Some (vs, r) \<Longrightarrow> parseElems f d (p @ q) = Some (vs, r @ q)" for d p vs r
    using Suc.IH by blast
  have IHm: "parseMembers f d p = Some (ms, r) \<Longrightarrow> parseMembers f d (p @ q) = Some (ms, r @ q)" for d p ms r
    using Suc.IH by blast
  have pre: "\<exists>u. skipWs s = c # u \<and> skipWs (s @ q) = c # u @ q \<and> s \<noteq> []" if starts: "HasPrefix (skipWs s) [c]" for s c
  proof -
    obtain u where u: "skipWs s = c # u"
      using starts by (auto simp: HasPrefix_iff)
    then show ?thesis
      using skipWs_append [of s q] by (auto simp: skipWs_def)
  qed
  have val: "parseValue (Suc f) d (p @ q) = Some (v, r @ q)"
    if a: "parseValue (Suc f) d p = Some (v, r)" "r \<noteq> [] \<or> (\<forall>x. v \<noteq> JNum x)"
  proof -
    obtain c u where c: "skipWs p = c # u"
      using a(1) by (cases "skipWs p") auto
    then have cq: "skipWs (p @ q) = c # u @ q"
      using skipWs_append [of p q] by simp
    consider "c = CHR ''{''" | "c = CHR ''[''" | "c = dquote" | "c \<noteq> CHR ''{''" "c \<noteq> CHR ''[''" "c \<noteq> dquote"
      by blast
    then show ?thesis
    proof cases
      case 1
      show ?thesis
      proof (cases "HasPrefix (skipWs u) ''}''")
        case True
        then show ?thesis
          using pre [OF True] a(1) c cq 1 by (auto simp: HasPrefix_Cons split: if_splits)
      next
        case False
        then obtain ms where m: "parseMembers f (d - 1) u = Some (ms, r)" "v = JObj ms" "d \<noteq> 0"
          using a(1) c 1 by (auto split: if_splits)
        then show ?thesis
          using IHm [OF m(1)] parseMembers_no_brace [OF IHm [OF m(1)]] c cq 1 by simp
      qed
    next
      case 2
      show ?thesis
      proof (cases "HasPrefix (skipWs u) '']''")
        case True
        then show ?thesis
          using pre [OF True] a(1) c cq 2 by (auto simp: HasPrefix_Cons split: if_splits)
      next
        case False
        then obtain vs where m: "parseElems f (d - 1) u = Some (vs, r)" "v = JArr vs" "d \<noteq> 0"
          using a(1) c 2 by (auto split: if_splits)
        then show ?thesis
          using IHe [OF m(1)] parseElems_no_bracket [OF IHe [OF m(1)]] c cq 2 by simp
      qed
    next
      case 3
      then show ?thesis
        using a(1) c cq parseStr_append [of u _ r q] by (auto simp: dquote_def)
    next
      case 4
      then show ?thesis
        using a c cq parseLit_more [of "c # u" v r q] by simp
    qed
  qed
  have elems: "parseElems (Suc f) d (p @ q) = Some (vs, r @ q)" if a: "parseElems (Suc f) d p = Some (vs, r)"
  proof -
    obtain v r1 where v: "parseValue f d p = Some (v, r1)"
      using a by (auto split: option.splits)
    consider "HasPrefix (skipWs r1) '',''" | "HasPrefix (skipWs r1) '']''" "\<not> HasPrefix (skipWs r1) '',''"
      using a v by (auto split: if_splits)
    then show ?thesis
    proof cases
      case 1
      then show ?thesis
        using pre [OF 1] a v IHv [OF v] IHe by (auto simp: HasPrefix_Cons)
    next
      case 2
      then show ?thesis
        using pre [OF 2(1)] a v IHv [OF v] by (auto simp: HasPrefix_Cons)
    qed
  qed
  have members: "parseMembers (Suc f) d (p @ q) = Some (ms, r @ q)" if a: "parseMembers (Suc f) d p = Some (ms, r)"
  proof -
    have quote: "HasPrefix (skipWs p) [dquote]"
      using a by (simp split: if_splits)
    then obtain k r0 where k: "parseStr (tl (skipWs p)) = Some (k, r0)" and colon: "HasPrefix (skipWs r0) '':''"
      using a by (auto split: option.splits if_splits)
    obtain v r1 where v: "parseValue f d (tl (skipWs r0)) = Some (v, r1)"
      using a quote k colon by (auto split: option.splits)
    consider "HasPrefix (skipWs r1) '',''" | "HasPrefix (skipWs r1) ''}''" "\<not> HasPrefix (skipWs r1) '',''"
      using a v quote k colon by (auto split: if_splits)
    then show ?thesis
    proof cases
      case 1
      then show ?thesis
        using pre [OF quote] pre [OF colon] pre [OF 1] a v k parseStr_append [OF k, of q] IHv [OF v] IHm by (auto simp: HasPrefix_Cons)
    next
      case 2
      then show ?thesis
        using pre [OF quote] pre [OF colon] pre [OF 2(1)] a v k parseStr_append [OF k, of q] IHv [OF v] by (auto simp: HasPrefix_Cons)
    qed
  qed
  show ?case
    using val elems members by blast
qed simp

lemma compact_object: "\<exists>u. encodeCompact (GObj ms) = CHR ''{'' # u" "last (encodeCompact (GObj ms)) = CHR ''}''"
  by (auto simp: encodeCompact_def)

lemma parseValue_brace: "parseValue f d s = Some (v, r) \<Longrightarrow> s = [] \<or> hd s = CHR ''{'' \<Longrightarrow> v \<noteq> JNum x"
  by (cases f; cases s) (auto simp: skipWs_def isJsonSpace_def code_def split: if_splits)

text \<open>What is left of an encoded object when its end is cut off is not a JSON text.\<close>

lemma truncated_object:
  assumes "exactFloats (GObj ms)" and "govalDepth (GObj ms) \<le> maxNestingDepth" and "n < length (encodeCompact (GObj ms))"
  shows "parseJSON (take n (encodeCompact (GObj ms))) = None"
proof (rule ccontr)
  let ?s = "encodeCompact (GObj ms)"
  let ?F = "2 * length ?s + 4"
  assume "parseJSON (take n ?s) \<noteq> None"
  then obtain v r where p: "parseValue (2 * length (take n ?s) + 4) maxNestingDepth (take n ?s) = Some (v, r)"
    by (auto simp: parseJSON_def split: option.splits)
  have "2 * length (take n ?s) + 4 \<le> ?F"
    by simp
  then have big: "parseValue ?F maxNestingDepth (take n ?s) = Some (v, r)"
    using p parse_fuel [of "take n ?s" ?F maxNestingDepth] by simp
  have "take n ?s = [] \<or> hd (take n ?s) = CHR ''{''"
    using compact_object(1) [of ms] by (cases n) auto
  then have "\<forall>x. v \<noteq> JNum x"
    using parseValue_brace [OF p] by blast
  then have "parseValue ?F maxNestingDepth (take n ?s @ drop n ?s) = Some (v, r @ drop n ?s)"
    using big parse_more by blast
  then have full: "parseValue ?F maxNestingDepth ?s = Some (v, r @ drop n ?s)"
    by simp
  have "parseJSON ?s \<noteq> None"
    using parse_encodeCompact [OF assms(1,2)] by simp
  then have "skipWs (r @ drop n ?s) = []"
    using full by (simp add: parseJSON_def split: if_splits)
  then have "list_all isJsonSpace (drop n ?s)"
    by (simp add: skipWs_def list_all_iff)
  moreover have "drop n ?s \<noteq> []" "last (drop n ?s) = CHR ''}''"
    using assms(3) compact_object(2) [of ms] by auto
  ultimately have "isJsonSpace (CHR ''}'')"
    using last_in_set unfolding list_all_iff by metis
  then show False
    by (simp add: isJsonSpace_def code_def)
qed

end
