(* ===== verification/RunnerProbe.thy ===== *)
theory RunnerProbe
  imports Runner GoJsonPrefix
begin

text \<open>
  The probes of \<^verbatim>\<open>internal/runner/runner.go\<close> on a service that answers with JSON: what the check of a probe says about the
  document the service encoded, given that the runner reads a bounded part of the response.
\<close>

lemma parse_compact_tail:
  assumes "exactFloats (GObj ms)" and "govalDepth (GObj ms) \<le> maxNestingDepth" and "list_all isJsonSpace t"
  shows "parseJSON (encodeCompact (GObj ms) @ t) = Some (jsonOf (GObj ms))"
proof -
  let ?s = "encodeCompact (GObj ms)"
  obtain r where p: "parseValue (2 * length ?s + 4) maxNestingDepth ?s = Some (jsonOf (GObj ms), r)" "skipWs r = []"
    using parse_encodeCompact [OF assms(1,2)] by (auto simp: parseJSON_def split: option.splits if_splits)
  then have "parseValue (2 * length (?s @ t) + 4) maxNestingDepth ?s = Some (jsonOf (GObj ms), r)"
    using parse_fuel [of ?s "2 * length (?s @ t) + 4" maxNestingDepth] by simp
  then have "parseValue (2 * length (?s @ t) + 4) maxNestingDepth (?s @ t) = Some (jsonOf (GObj ms), r @ t)"
    using parse_more [of _ _ ?s "jsonOf (GObj ms)" r t] by simp
  moreover have "skipWs (r @ t) = []"
    using p(2) assms(3) by (auto simp: skipWs_def list_all_iff dropWhile_append)
  ultimately show ?thesis
    by (simp add: parseJSON_def)
qed

text \<open>What the runner reads of an answer that is an encoded object and white space.\<close>

lemma read_compact:
  assumes "exactFloats (GObj ms)" and "govalDepth (GObj ms) \<le> maxNestingDepth" and "list_all isJsonSpace t"
  shows "parseJSON (take n (encodeCompact (GObj ms) @ t)) =
    (if length (encodeCompact (GObj ms)) \<le> n then Some (jsonOf (GObj ms)) else None)"
proof (cases "length (encodeCompact (GObj ms)) \<le> n")
  case True
  have "list_all isJsonSpace (take (n - length (encodeCompact (GObj ms))) t)"
    using assms(3) in_set_takeD by (fastforce simp: list_all_iff)
  then show ?thesis
    using True parse_compact_tail [OF assms(1,2)] by simp
next
  case False
  then show ?thesis
    using truncated_object [OF assms(1,2), of n] by simp
qed

lemma LookupJSONPath_cong: "Unmarshal a = Unmarshal b \<Longrightarrow> (LookupJSONPath e a path = Found v) = (LookupJSONPath e b path = Found v)"
  by (auto simp: LookupJSONPath_def split: option.split)

lemma LookupJSONPath_undecodable: "Unmarshal a = None \<Longrightarrow> LookupJSONPath e a path \<noteq> Found v"
  by (simp add: LookupJSONPath_def)

lemma probe_reads:
  assumes "prepareProbe iter runID sc iv = Inr r" and "io_Admit io"
    and "io_Do io r = Inr \<lparr>hr_StatusCode = status, hr_Body = encodeCompact (GObj ms) @ t, hr_BodyErr = None\<rparr>"
    and "status < 400" and "list_all isJsonSpace t" and "exactFloats (GObj ms)" and "govalDepth (GObj ms) \<le> maxNestingDepth"
  shows "ck_Passed (evaluateHTTPProbe jsonErr iter io runID sc iv) \<longleftrightarrow>
    length (encodeCompact (GObj ms)) \<le> 4097 \<and>
    (\<exists>got. LookupJSONPath jsonErr (encodeCompact (GObj ms)) (iv_ExpectJSONPath iv) = Found got \<and> valuesEqual got (iv_ExpectEquals iv))"
proof -
  let ?s = "encodeCompact (GObj ms)"
  let ?raw = "take 4097 (?s @ t)"
  have "ck_Passed (evaluateHTTPProbe jsonErr iter io runID sc iv) \<longleftrightarrow>
      (\<exists>got. LookupJSONPath jsonErr ?raw (iv_ExpectJSONPath iv) = Found got \<and> valuesEqual got (iv_ExpectEquals iv))"
    using assms(1-4) by (auto simp: evaluateHTTPProbe_def readLimited_def maxBodyPreviewBytes_def failedInvariant_def Let_def split: lookup.split)
  moreover have "Unmarshal ?raw = (if length ?s \<le> 4097 then Unmarshal ?s else None)"
    using read_compact [OF assms(6,7,5), of 4097] parse_encodeCompact [OF assms(6,7)] by (simp add: Unmarshal_def)
  ultimately show ?thesis
    using LookupJSONPath_cong [of ?raw ?s] LookupJSONPath_undecodable [of ?raw] by (cases "length ?s \<le> 4097") auto
qed

text \<open>
  C16: the verdict of a probe. When the service answers with a JSON object, the check passes exactly when the object fits into
  the 4097 bytes the runner reads and the value at the path of the check is the expected one. So a probe of a larger
  document fails, whatever the document says.
\<close>

theorem probe_verdict:
  assumes "prepareProbe iter runID sc iv = Inr r" and "io_Admit io"
    and "io_Do io r = Inr \<lparr>hr_StatusCode = status, hr_Body = encodeCompact (GObj ms) @ t, hr_BodyErr = None\<rparr>"
    and "status < 400" and "list_all isJsonSpace t" and "exactFloats (GObj ms)" and "govalDepth (GObj ms) \<le> maxNestingDepth"
  shows "ck_Passed (evaluateHTTPProbe jsonErr iter io runID sc iv) \<longleftrightarrow>
    length (encodeCompact (GObj ms)) \<le> 4097 \<and>
    (\<exists>got. LookupJSONPath jsonErr (encodeCompact (GObj ms)) (iv_ExpectJSONPath iv) = Found got \<and> valuesEqual got (iv_ExpectEquals iv))"
  using assms by (rule probe_reads)

theorem probe_verdict_witness:
  "ck_Passed (evaluateHTTPProbe (\<lambda>_. ''invalid'') (\<lambda>m. m) (okIO (encodeCompact (GObj [(''count'', GInt 1)]) @ newline)) ''run_7'' checkoutRace
     oneOrderProbe)"
proof -
  let ?v = "GObj [(''count'', GInt 1)]"
  have "isl (prepareProbe (\<lambda>m. m) ''run_7'' checkoutRace oneOrderProbe) = False"
    by code_simp
  then obtain r where r: "prepareProbe (\<lambda>m. m) ''run_7'' checkoutRace oneOrderProbe = Inr r"
    by (cases "prepareProbe (\<lambda>m. m) ''run_7'' checkoutRace oneOrderProbe") simp_all
  have "list_all isJsonSpace newline" "exactFloats ?v" "govalDepth ?v \<le> maxNestingDepth"
    by code_simp+
  moreover have "length (encodeCompact ?v) \<le> 4097"
    by code_simp
  moreover have "LookupJSONPath (\<lambda>_. ''invalid'') (encodeCompact ?v) ''$.count'' = Found (JNum 1)" "valuesEqual (JNum 1) (JNum 1)"
    by code_simp+
  ultimately show ?thesis
    using probe_verdict [OF r, of "okIO (encodeCompact ?v @ newline)" 200 _ newline "\<lambda>_. ''invalid''"]
    by (simp add: okIO_def oneOrderProbe_def)
qed

lemma failed_invariant_fails_run:
  assumes "RunWithOptions w optRunID sc0 = (Inr rep, es)" and "runID = effectiveRunID w optRunID" and "sc = effectiveScenario w sc0"
    and "\<not> list_all (invariantHolds w runID sc (fst (ri_Traffic w runID sc))) (enumerate 0 (sc_Invariants sc))"
  shows "rp_Status rep = StatusFailed"
proof -
  note fold = assms(3) [symmetric, unfolded effectiveScenario_def] assms(2) [symmetric, unfolded effectiveRunID_def]
  obtain r1 c1 e1 where su: "runControlRequests (ri_Iter w) (ri_Setup w) runID sc ''setup'' (sc_Setup sc) = (r1, c1, e1)"
    by (cases "runControlRequests (ri_Iter w) (ri_Setup w) runID sc ''setup'' (sc_Setup sc)")
  obtain records e3 where traffic: "ri_Traffic w runID sc = (records, e3)"
    by (cases "ri_Traffic w runID sc")
  have "\<not> list_all ck_Passed (evaluateInvariants (ri_JsonErr w) (ri_Iter w) (ri_Probes w) runID sc records)"
    using assms(4) by (simp add: evaluateInvariants_Passed traffic)
  then show ?thesis
    using assms(1) unfolding RunWithOptions_def Let_def fold su traffic
    by (auto simp: Build_Status hasFailedCheck_iff split: option.splits if_splits prod.splits)
qed

lemma headers_kept [simp]: "hq_URL (headerSet k v r) = hq_URL r" "hq_URL (setHeaders iter h r) = hq_URL r"
  "hq_Method (headerSet k v r) = hq_Method r" "hq_Method (setHeaders iter h r) = hq_Method r"
proof -
  show keep: "hq_URL (headerSet k v r) = hq_URL r" "hq_Method (headerSet k v r) = hq_Method r" for k v r
    by (simp_all add: headerSet_def)
  have "hq_URL (fold (\<lambda>(k, v). headerSet k v) xs r) = hq_URL r \<and> hq_Method (fold (\<lambda>(k, v). headerSet k v) xs r) = hq_Method r" for xs
    by (induction xs arbitrary: r) (simp_all add: keep case_prod_beta)
  then show "hq_URL (setHeaders iter h r) = hq_URL r" "hq_Method (setHeaders iter h r) = hq_Method r"
    by (simp_all add: setHeaders_def)
qed

end
