(* ===== verification/HttpRuns.thy ===== *)
theory HttpRuns
  imports HttpApi
begin

text \<open>
  What the handlers of \<^verbatim>\<open>internal/httpapi/server.go\<close> do to the runs: the execution of a run inside the server, its
  cancellation, its creation, the target it is resolved against, and the counts of the metrics page.
\<close>

section \<open>Execution inside the server\<close>

text \<open>What the rest of the server does to the state between the calls of an execution: any calls to the store.\<close>

definition serverGaps :: "'s StoreOps \<Rightarrow> string \<Rightarrow> (nat \<Rightarrow> ('s, 'b, 'q) ServerState \<Rightarrow> ('s, 'b, 'q) ServerState) \<Rightarrow> bool" where
  "serverGaps ops rid gap \<longleftrightarrow> (\<forall>i st. storeSteps ops rid (ss_store st) (ss_store (gap i st)))"

definition serverApiGaps :: "'s StoreOps \<Rightarrow> string \<Rightarrow> (nat \<Rightarrow> ('s, 'b, 'q) ServerState \<Rightarrow> ('s, 'b, 'q) ServerState) \<Rightarrow> bool" where
  "serverApiGaps ops rid gap \<longleftrightarrow> (\<forall>i st. apiSteps ops rid (ss_store st) (ss_store (gap i st)))"

lemma bookkeeping_store [simp]:
  "ss_store (registerRunCancel rid st) = ss_store st" "ss_store (snd (finishRunCancel rid st)) = ss_store st"
  "ss_store (snd (requestRunCancel rid st)) = ss_store st"
  by (simp_all add: registerRunCancel_def finishRunCancel_def requestRunCancel_def split: option.split)

text \<open>The store an execution leaves: as the run was when it did not start, or after one of the three final calls.\<close>

lemma executeRun_result:
  assumes "srv_store srv = ops"
    and "st2 = gap 1 ((gap 0 (registerRunCancel rid st))\<lparr>ss_store :=
      so_MarkRunStarted ops clock rid (ss_store (gap 0 (registerRunCancel rid st)))\<rparr>)"
    and "so_GetRun ops rid (ss_store st2) = Some r2"
    and "s4 = ss_store (gap 3 (snd (finishRunCancel rid (gap 2 st2))))"
  obtains "run_Status r2 \<noteq> RunRunning" and "ss_store (executeRun srv clock gap outcome rid sc st) = ss_store st2"
  | rep where "ss_store (executeRun srv clock gap outcome rid sc st) = so_CancelRun ops clock rid rep s4"
  | err where "outcome = Inl err" and "ss_store (executeRun srv clock gap outcome rid sc st) = so_ErrorRun ops clock rid err s4"
  | rep where "outcome = Inr rep" and "ss_store (executeRun srv clock gap outcome rid sc st) = so_CompleteRun ops clock rid rep s4"
  using assms(3) unfolding executeRun_def Let_def assms(1) assms(2) [symmetric]
  by (cases "run_Status r2 = RunRunning"; cases "fst (finishRunCancel rid (gap 2 st2))"; cases outcome)
    (auto simp: case_prod_beta assms(4))

context run_store
begin

lemma server_gap:
  assumes "serverGaps ops rid gap" and "so_GetRun ops rid (ss_store st) = Some r"
  shows "\<exists>r'. so_GetRun ops rid (ss_store (gap i st)) = Some r' \<and>
    (run_Status r' = run_Status r \<or> run_Status r' = RunRunning \<or> isTerminalRunStatus (run_Status r'))"
  using steps_get(3) assms unfolding serverGaps_def by metis

lemma mark_started:
  assumes "so_GetRun ops rid s = Some r"
  shows "\<exists>r'. so_GetRun ops rid (so_MarkRunStarted ops clock rid s) = Some r' \<and>
    (run_Status r' = RunRunning \<or> isTerminalRunStatus (run_Status r') \<and> r' = r)"
  using started [OF assms] write_frozen [OF runWrite.start assms]
  by (cases "isTerminalRunStatus (run_Status r)") blast+

lemma any_finish:
  assumes "so_GetRun ops rid s = Some r"
  shows "\<exists>r'. so_GetRun ops rid (so_CancelRun ops c rid rep s) = Some r' \<and> isTerminalRunStatus (run_Status r')"
    and "\<exists>r'. so_GetRun ops rid (so_CompleteRun ops c rid rep s) = Some r' \<and> isTerminalRunStatus (run_Status r')"
    and "\<exists>r'. so_GetRun ops rid (so_ErrorRun ops c rid err s) = Some r' \<and> isTerminalRunStatus (run_Status r')"
proof -
  have "run_Status r \<in> Collect isTerminalRunStatus \<or> \<not> isTerminalRunStatus (run_Status r)"
    by simp
  note fin = finish_run [OF assms this]
  show "\<exists>r'. so_GetRun ops rid (so_CancelRun ops c rid rep s) = Some r' \<and> isTerminalRunStatus (run_Status r')"
    using fin(1) by fastforce
  show "\<exists>r'. so_GetRun ops rid (so_CompleteRun ops c rid rep s) = Some r' \<and> isTerminalRunStatus (run_Status r')"
    using fin(2) by fastforce
  show "\<exists>r'. so_GetRun ops rid (so_ErrorRun ops c rid err s) = Some r' \<and> isTerminalRunStatus (run_Status r')"
    using fin(3) by fastforce
qed

lemma executeRun_finishes:
  assumes "srv_store srv = ops" and "serverGaps ops rid gap" and "so_GetRun ops rid (ss_store st) = Some r"
  shows "\<exists>r'. so_GetRun ops rid (ss_store (executeRun srv clock gap outcome rid sc st)) = Some r' \<and> isTerminalRunStatus (run_Status r')"
proof -
  define st1 where "st1 = gap 0 (registerRunCancel rid st)"
  define st2 where "st2 = gap 1 (st1\<lparr>ss_store := so_MarkRunStarted ops clock rid (ss_store st1)\<rparr>)"
  obtain r1 where "so_GetRun ops rid (ss_store st1) = Some r1"
    using server_gap [OF assms(2), of "registerRunCancel rid st" r 0] assms(3) by (auto simp: st1_def)
  then obtain r1' where "so_GetRun ops rid (ss_store (st1\<lparr>ss_store := so_MarkRunStarted ops clock rid (ss_store st1)\<rparr>)) = Some r1'"
    "run_Status r1' = RunRunning \<or> isTerminalRunStatus (run_Status r1')"
    using mark_started by fastforce
  from server_gap [OF assms(2) this(1), of 1] this(2) obtain r2 where
    r2: "so_GetRun ops rid (ss_store st2) = Some r2" "run_Status r2 = RunRunning \<or> isTerminalRunStatus (run_Status r2)"
    unfolding st2_def by auto
  obtain r3 where "so_GetRun ops rid (ss_store (gap 2 st2)) = Some r3"
    using server_gap [OF assms(2) r2(1)] by blast
  then obtain r4 where r4: "so_GetRun ops rid (ss_store (gap 3 (snd (finishRunCancel rid (gap 2 st2))))) = Some r4"
    using server_gap [OF assms(2), of "snd (finishRunCancel rid (gap 2 st2))" r3 3] by auto
  show ?thesis
    by (rule executeRun_result [where gap = gap and st = st and outcome = outcome and sc = sc,
          OF assms(1) st2_def [unfolded st1_def] r2(1) refl])
      (use r2 any_finish [OF r4] in \<open>simp_all\<close>)
qed

lemma server_api_gap:
  assumes "serverApiGaps ops rid gap" and "so_GetRun ops rid (ss_store st) = Some r" and "run_Status r \<in> {x, RunCanceled}"
  shows "\<exists>r'. so_GetRun ops rid (ss_store (gap i st)) = Some r' \<and> run_Status r' \<in> {x, RunCanceled}"
  using api_get [of rid "ss_store st" "ss_store (gap i st)"] assms unfolding serverApiGaps_def by fastforce

lemma executeRun_outcome:
  assumes "srv_store srv = ops" and "serverApiGaps ops rid gap" and "so_GetRun ops rid (ss_store st) = Some r"
    and "run_Status r = RunQueued"
  shows "\<exists>r'. so_GetRun ops rid (ss_store (executeRun srv clock gap outcome rid sc st)) = Some r' \<and>
    run_Status r' \<in> {outcomeStatus outcome, RunCanceled}"
proof -
  define st1 where "st1 = gap 0 (registerRunCancel rid st)"
  define st2 where "st2 = gap 1 (st1\<lparr>ss_store := so_MarkRunStarted ops clock rid (ss_store st1)\<rparr>)"
  obtain r1 where "so_GetRun ops rid (ss_store st1) = Some r1" "run_Status r1 \<in> {RunQueued, RunCanceled}"
    using server_api_gap [OF assms(2), of "registerRunCancel rid st" r RunQueued 0] assms(3,4) by (auto simp: st1_def)
  then obtain r1' where "so_GetRun ops rid (ss_store (st1\<lparr>ss_store := so_MarkRunStarted ops clock rid (ss_store st1)\<rparr>)) = Some r1'"
    "run_Status r1' \<in> {RunRunning, RunCanceled}"
    using mark_started [of rid "ss_store st1" r1 clock] by auto
  from server_api_gap [OF assms(2) this, of 1] obtain r2 where
    r2: "so_GetRun ops rid (ss_store st2) = Some r2" "run_Status r2 \<in> {RunRunning, RunCanceled}"
    unfolding st2_def by blast
  from server_api_gap [OF assms(2) this, of 2] obtain r3 where
    "so_GetRun ops rid (ss_store (gap 2 st2)) = Some r3" "run_Status r3 \<in> {RunRunning, RunCanceled}"
    by blast
  then obtain r4 where r4: "so_GetRun ops rid (ss_store (gap 3 (snd (finishRunCancel rid (gap 2 st2))))) = Some r4"
    "run_Status r4 \<in> {RunRunning, RunCanceled}"
    using server_api_gap [OF assms(2), of "snd (finishRunCancel rid (gap 2 st2))" r3 RunRunning 3] by auto
  have "run_Status r4 \<in> {RunCanceled} \<or> \<not> isTerminalRunStatus (run_Status r4)"
    using r4(2) by auto
  note fin = finish_run [OF r4(1) this]
  have can: "\<exists>r'. so_GetRun ops rid (so_CancelRun ops clock rid rep (ss_store (gap 3 (snd (finishRunCancel rid (gap 2 st2)))))) = Some r' \<and>
      run_Status r' \<in> {outcomeStatus outcome, RunCanceled}" for rep
    using fin(1) [of clock rep] by auto
  show ?thesis
    by (rule executeRun_result [where gap = gap and st = st and outcome = outcome and sc = sc,
          OF assms(1) st2_def [unfolded st1_def] r2(1) refl])
      (use can r2 fin(2,3) in \<open>auto simp: outcomeStatus_def\<close>)
qed

end

text \<open>
  C30: a run executed inside the server ends. Whatever the runner returns and whatever the other requests do to the store
  meanwhile, the run is finished when the execution returns; and where the others do no more than cancel the run, a queued
  run ends with the status its result calls for, or canceled.
\<close>

theorem executeRun_ends_the_run:
  assumes "srv_store srv = memoryOps iterT iterS iterR" and "serverGaps (memoryOps iterT iterS iterR) rid gap"
    and "GetRun rid (ss_store st) = Some r"
  shows "\<exists>r'. GetRun rid (ss_store (executeRun srv clock gap outcome rid sc st)) = Some r' \<and> isTerminalRunStatus (run_Status r') \<and>
    (serverApiGaps (memoryOps iterT iterS iterR) rid gap \<and> run_Status r = RunQueued \<longrightarrow>
       run_Status r' = outcomeStatus outcome \<or> run_Status r' = RunCanceled)"
  using mem.executeRun_finishes [OF assms(1,2), of st r clock outcome sc]
    mem.executeRun_outcome [OF assms(1), of rid gap st r clock outcome sc] assms(3) by auto

section \<open>Cancellation\<close>

text \<open>
  What a cancel request does. An unknown run is answered with 404 and a finished one with 409, and nothing
  changes. A run that is queued or running is answered with 202 and its cancellation is requested. When its execution is
  registered in this server the registration is told; a queued run that is not is canceled on the spot; a run that
  a worker executes is left to the worker.
\<close>

theorem cancelRun_effect:
  assumes "srv_store srv = memoryOps iterT iterS iterR" and "cancelRun srv clock rid st = (resp, st')"
  shows "(case GetRun rid (ss_store st) of
      None \<Rightarrow> rs_Status resp = 404 \<and> st' = st
    | Some r \<Rightarrow>
        if \<not> isCancelableRunStatus (run_Status r) then rs_Status resp = 409 \<and> st' = st
        else rs_Status resp = 202 \<and> IsRunCancelRequested rid (ss_store st') \<and>
          (if mapGet (ss_runCancels st) rid \<noteq> None
           then mapGet (ss_cancelRequests st') rid \<noteq> None \<and> GetRun rid (ss_store st') = Some r
           else if run_Status r = RunQueued
           then \<exists>r'. GetRun rid (ss_store st') = Some r' \<and> run_Status r' = RunCanceled
           else GetRun rid (ss_store st') = Some r))"
proof (cases "GetRun rid (ss_store st)")
  case (Some r)
  show ?thesis
  proof (cases "isCancelableRunStatus (run_Status r)")
    case True
    define s1 where "s1 = snd (RequestRunCancel clock rid (ss_store st))"
    have ok: "fst (RequestRunCancel clock rid (ss_store st))"
      using Some True by (simp add: RequestRunCancel_result)
    then have req: "RequestRunCancel clock rid (ss_store st) = (True, s1)"
      by (simp add: s1_def prod_eq_iff)
    have s1: "GetRun rid s1 = Some r" "IsRunCancelRequested rid s1"
      using Some ok by (simp_all add: s1_def request_request)
    show ?thesis
      using assms(2) Some True s1 unfolding cancelRun_def assms(1) memoryOps_sel req
      by (auto simp: requestRunCancel_def request_lifecycle canceledRecord_def writeJSON_def split: option.splits if_splits)
  qed (use Some assms in \<open>auto simp: cancelRun_def writeError_def writeJSON_def\<close>)
qed (use assms in \<open>auto simp: cancelRun_def notFound_def writeError_def writeJSON_def\<close>)

section \<open>Creation\<close>

text \<open>
  What a run request with a queue does. Whatever it answers, it answers 202 exactly when a new queued run is stored
  and the queue has accepted its identifier; where the queue refuses, the answer is 503 and the new run is already
  finished with the error. A request that is refused before that leaves the state as it was.
\<close>

theorem createRun_enqueues:
  assumes "srv_store srv = memoryOps iterT iterS iterR" and "srv_queue srv = Some enqueue"
    and "createRun srv clock sync body st = (resp, job, st')"
  shows "job = None \<and>
    (st' = st \<and> rs_Status resp \<in> {400, 404} \<or>
     (\<exists>r err. rs_Status resp = 503 \<and> fst (enqueue (run_ID r) (ss_queue st)) = Some err \<and>
        GetRun (run_ID r) (ss_store st') = Some r \<and> run_Status r = RunErrored \<and> run_Error r = ''enqueue run: '' @ err) \<or>
     (\<exists>r. resp = writeJSON 202 (PRun r) \<and> enqueue (run_ID r) (ss_queue st) = (None, ss_queue st') \<and>
        GetRun (run_ID r) (ss_store st') = Some r \<and> run_Status r = RunQueued))"
proof -
  consider (refused) "st' = st" "rs_Status resp \<in> {400, 404}" "job = None"
    | (created) sid tid sc ref r m where "CreateRun clock sid tid sc ref (ss_store st) = (r, m)"
      "(resp, job, st') = (case enqueue (run_ID r) (ss_queue st) of
         (Some err, q) \<Rightarrow> (writeError 503 (''enqueue run: '' @ err), None, st\<lparr>ss_store := m, ss_queue := q,
             ss_store := ErrorRun (clock \<circ> Suc \<circ> Suc) (run_ID r) (''enqueue run: '' @ err) m\<rparr>)
       | (None, q) \<Rightarrow> (writeJSON 202 (PRun r), None, st\<lparr>ss_store := m, ss_queue := q\<rparr>))"
    using assms(3) unfolding createRun_def assms(1,2) memoryOps_sel
    by (auto simp: Let_def requestedScenario_def versionNotFound_def notFound_def writeError_def writeJSON_def
        split: sum.splits prod.splits option.splits if_splits)
  then show ?thesis
  proof cases
    case created
    note r = CreateRun_record(1,7) [OF created(1)]
    show ?thesis
    proof (cases "enqueue (run_ID r) (ss_queue st)")
      case (Pair e q)
      show ?thesis
      proof (cases e)
        case None
        then show ?thesis
          using created(2) Pair r by auto
      next
        case (Some err)
        let ?r = "erroredRecord (clock 2) (''enqueue run: '' @ err) r"
        have "?r = r\<lparr>run_Status := RunErrored, run_Error := ''enqueue run: '' @ err, run_FinishedAt := Some (clock 2)\<rparr>"
          by (simp add: erroredRecord_def r(1))
        then have "run_ID ?r = run_ID r" "run_Status ?r = RunErrored" "run_Error ?r = ''enqueue run: '' @ err"
          by simp_all
        then show ?thesis
          using created(2) Pair Some r
          by (intro conjI disjI2 disjI1 exI [of _ ?r] exI [of _ err])
            (auto simp: writeError_def writeJSON_def numeral_2_eq_2)
      qed
    qed
  qed blast
qed

section \<open>Targets of a run\<close>

lemma mapGet_Cons: "mapGet ((a, v) # h) k = (if k = a then Some v else mapGet h k)"
  by (auto simp: mapGet_def)

lemma mapGet_fold_mapSet:
  "mapWf h \<Longrightarrow> mapGet (fold (\<lambda>(k, v). mapSet k v) h m) k = (case mapGet h k of None \<Rightarrow> mapGet m k | Some v \<Rightarrow> Some v)"
proof (induction h arbitrary: m)
  case (Cons p h)
  obtain a v where p: "p = (a, v)"
    by (cases p)
  then have "mapWf h" "mapGet h a = None"
    using Cons.prems by (auto simp: mapWf_def mapGet_def map_of_eq_None_iff)
  then show ?case
    using Cons.IH [of "mapSet a v m"] by (auto simp: p mapGet_Cons split: option.split)
qed simp

definition headerOf :: "headers \<Rightarrow> string \<Rightarrow> string option" where
  "headerOf h k = (case h of None \<Rightarrow> None | Some m \<Rightarrow> mapGet m k)"

definition headersWf :: "headers \<Rightarrow> bool" where
  "headersWf h \<longleftrightarrow> (case h of None \<Rightarrow> True | Some m \<Rightarrow> mapWf m)"

lemma mergeHeaders_get:
  assumes "headersWf th" and "headersWf sh"
  shows "headerOf (mergeHeaders th sh) k = (case headerOf sh k of None \<Rightarrow> headerOf th k | Some v \<Rightarrow> Some v)"
  using assms
  by (auto simp: mergeHeaders_def headerOf_def headersWf_def Let_def mapGet_fold_mapSet split: option.split)

text \<open>
  The target a run is resolved against. The identifier of the request goes before the one in the scenario; with
  neither the scenario is left as it is. A stored target decides the base URL; its headers are kept except where
  the scenario sets the same header. An identifier that is not stored is an error. The rest of the scenario is not touched.
\<close>

theorem resolveScenarioTarget_correct:
  assumes "targetID = (if TrimSpace explicit = '''' then TrimSpace (tg_ID (sc_Target sc)) else TrimSpace explicit)"
  shows "(case resolveScenarioTarget srv st sc explicit of
      Inl err \<Rightarrow> targetID \<noteq> '''' \<and> so_GetTarget (srv_store srv) targetID (ss_store st) = None
    | Inr (sc', tid) \<Rightarrow>
        (if targetID = '''' then sc' = sc \<and> tid = ''''
         else \<exists>t. so_GetTarget (srv_store srv) targetID (ss_store st) = Some t \<and> tid = tgr_ID t \<and>
           tg_BaseURL (sc_Target sc') = tgr_BaseURL t \<and> sc'\<lparr>sc_Target := sc_Target sc\<rparr> = sc \<and>
           (headersWf (tgr_Headers t) \<and> headersWf (tg_Headers (sc_Target sc)) \<longrightarrow>
              (\<forall>k. headerOf (tg_Headers (sc_Target sc')) k =
                 (case headerOf (tg_Headers (sc_Target sc)) k of
                    None \<Rightarrow> headerOf (tgr_Headers t) k
                  | Some v \<Rightarrow> Some v)))))"
  using assms by (auto simp: resolveScenarioTarget_def Let_def mergeHeaders_get split: option.split)

section \<open>Metrics\<close>

lemma countRuns_counts:
  "countRuns (a, p, f, e, c) rs =
     (a + int (length (filter (\<lambda>r. isCancelableRunStatus (run_Status r)) rs)),
      p + int (length (filter (\<lambda>r. run_Status r = RunPassed) rs)), f + int (length (filter (\<lambda>r. run_Status r = RunFailed) rs)),
      e + int (length (filter (\<lambda>r. run_Status r = RunErrored) rs)), c + int (length (filter (\<lambda>r. run_Status r = RunCanceled) rs)))"
proof (induction rs arbitrary: a p f e c)
  case (Cons r rs)
  then show ?case
    by (simp add: isCancelableRunStatus_def run_status)
qed simp

lemma count_partition:
  assumes "list_all (\<lambda>r. knownRunStatus (run_Status r)) rs"
  shows "length (filter (\<lambda>r. isCancelableRunStatus (run_Status r)) rs) + length (filter (\<lambda>r. run_Status r = RunPassed) rs) +
    length (filter (\<lambda>r. run_Status r = RunFailed) rs) + length (filter (\<lambda>r. run_Status r = RunErrored) rs) +
    length (filter (\<lambda>r. run_Status r = RunCanceled) rs) = length rs"
  using assms
  by (induction rs) (auto simp: knownRunStatus_def isTerminalRunStatus_def isCancelableRunStatus_def run_status)

lemma runs_frame:
  "runs (snd (CreateTarget c t m)) = runs m" "runs (snd (UpdateTarget c i t m)) = runs m" "runs (snd (DeleteTarget i m)) = runs m"
  "runs (snd (CreateScenario c sc m)) = runs m" "runs (snd (UpdateScenario c i sc m)) = runs m"
  "runs (snd (RequestRunCancel c i m)) = runs m" "runs (snd (AppendRunEvent c i e m)) = runs m"
  by (simp_all add: CreateTarget_def UpdateTarget_def DeleteTarget_def CreateScenario_def UpdateScenario_def
      RequestRunCancel_def AppendRunEvent_def Let_def split: option.split)

lemma mapWf_lifecycle:
  assumes "mapWf (runs m)"
  shows "mapWf (runs (MarkRunStarted c i m))" "mapWf (runs (CompleteRun c i rep m))" "mapWf (runs (CancelRun c i rep m))"
    "mapWf (runs (ErrorRun c i err m))" "mapWf (runs (snd (CreateRun c sid tid sc ref m)))"
  using assms by (simp_all add: lifecycle_defs CreateRun_def case_prod_beta Let_def split: option.split)

lemma step_mapWf: "memStep m m' \<Longrightarrow> mapWf (runs m) \<Longrightarrow> mapWf (runs m')"
proof (induction rule: memStep.induct)
  case (createRun clock sid tid sc ref m r m')
  then show ?case
    using mapWf_lifecycle(5) [of m clock sid tid sc ref] by simp
qed (simp_all add: runs_frame mapWf_lifecycle)

lemma reachable_mapWf: "memReachable m \<Longrightarrow> mapWf (runs m)"
  by (induction rule: rtranclp_induct) (auto simp: NewMemory_def step_mapWf)

text \<open>
  The metrics page counts every stored run under one status: in a reachable state of the memory store, whatever
  the order its map is read in, the five counts are those of the stored runs and add up to the total.
\<close>

theorem metrics_count_every_run:
  assumes "memReachable m" and "\<And>xs. mset (iterR xs) = mset xs"
    and "countRuns (0, 0, 0, 0, 0) (ListRuns iterR m) = (active, passed, failed, errored, canceled)"
  shows "active + passed + failed + errored + canceled = int (length (runs m)) \<and>
    active = int (size (filter_mset (\<lambda>r. isCancelableRunStatus (run_Status r)) (mset (map snd (runs m))))) \<and>
    passed = int (size (filter_mset (\<lambda>r. run_Status r = RunPassed) (mset (map snd (runs m)))))"
proof -
  let ?rs = "ListRuns iterR m"
  have ms: "mset ?rs = mset (map snd (runs m))"
    by (simp add: ListRuns_def assms(2))
  have set: "set ?rs = snd ` set (runs m)"
    using mset_eq_setD [OF ms] by simp
  have len: "length ?rs = length (runs m)"
    using mset_eq_length [OF ms] by simp
  have "knownRunStatus (run_Status r)" if r: "r \<in> set ?rs" for r
  proof -
    obtain rid where "(rid, r) \<in> set (runs m)"
      using r unfolding set by force
    then have "GetRun rid m = Some r"
      using in_set_mapGet [OF reachable_mapWf [OF assms(1)]] by (simp add: GetRun_def)
    then show ?thesis
      using reachable_invariants(1) [OF assms(1)] by (auto simp: runsWf_def runWf_def)
  qed
  then have "list_all (\<lambda>r. knownRunStatus (run_Status r)) ?rs"
    by (simp add: list_all_iff)
  moreover have "length (filter P ?rs) = size (filter_mset P (mset (map snd (runs m))))" for P
    by (metis ms mset_filter size_mset)
  ultimately show ?thesis
    using count_partition [of ?rs] assms(3) len unfolding countRuns_counts by auto
qed

section \<open>Concrete requests\<close>

theorem executeRun_ends_the_run_witness:
  "\<exists>r'. GetRun ''run_7'' (ss_store (executeRun sampleServer sampleClock (\<lambda>_ st. st) (Inr passedReport) ''run_7'' checkoutRace (sampleState queuedState))) = Some r' \<and>
     (run_Status r' = RunPassed \<or> run_Status r' = RunCanceled)"
proof -
  obtain r where r: "GetRun ''run_7'' (ss_store (sampleState queuedState)) = Some r" "run_Status r = RunQueued"
    by (rule queuedRun) (simp add: sampleState_def)
  have g: "serverGaps (memoryOps (\<lambda>x. x) (\<lambda>x. x) (\<lambda>x. x)) ''run_7'' (\<lambda>_ st. st)"
    "serverApiGaps (memoryOps (\<lambda>x. x) (\<lambda>x. x) (\<lambda>x. x)) ''run_7'' (\<lambda>_ st. st)"
    by (simp_all add: serverGaps_def serverApiGaps_def)
  have "outcomeStatus (Inr passedReport) = RunPassed"
    by (simp add: outcomeStatus_def runStatusOf_def passedReport_def Build_Status StatusPassed_def StatusFailed_def)
  with executeRun_ends_the_run [OF sampleServer_store g(1) r(1), of sampleClock "Inr passedReport" checkoutRace] g(2) r(2)
  show ?thesis
    by auto
qed

theorem cancelRun_effect_witness:
  "rs_Status (fst (cancelRun sampleServer sampleClock ''run_7'' (sampleState queuedState))) = 202 \<and>
   (\<exists>r'. GetRun ''run_7'' (ss_store (snd (cancelRun sampleServer sampleClock ''run_7'' (sampleState queuedState)))) = Some r' \<and>
      run_Status r' = RunCanceled)"
proof -
  obtain r where r: "GetRun ''run_7'' (ss_store (sampleState queuedState)) = Some r" "run_Status r = RunQueued"
    by (rule queuedRun) (simp add: sampleState_def)
  have "mapGet (ss_runCancels (sampleState queuedState)) ''run_7'' = None"
    by (simp add: sampleState_def)
  with cancelRun_effect [OF sampleServer_store surjective_pairing, of sampleClock "''run_7''" "sampleState queuedState"] r
  show ?thesis
    by simp
qed

definition busyQueue :: "string \<Rightarrow> unit \<Rightarrow> string option \<times> unit" where
  "busyQueue rid q = (Some ''redis is down'', q)"

theorem createRun_enqueues_witness:
  "rs_Status (fst (createRun (sampleServer\<lparr>srv_queue := Some busyQueue\<rparr>) sampleClock (\<lambda>_ _ st. st) (Inr sampleBody) (sampleState NewMemory))) = 503 \<and>
   (\<exists>r. GetRun (run_ID r) (ss_store (snd (snd (createRun (sampleServer\<lparr>srv_queue := Some busyQueue\<rparr>) sampleClock (\<lambda>_ _ st. st) (Inr sampleBody) (sampleState NewMemory))))) = Some r \<and>
      run_Status r = RunErrored)"
proof -
  let ?srv = "sampleServer\<lparr>srv_queue := Some busyQueue\<rparr>"
  let ?c = "createRun ?srv sampleClock (\<lambda>_ _ st. st) (Inr sampleBody) (sampleState NewMemory)"
  have st: "rs_Status (fst ?c) = 503"
    by code_simp
  have "srv_store ?srv = memoryOps (\<lambda>x. x) (\<lambda>x. x) (\<lambda>x. x)" "srv_queue ?srv = Some busyQueue"
    by (simp_all add: sampleServer_store)
  from createRun_enqueues [OF this, of sampleClock "\<lambda>_ _ st. st" "Inr sampleBody" "sampleState NewMemory" "fst ?c" "fst (snd ?c)" "snd (snd ?c)"] st
  show ?thesis
    by (auto simp: writeJSON_def)
qed

theorem resolveScenarioTarget_correct_witness:
  "\<exists>sc'. resolveScenarioTarget sampleServer (sampleState (snd (CreateTarget sampleClock sampleTarget NewMemory))) checkoutRace ''tgt_7'' = Inr (sc', ''tgt_7'') \<and>
     tg_BaseURL (sc_Target sc') = ''http://shop.test''"
proof -
  let ?st = "sampleState (snd (CreateTarget sampleClock sampleTarget NewMemory))"
  let ?res = "resolveScenarioTarget sampleServer ?st checkoutRace ''tgt_7''"
  have id: "''tgt_7'' = (if TrimSpace ''tgt_7'' = '''' then TrimSpace (tg_ID (sc_Target checkoutRace)) else TrimSpace ''tgt_7'')"
    by code_simp
  have g: "map_option (\<lambda>t. (tgr_ID t, tgr_BaseURL t)) (GetTarget ''tgt_7'' (ss_store ?st)) = Some (''tgt_7'', ''http://shop.test'')"
    by code_simp
  then obtain t where t: "GetTarget ''tgt_7'' (ss_store ?st) = Some t" "tgr_ID t = ''tgt_7''" "tgr_BaseURL t = ''http://shop.test''"
    by auto
  show ?thesis
    using resolveScenarioTarget_correct [OF id, of sampleServer ?st] t
    by (auto simp: sampleServer_store split: sum.splits prod.splits)
qed

theorem metrics_count_every_run_witness:
  "\<exists>active passed failed errored canceled.
     countRuns (0, 0, 0, 0, 0) (ListRuns (\<lambda>x. x) erroredState) = (active, passed, failed, errored, canceled) \<and>
     active + passed + failed + errored + canceled = 1"
proof -
  have "length (runs erroredState) = 1"
    by code_simp
  moreover obtain active passed failed errored canceled where
    "countRuns (0, 0, 0, 0, 0) (ListRuns (\<lambda>x. x) erroredState) = (active, passed, failed, errored, canceled)"
    by (cases "countRuns (0, 0, 0, 0, 0) (ListRuns (\<lambda>x. x) erroredState)")
  ultimately show ?thesis
    using metrics_count_every_run [OF erroredState_reachable] by fastforce
qed

end
