(* ===== verification/HttpRoutes.thy ===== *)
theory HttpRoutes
  imports HttpRuns
begin

text \<open>
  The handler of \<^verbatim>\<open>internal/httpapi/server.go\<close> as a whole: the route table, the matching rules of \<^verbatim>\<open>http.ServeMux\<close> that it
  relies on, \<^verbatim>\<open>readJSON\<close>, the wrappers for content type and CORS, and the dispatch of a request to the handlers of
  \<open>HttpApi\<close>.

  A request has its method, its URL and its body, and the accessors \<^verbatim>\<open>Header.Get\<close> and \<^verbatim>\<open>Query().Get\<close> as functions. The JSON
  decoders are parameters: given whether the text is the whole body, they return None when the first value is not
  complete.
\<close>

section \<open>Matching of requests\<close>

datatype segment = Lit string | Wild string | Multi

type_synonym 'r patterns = "(segment list \<times> 'r) list"

text \<open>\<^verbatim>\<open>cleanPath\<close>: empty and dot segments go, a dot-dot segment takes the one before it away, a trailing slash stays.\<close>

fun cleanSegments :: "string list \<Rightarrow> string list \<Rightarrow> string list" where
  "cleanSegments acc [] = rev acc"
| "cleanSegments acc (s # ss) =
     (if s = '''' \<or> s = ''.'' then cleanSegments acc ss
      else if s = ''..'' then cleanSegments (tl acc) ss
      else cleanSegments (s # acc) ss)"

definition cleanPath :: "string \<Rightarrow> string" where
  "cleanPath p =
     (let np = ''/'' @ Join (cleanSegments [] (Split p CHR ''/'')) ''/''
      in if HasSuffix p ''/'' \<and> np \<noteq> ''/'' then np @ ''/'' else np)"

definition pathUnescape :: "string \<Rightarrow> string" where
  "pathUnescape s = (case unescape encodePath s of Inl _ \<Rightarrow> s | Inr t \<Rightarrow> t)"

text \<open>The segments of a clean path as \<^verbatim>\<open>firstSegment\<close> takes them off; a trailing slash is the last one.\<close>

definition pathSegments :: "string \<Rightarrow> string list" where
  "pathSegments p = map (\<lambda>s. if s = '''' then ''/'' else pathUnescape s) (Split (tl p) CHR ''/'')"

text \<open>A node of the routing tree is what is left of the patterns below it; a literal comes before a wildcard, a wildcard before a subtree.\<close>

fun below :: "segment \<Rightarrow> 'r patterns \<Rightarrow> 'r patterns" where
  "below k [] = []"
| "below k (([], r) # node) = below k node"
| "below k ((p # ps, r) # node) = (if p = k then (ps, r) # below k node else below k node)"

fun belowWild :: "'r patterns \<Rightarrow> 'r patterns" where
  "belowWild [] = []"
| "belowWild ((Wild _ # ps, r) # node) = (ps, r) # belowWild node"
| "belowWild (_ # node) = belowWild node"

definition leaf :: "segment list \<Rightarrow> 'r patterns \<Rightarrow> 'r option" where
  "leaf ps node = map_option snd (find (\<lambda>(q, _). q = ps) node)"

fun matchPath :: "'r patterns \<Rightarrow> string list \<Rightarrow> ('r \<times> string list) option" where
  "matchPath node [] = map_option (\<lambda>r. (r, [])) (leaf [] node)"
| "matchPath node (seg # rest) =
     (case matchPath (below (Lit seg) node) rest of
        Some x \<Rightarrow> Some x
      | None \<Rightarrow>
          (case (if seg \<noteq> ''/'' then map_option (\<lambda>(r, m). (r, seg # m)) (matchPath (belowWild node) rest) else None) of
             Some x \<Rightarrow> Some x
           | None \<Rightarrow> map_option (\<lambda>r. (r, [])) (leaf [Multi] node)))"

text \<open>The routes of a method; what is found is the pattern and its route.\<close>

type_synonym 'r table = "(string \<times> segment list \<times> 'r) list"

definition methodPatterns :: "string \<Rightarrow> 'r table \<Rightarrow> (segment list \<times> 'r) patterns" where
  "methodPatterns method table = map (\<lambda>(_, ps, r). (ps, ps, r)) (filter (\<lambda>(m, _). m = method) table)"

definition matchMethod :: "'r table \<Rightarrow> string \<Rightarrow> string \<Rightarrow> ((segment list \<times> 'r) \<times> string list) option" where
  "matchMethod table method path =
     (case matchPath (methodPatterns method table) (pathSegments path) of
        Some x \<Rightarrow> Some x
      | None \<Rightarrow> (if method = ''HEAD'' then matchPath (methodPatterns ''GET'' table) (pathSegments path) else None))"

text \<open>\<^verbatim>\<open>matchingMethods\<close>, sorted, for a table of these methods; GET stands for HEAD too.\<close>

definition allowedMethods :: "'r table \<Rightarrow> string \<Rightarrow> string list" where
  "allowedMethods table path =
     (let hit = (\<lambda>m. matchPath (methodPatterns m table) (pathSegments path) \<noteq> None \<or>
                   (\<not> HasSuffix path ''/'' \<and> matchPath (methodPatterns m table) (pathSegments (path @ ''/'')) \<noteq> None))
      in filter (\<lambda>m. hit (if m = ''HEAD'' then ''GET'' else m)) [''DELETE'', ''GET'', ''HEAD'', ''POST'', ''PUT''])"

datatype 'r dispatch = Serve "segment list" 'r "string list" | RedirectTo string | MethodNotAllowed "string list" | NotFoundPage

definition exactMatch :: "((segment list \<times> 'r) \<times> string list) option \<Rightarrow> string \<Rightarrow> bool" where
  "exactMatch n path =
     (case n of
        None \<Rightarrow> False
      | Some ((ps, _), _) \<Rightarrow> \<not> HasSuffix path ''/'' \<or> length ps = length (filter (\<lambda>c. c = CHR ''/'') path))"

definition findHandler :: "'r table \<Rightarrow> string \<Rightarrow> URL \<Rightarrow> 'r dispatch" where
  "findHandler table method u =
     (let escaped = EscapedPath u; path = cleanPath escaped; n = matchMethod table method path
      in if \<not> exactMatch n path \<and> \<not> HasSuffix path ''/'' \<and> exactMatch (matchMethod table method (path @ ''/'')) (path @ ''/'')
         then RedirectTo (cleanPath (Path u) @ ''/'')
         else if path \<noteq> escaped then RedirectTo path
         else case n of
                Some ((ps, r), values) \<Rightarrow> Serve ps r values
              | None \<Rightarrow> (case allowedMethods table path of [] \<Rightarrow> NotFoundPage | ms \<Rightarrow> MethodNotAllowed ms))"

text \<open>\<^verbatim>\<open>Request.PathValue\<close>: the wildcards of the pattern, in order.\<close>

definition wildNames :: "segment list \<Rightarrow> string list" where
  "wildNames ps = concat (map (\<lambda>p. case p of Wild n \<Rightarrow> [n] | _ \<Rightarrow> []) ps)"

definition PathValue :: "segment list \<Rightarrow> string list \<Rightarrow> string \<Rightarrow> string" where
  "PathValue ps values name = (case map_of (zip (wildNames ps) values) name of None \<Rightarrow> '''' | Some v \<Rightarrow> v)"

section \<open>The route table\<close>

datatype route = RHealth | RMetrics | RListTargets | RCreateTarget | RGetTarget | RUpdateTarget | RDeleteTarget
  | RListScenarios | RCreateScenario | RGetScenario | RUpdateScenario | RListScenarioVersions | RGetScenarioVersion
  | RListRuns | RCreateRun | RCancelRun | RGetRunEvents | RStreamRunEvents | RGetRun

definition routes :: "route table" where
  "routes =
     [(''GET'', [Lit ''healthz''], RHealth), (''GET'', [Lit ''metrics''], RMetrics),
      (''GET'', [Lit ''v1'', Lit ''targets''], RListTargets), (''POST'', [Lit ''v1'', Lit ''targets''], RCreateTarget),
      (''GET'', [Lit ''v1'', Lit ''targets'', Wild ''id''], RGetTarget), (''PUT'', [Lit ''v1'', Lit ''targets'', Wild ''id''], RUpdateTarget),
      (''DELETE'', [Lit ''v1'', Lit ''targets'', Wild ''id''], RDeleteTarget),
      (''GET'', [Lit ''v1'', Lit ''scenarios''], RListScenarios), (''POST'', [Lit ''v1'', Lit ''scenarios''], RCreateScenario),
      (''GET'', [Lit ''v1'', Lit ''scenarios'', Wild ''id''], RGetScenario), (''PUT'', [Lit ''v1'', Lit ''scenarios'', Wild ''id''], RUpdateScenario),
      (''GET'', [Lit ''v1'', Lit ''scenarios'', Wild ''id'', Lit ''versions''], RListScenarioVersions),
      (''GET'', [Lit ''v1'', Lit ''scenarios'', Wild ''id'', Lit ''versions'', Wild ''version''], RGetScenarioVersion),
      (''GET'', [Lit ''v1'', Lit ''runs''], RListRuns), (''POST'', [Lit ''v1'', Lit ''runs''], RCreateRun),
      (''POST'', [Lit ''v1'', Lit ''runs'', Wild ''id'', Lit ''cancel''], RCancelRun),
      (''GET'', [Lit ''v1'', Lit ''runs'', Wild ''id'', Lit ''events''], RGetRunEvents),
      (''GET'', [Lit ''v1'', Lit ''runs'', Wild ''id'', Lit ''events'', Lit ''stream''], RStreamRunEvents),
      (''GET'', [Lit ''v1'', Lit ''runs'', Multi], RGetRun)]"

section \<open>The handler\<close>

record Incoming =
  in_Method :: string
  in_URL :: URL
  in_Header :: "string \<Rightarrow> string"
  in_Query :: "string \<Rightarrow> string"
  in_Body :: string

text \<open>What a request meets: the clock, the decoders, the execution of a synchronous run, and the connection of a stream.\<close>

record ('s, 'b, 'q) Serving =
  sg_Clock :: clock
  sg_DecTarget :: "bool \<Rightarrow> string \<Rightarrow> targetRequest result option"
  sg_DecScenario :: "bool \<Rightarrow> string \<Rightarrow> Scenario result option"
  sg_DecRun :: "bool \<Rightarrow> string \<Rightarrow> createRunRequest result option"
  sg_Sync :: "string \<Rightarrow> Scenario \<Rightarrow> ('s, 'b, 'q) ServerState \<Rightarrow> ('s, 'b, 'q) ServerState"
  sg_Flusher :: bool
  sg_Marshal :: "Event \<Rightarrow> string result"
  sg_Send :: "string \<Rightarrow> string option"
  sg_Polls :: "('s \<times> 's) list"

text \<open>The decoder sees what the limit lets through; a value that is complete by then is read, whatever follows it.\<close>

definition readJSON :: "int \<Rightarrow> (bool \<Rightarrow> string \<Rightarrow> 'a result option) \<Rightarrow> string \<Rightarrow> 'a result" where
  "readJSON maxBytes dec body =
     (let limit = nat maxBytes; whole = (length body \<le> limit); text = take limit body
      in case dec whole text of
           Some r \<Rightarrow> r
         | None \<Rightarrow> Inl (if \<not> whole then ''http: request body too large''
                       else if list_all isSpace text then ''EOF'' else ''unexpected EOF''))"

datatype answer = Answer Response | Stream "Event list"

record Reply =
  re_Headers :: "string gomap"
  re_Answer :: answer

definition corsHeaders :: "string gomap" where
  "corsHeaders = [(''Access-Control-Allow-Origin'', ''*''), (''Access-Control-Allow-Methods'', ''GET,POST,PUT,DELETE,OPTIONS''),
     (''Access-Control-Allow-Headers'', ''Content-Type,Authorization'')]"

text \<open>\<^verbatim>\<open>withCORS(withJSON(mux))\<close>: the headers before the handler runs. \<^verbatim>\<open>http.Error\<close> and two of the handlers replace the content type.\<close>

definition withJSON :: "string gomap \<Rightarrow> string gomap" where
  "withJSON h = mapSet ''Content-Type'' ''application/json'' h"

definition httpError :: "int \<Rightarrow> string \<Rightarrow> string gomap \<Rightarrow> Reply" where
  "httpError status msg h = \<lparr>re_Headers = mapSet ''X-Content-Type-Options'' ''nosniff'' (mapSet ''Content-Type'' ''text/plain; charset=utf-8'' h),
     re_Answer = Answer (writeJSON status (PText (msg @ newline)))\<rparr>"

definition answered :: "string gomap \<Rightarrow> Response \<times> ('s, 'b, 'q) ServerState \<Rightarrow>
    Reply \<times> (string \<times> Scenario) option \<times> ('s, 'b, 'q) ServerState" where
  "answered h x = (\<lparr>re_Headers = h, re_Answer = Answer (fst x)\<rparr>, None, snd x)"

definition handle :: "('s, 'b, 'q) Server \<Rightarrow> ('s, 'b, 'q) Serving \<Rightarrow> Incoming \<Rightarrow> string gomap \<Rightarrow> route \<Rightarrow> string \<Rightarrow> string \<Rightarrow>
    ('s, 'b, 'q) ServerState \<Rightarrow> Reply \<times> (string \<times> Scenario) option \<times> ('s, 'b, 'q) ServerState" where
  "handle srv g r h route pid version st =
     (let c = sg_Clock g; limit = cf_MaxBodyBytes (srv_cfg srv)
      in case route of
           RHealth \<Rightarrow> answered h (health (c 0), st)
         | RMetrics \<Rightarrow> answered (mapSet ''Content-Type'' ''text/plain; version=0.0.4'' h) (metrics srv st, st)
         | RListTargets \<Rightarrow> answered h (listTargets srv st, st)
         | RCreateTarget \<Rightarrow> answered h (createTarget srv c (readJSON limit (sg_DecTarget g) (in_Body r)) st)
         | RGetTarget \<Rightarrow> answered h (getTarget srv pid st, st)
         | RUpdateTarget \<Rightarrow> answered h (updateTarget srv c pid (readJSON limit (sg_DecTarget g) (in_Body r)) st)
         | RDeleteTarget \<Rightarrow> answered h (deleteTarget srv pid st)
         | RListScenarios \<Rightarrow> answered h (listScenarios srv st, st)
         | RCreateScenario \<Rightarrow> answered h (createScenario srv c (readJSON limit (sg_DecScenario g) (in_Body r)) st)
         | RGetScenario \<Rightarrow> answered h (getScenario srv pid st, st)
         | RUpdateScenario \<Rightarrow> answered h (updateScenario srv c pid (readJSON limit (sg_DecScenario g) (in_Body r)) st)
         | RListScenarioVersions \<Rightarrow> answered h (listScenarioVersions srv pid st, st)
         | RGetScenarioVersion \<Rightarrow> answered h (getScenarioVersion srv pid version st, st)
         | RListRuns \<Rightarrow> answered h (listRuns srv st, st)
         | RCreateRun \<Rightarrow>
             (let (resp, started, st') = createRun srv c (sg_Sync g) (readJSON limit (sg_DecRun g) (in_Body r)) st
              in (\<lparr>re_Headers = h, re_Answer = Answer resp\<rparr>, started, st'))
         | RCancelRun \<Rightarrow> answered h (cancelRun srv c pid st)
         | RGetRunEvents \<Rightarrow> answered h (getRunEvents srv pid st, st)
         | RStreamRunEvents \<Rightarrow>
             (case streamRunEvents srv (sg_Flusher g) (sg_Marshal g) (sg_Send g) pid (in_Header r ''Last-Event-ID'') (in_Query r ''after'')
                     (sg_Polls g) st of
                Inl resp \<Rightarrow> answered h (resp, st)
              | Inr (events, _) \<Rightarrow>
                  (\<lparr>re_Headers = mapSet ''Connection'' ''keep-alive'' (mapSet ''Cache-Control'' ''no-cache'' (mapSet ''Content-Type'' ''text/event-stream'' h)),
                    re_Answer = Stream events\<rparr>, None, st))
         | RGetRun \<Rightarrow> answered h (getRun srv (Path (in_URL r)) st, st))"

text \<open>A redirect keeps the content type that is set and so has no body.\<close>

definition redirectURL :: "string \<Rightarrow> URL \<Rightarrow> string" where
  "redirectURL path u = escape encodePath path @ (if RawQuery u = '''' then '''' else ''?'' @ RawQuery u)"

definition ServeHTTP :: "('s, 'b, 'q) Server \<Rightarrow> ('s, 'b, 'q) Serving \<Rightarrow> Incoming \<Rightarrow> ('s, 'b, 'q) ServerState \<Rightarrow>
    Reply \<times> (string \<times> Scenario) option \<times> ('s, 'b, 'q) ServerState" where
  "ServeHTTP srv g r st =
     (if in_Method r = ''OPTIONS'' then answered corsHeaders (writeJSON 204 PEmpty, st)
      else let h = withJSON corsHeaders
           in case findHandler routes (in_Method r) (in_URL r) of
                RedirectTo loc \<Rightarrow> answered (mapSet ''Location'' (redirectURL loc (in_URL r)) h) (writeJSON 301 PEmpty, st)
              | MethodNotAllowed ms \<Rightarrow> (httpError 405 ''Method Not Allowed'' (mapSet ''Allow'' (Join ms '', '') h), None, st)
              | NotFoundPage \<Rightarrow> (httpError 404 ''404 page not found'' h, None, st)
              | Serve ps route values \<Rightarrow> handle srv g r h route (PathValue ps values ''id'') (PathValue ps values ''version'') st)"

section \<open>What a request can reach\<close>

lemma below_set: "(ps, r) \<in> set (below k node) \<Longrightarrow> (k # ps, r) \<in> set node"
  by (induction k node rule: below.induct) (auto split: if_splits)

lemma belowWild_set: "(ps, r) \<in> set (belowWild node) \<Longrightarrow> \<exists>n. (Wild n # ps, r) \<in> set node"
  by (induction node rule: belowWild.induct) auto

lemma leaf_set: "leaf ps node = Some r \<Longrightarrow> (ps, r) \<in> set node"
  by (auto simp: leaf_def find_Some_iff) (metis nth_mem)

lemma matchPath_set: "matchPath node segs = Some (r, vs) \<Longrightarrow> \<exists>ps. (ps, r) \<in> set node"
proof (induction node segs arbitrary: r vs rule: matchPath.induct)
  case (1 node)
  then show ?case
    using leaf_set [of "[]" node r] by auto
next
  case (2 node seg rest)
  consider "matchPath (below (Lit seg) node) rest = Some (r, vs)" | vs' where "matchPath (below (Lit seg) node) rest = None" "seg \<noteq> ''/''" "matchPath (belowWild node) rest = Some (r, vs')"
    | "leaf [Multi] node = Some r"
    using "2.prems" by (auto split: option.splits if_splits)
  then show ?case
  proof cases
    case 1
    then show ?thesis using "2.IH"(1) below_set by metis
  next
    case 2
    then show ?thesis using "2.IH"(2) belowWild_set by metis
  next
    case 3
    then show ?thesis using leaf_set by metis
  qed
qed

lemma methodPatterns_set: "(qs, ps, r) \<in> set (methodPatterns m table) \<Longrightarrow> (m, ps, r) \<in> set table"
  by (auto simp: methodPatterns_def)

lemma findHandler_route:
  assumes "findHandler table m u = Serve ps r vs"
  shows "(m, ps, r) \<in> set table \<or> (m = ''HEAD'' \<and> (''GET'', ps, r) \<in> set table)"
proof -
  have "\<exists>path. matchMethod table m path = Some ((ps, r), vs)"
    using assms by (auto simp: findHandler_def Let_def split: if_splits option.splits list.splits)
  then obtain path where "matchPath (methodPatterns m table) (pathSegments path) = Some ((ps, r), vs) \<or>
      (m = ''HEAD'' \<and> matchPath (methodPatterns ''GET'' table) (pathSegments path) = Some ((ps, r), vs))"
    by (auto simp: matchMethod_def split: option.splits if_splits)
  then show ?thesis
    by (auto dest!: matchPath_set dest: methodPatterns_set)
qed

text \<open>The routes that only read.\<close>

definition readOnly :: "route \<Rightarrow> bool" where
  "readOnly r \<longleftrightarrow> r \<in> {RHealth, RMetrics, RListTargets, RGetTarget, RListScenarios, RGetScenario, RListScenarioVersions,
     RGetScenarioVersion, RListRuns, RGetRunEvents, RStreamRunEvents, RGetRun}"

lemma get_routes: "(''GET'', ps, r) \<in> set routes \<Longrightarrow> readOnly r"
  by (auto simp: routes_def readOnly_def)

lemma head_routes: "(''HEAD'', ps, r) \<notin> set routes"
  by (simp add: routes_def)

lemma handle_readOnly: "readOnly rt \<Longrightarrow> snd (handle srv g r h rt pid version st) = (None, st)"
  unfolding readOnly_def by (auto simp: handle_def answered_def Let_def split: sum.split)

text \<open>
  C12: the safe methods are safe. A GET, HEAD or OPTIONS request to the server, with any URL and any body, changes nothing in
  the store, in the queue or in the bookkeeping of running executions, and starts no execution.
\<close>

theorem safe_requests_change_nothing:
  assumes "in_Method r \<in> {''GET'', ''HEAD'', ''OPTIONS''}"
  shows "snd (ServeHTTP srv g r st) = (None, st)"
proof (cases "in_Method r = ''OPTIONS''")
  case True
  then show ?thesis by (simp add: ServeHTTP_def answered_def)
next
  case False
  have "readOnly rt" if "findHandler routes (in_Method r) (in_URL r) = Serve ps rt vs" for ps rt vs
    using findHandler_route [OF that] assms False get_routes head_routes by auto
  with False show ?thesis
    by (auto simp: ServeHTTP_def Let_def answered_def handle_readOnly split: dispatch.split)
qed

section \<open>Requests are steps of the server\<close>

lemma createRun_sync:
  "snd (snd (createRun srv c sync body st)) = snd (snd (createRun srv c (\<lambda>_ _ st. st) body st)) \<or>
   (\<exists>rid sc. snd (snd (createRun srv c sync body st)) = sync rid sc (snd (snd (createRun srv c (\<lambda>_ _ st. st) body st))))"
proof (cases "case body of Inl _ \<Rightarrow> None | Inr req \<Rightarrow> (case requestedScenario srv st req of Inl _ \<Rightarrow> None
    | Inr (sc0, ref) \<Rightarrow> (case prepareScenario srv st sc0 (TrimSpace (cr_TargetID req)) of Inl _ \<Rightarrow> None | Inr (sc1, tid) \<Rightarrow> Some (req, ref, sc1, tid)))")
  case None
  then show ?thesis
    by (auto simp: createRun_def split: sum.splits prod.splits)
next
  case (Some x)
  then obtain req sc0 ref sc1 tid where "body = Inr req" "requestedScenario srv st req = Inr (sc0, ref)"
    "prepareScenario srv st sc0 (TrimSpace (cr_TargetID req)) = Inr (sc1, tid)"
    by (auto split: sum.splits prod.splits)
  then show ?thesis
    by (cases "srv_queue srv") (auto simp: createRun_def Let_def split: prod.split option.split)
qed


section \<open>Where the documented URLs lead\<close>

definition plainSegment :: "string \<Rightarrow> bool" where
  "plainSegment s \<longleftrightarrow> s \<noteq> '''' \<and> list_all (\<lambda>c. isAlnum c \<or> c \<in> set ''-_'') s"

definition pathOf :: "string list \<Rightarrow> string" where
  "pathOf segs = ''/'' @ Join segs ''/''"

definition pathURL :: "string list \<Rightarrow> URL" where
  "pathURL segs = emptyURL\<lparr>Path := pathOf segs\<rparr>"

lemma plain_char:
  assumes "isAlnum c \<or> c \<in> set ''-_''"
  shows "c \<noteq> CHR ''/''" "c \<noteq> CHR ''.''" "c \<noteq> CHR ''%''" "\<not> shouldEscape c encodePath"
  using assms by (auto simp: isAlnum_def isAlpha_def isDigit_def code_def shouldEscape_def)

lemma plain_segment:
  assumes "plainSegment s"
  shows "CHR ''/'' \<notin> set s" "s \<noteq> ''.''" "s \<noteq> ''..''" "s \<noteq> ''''" "s \<noteq> ''/''"
proof -
  have "c \<noteq> CHR ''/'' \<and> c \<noteq> CHR ''.''" if "c \<in> set s" for c
    using assms plain_char(1,2) [of c] that by (auto simp: plainSegment_def list_all_iff)
  then show "CHR ''/'' \<notin> set s" "s \<noteq> ''.''" "s \<noteq> ''..''" "s \<noteq> ''''" "s \<noteq> ''/''"
    using assms by (auto simp: plainSegment_def)
qed

lemma unescape_plain: "list_all (\<lambda>c. c \<noteq> CHR ''%'') s \<Longrightarrow> unescape encodePath s = Inr s"
  by (induction s) (simp_all split: list.split)

lemma pathUnescape_plain: "plainSegment s \<Longrightarrow> pathUnescape s = s"
  by (simp add: pathUnescape_def unescape_plain plainSegment_def list_all_iff plain_char(3))

lemma escape_plain: "list_all (\<lambda>c. \<not> shouldEscape c encodePath) s \<Longrightarrow> escape encodePath s = s"
  by (induction s) (simp_all add: escape_def)

lemma Join_unescaped: "list_all plainSegment segs \<Longrightarrow> list_all (\<lambda>c. \<not> shouldEscape c encodePath) (Join segs ''/'')"
proof (induction segs "''/''" rule: Join.induct)
  case (3 s t ss)
  then show ?case
    by (auto simp: plainSegment_def list_all_iff plain_char(4)) (simp add: shouldEscape_def isAlnum_def isAlpha_def isDigit_def code_def)
qed (auto simp: plainSegment_def list_all_iff plain_char(4))

lemma Split_segments: "segs \<noteq> [] \<Longrightarrow> list_all plainSegment segs \<Longrightarrow> Split (Join segs ''/'') CHR ''/'' = segs"
  by (rule Split_Join) (auto simp: list_all_iff plain_segment(1))

lemma cleanSegments_plain: "list_all plainSegment segs \<Longrightarrow> cleanSegments acc segs = rev acc @ segs"
  by (induction segs arbitrary: acc) (auto simp: plain_segment)

lemma last_Join: "segs \<noteq> [] \<Longrightarrow> list_all plainSegment segs \<Longrightarrow> Join segs ''/'' \<noteq> [] \<and> last (Join segs ''/'') \<noteq> CHR ''/''"
proof (induction segs "''/''" rule: Join.induct)
  case (2 s)
  then have "plainSegment s"
    by simp
  then have "last s \<noteq> CHR ''/''"
    using plain_segment(1,4) last_in_set by metis
  with \<open>plainSegment s\<close> show ?case
    by (simp add: plain_segment(4))
qed auto

lemma plain_path:
  assumes "segs \<noteq> []" and "list_all plainSegment segs"
  shows "EscapedPath (pathURL segs) = pathOf segs" "cleanPath (pathOf segs) = pathOf segs" "pathSegments (pathOf segs) = segs"
    "\<not> HasSuffix (pathOf segs) ''/''"
proof -
  have j: "Join segs ''/'' \<noteq> []" "last (Join segs ''/'') \<noteq> CHR ''/''"
    using last_Join [OF assms] by auto
  show suffix: "\<not> HasSuffix (pathOf segs) ''/''"
    using j by (auto simp: HasSuffix_iff pathOf_def) (metis last.simps last_snoc)
  have "Split (pathOf segs) CHR ''/'' = [] # segs"
    using Split_segments [OF assms] by (simp add: pathOf_def)
  then show "cleanPath (pathOf segs) = pathOf segs"
    using suffix by (simp add: cleanPath_def Let_def cleanSegments_plain [OF assms(2)] pathOf_def)
  show "pathSegments (pathOf segs) = segs"
    using assms(2) by (auto simp: pathSegments_def pathOf_def Split_segments [OF assms] list_all_iff pathUnescape_plain plain_segment(4) intro!: map_idI)
  show "EscapedPath (pathURL segs) = pathOf segs"
    using escape_plain [OF Join_unescaped [OF assms(2)]] j
    by (auto simp: EscapedPath_def pathURL_def pathOf_def emptyURL_def escape_def shouldEscape_def isAlnum_def isAlpha_def isDigit_def code_def)
qed

lemma matchPath_empty [simp]: "matchPath [] segs = None"
  by (induction segs) (simp_all add: leaf_def)

definition served :: "string \<Rightarrow> string list \<Rightarrow> (route \<times> string \<times> string) option" where
  "served method segs =
     (case findHandler routes method (pathURL segs) of
        Serve ps r vs \<Rightarrow> Some (r, PathValue ps vs ''id'', PathValue ps vs ''version'')
      | _ \<Rightarrow> None)"

lemma served_eq:
  assumes "segs \<noteq> []" and "list_all plainSegment segs" and "method \<noteq> ''HEAD''"
  shows "served method segs =
    map_option (\<lambda>((ps, r), vs). (r, PathValue ps vs ''id'', PathValue ps vs ''version'')) (matchPath (methodPatterns method routes) segs)"
proof -
  have "matchMethod routes method (pathOf segs) = matchPath (methodPatterns method routes) segs"
    using assms(3) by (simp add: matchMethod_def plain_path [OF assms(1,2)] split: option.split)
  then show ?thesis
    by (auto simp: served_def findHandler_def Let_def plain_path [OF assms(1,2)] exactMatch_def split: option.splits list.split)
qed

lemma plain_literals [simp]:
  "plainSegment ''v1''" "plainSegment ''targets''" "plainSegment ''scenarios''" "plainSegment ''runs''" "plainSegment ''versions''"
  "plainSegment ''cancel''" "plainSegment ''events''" "plainSegment ''stream''" "plainSegment ''report''"
  by code_simp+

lemmas route_simps = served_eq methodPatterns_def routes_def leaf_def PathValue_def wildNames_def plain_segment(5)

lemma getRun_paths:
  assumes "plainSegment i"
  shows "getRun srv (pathOf [''v1'', ''runs'', i]) st =
      (case so_GetRun (srv_store srv) i (ss_store st) of None \<Rightarrow> notFound ''run'' i | Some rec \<Rightarrow> writeJSON 200 (PRun rec))"
    and "so_GetRun (srv_store srv) i (ss_store st) = None \<Longrightarrow> getRun srv (pathOf [''v1'', ''runs'', i, ''report'']) st = notFound ''run'' i"
proof -
  have trim: "TrimPrefix (pathOf [''v1'', ''runs'', i]) ''/v1/runs/'' = i" "TrimPrefix (pathOf [''v1'', ''runs'', i, ''report'']) ''/v1/runs/'' = i @ ''/report''"
    by (simp_all add: pathOf_def TrimPrefix_def HasPrefix_def)
  have "\<not> HasSuffix i ''/report''"
    using plain_segment(1) [OF assms] by (auto simp: HasSuffix_iff)
  then show "getRun srv (pathOf [''v1'', ''runs'', i]) st =
      (case so_GetRun (srv_store srv) i (ss_store st) of None \<Rightarrow> notFound ''run'' i | Some rec \<Rightarrow> writeJSON 200 (PRun rec))"
    by (simp add: getRun_def Let_def trim TrimSuffix_def split: option.split)
  show "so_GetRun (srv_store srv) i (ss_store st) = None \<Longrightarrow> getRun srv (pathOf [''v1'', ''runs'', i, ''report'']) st = notFound ''run'' i"
    by (simp add: getRun_def Let_def trim TrimSuffix_def)
qed

text \<open>
  C14: every documented URL leads to its handler and hands it the identifier of the path, for any identifier of letters,
  digits, hyphens and underscores: the more specific patterns of the events win over the subtree of the runs, and
  whatever else is below a run with GET is left to \<^verbatim>\<open>getRun\<close>, which takes the identifier off the path itself. There is no
  route with which a client deletes or replaces a run.
\<close>

theorem routing:
  assumes "plainSegment i" and "plainSegment v"
  shows "served ''GET'' [''v1'', ''targets'', i] = Some (RGetTarget, i, []) \<and>
    served ''PUT'' [''v1'', ''targets'', i] = Some (RUpdateTarget, i, []) \<and>
    served ''DELETE'' [''v1'', ''targets'', i] = Some (RDeleteTarget, i, []) \<and>
    served ''GET'' [''v1'', ''scenarios'', i] = Some (RGetScenario, i, []) \<and>
    served ''PUT'' [''v1'', ''scenarios'', i] = Some (RUpdateScenario, i, []) \<and>
    served ''GET'' [''v1'', ''scenarios'', i, ''versions''] = Some (RListScenarioVersions, i, []) \<and>
    served ''GET'' [''v1'', ''scenarios'', i, ''versions'', v] = Some (RGetScenarioVersion, i, v) \<and>
    served ''POST'' [''v1'', ''runs'', i, ''cancel''] = Some (RCancelRun, i, []) \<and>
    served ''GET'' [''v1'', ''runs'', i, ''events''] = Some (RGetRunEvents, i, []) \<and>
    served ''GET'' [''v1'', ''runs'', i, ''events'', ''stream''] = Some (RStreamRunEvents, i, []) \<and>
    served ''GET'' [''v1'', ''runs'', i] = Some (RGetRun, [], []) \<and>
    served ''GET'' [''v1'', ''runs'', i, ''report''] = Some (RGetRun, [], []) \<and>
    served ''DELETE'' [''v1'', ''runs'', i] = None \<and>
    served ''PUT'' [''v1'', ''runs'', i] = None \<and>
    (getRun srv (pathOf [''v1'', ''runs'', i]) st =
      (case so_GetRun (srv_store srv) i (ss_store st) of None \<Rightarrow> notFound ''run'' i | Some rec \<Rightarrow> writeJSON 200 (PRun rec)))"
  using assms by (intro conjI) (simp_all add: route_simps getRun_paths)

text \<open>
  A body over the configured limit creates nothing: when the first value of the body of a run request is not complete
  within the limit, the answer is 400 with the error of the limit, and neither store nor queue is touched.
\<close>

theorem oversized_run_request:
  assumes "in_Method r = ''POST''" and "in_URL r = pathURL [''v1'', ''runs'']" and "nat (cf_MaxBodyBytes (srv_cfg srv)) < length (in_Body r)"
    and "sg_DecRun g False (take (nat (cf_MaxBodyBytes (srv_cfg srv))) (in_Body r)) = None"
  shows "ServeHTTP srv g r st =
    (\<lparr>re_Headers = withJSON corsHeaders, re_Answer = Answer (writeError 400 ''http: request body too large'')\<rparr>, None, st)"
proof -
  have "served ''POST'' [''v1'', ''runs''] = Some (RCreateRun, [], [])"
    by (simp add: route_simps)
  then obtain ps vs where f: "findHandler routes ''POST'' (pathURL [''v1'', ''runs'']) = Serve ps RCreateRun vs"
    by (auto simp: served_def split: dispatch.splits)
  have "readJSON (cf_MaxBodyBytes (srv_cfg srv)) (sg_DecRun g) (in_Body r) = Inl ''http: request body too large''"
    using assms(3,4) by (simp add: readJSON_def Let_def)
  then show ?thesis
    by (simp add: ServeHTTP_def assms(1,2) Let_def f handle_def createRun_def)
qed

section \<open>Concrete requests\<close>

definition sampleServing :: "(Memory, BlobMemory, unit) Serving" where
  "sampleServing = \<lparr>sg_Clock = sampleClock, sg_DecTarget = (\<lambda>_ _. None), sg_DecScenario = (\<lambda>_ _. None),
     sg_DecRun = (\<lambda>whole _. if whole then Some (Inr sampleBody) else None), sg_Sync = (\<lambda>_ _ st. st), sg_Flusher = True,
     sg_Marshal = (\<lambda>_. Inr ''{}''), sg_Send = (\<lambda>_. None), sg_Polls = []\<rparr>"

definition sampleRequest :: "string \<Rightarrow> string list \<Rightarrow> string \<Rightarrow> Incoming" where
  "sampleRequest method segs body =
     \<lparr>in_Method = method, in_URL = pathURL segs, in_Header = (\<lambda>_. ''''), in_Query = (\<lambda>_. ''''), in_Body = body\<rparr>"

theorem safe_requests_change_nothing_witness:
  "snd (ServeHTTP sampleServer sampleServing (sampleRequest ''HEAD'' [''v1'', ''runs'', ''run_7'', ''cancel''] '''') (sampleState queuedState)) =
     (None, sampleState queuedState)"
  by (rule safe_requests_change_nothing) (simp add: sampleRequest_def)


theorem routing_witness:
  "served ''GET'' [''v1'', ''runs'', ''run_7'', ''events'', ''stream''] = Some (RStreamRunEvents, ''run_7'', [])"
proof -
  have "plainSegment ''run_7''"
    by code_simp
  from routing [OF this this] show ?thesis
    by blast
qed

theorem oversized_run_request_witness:
  "fst (ServeHTTP (sampleServer\<lparr>srv_cfg := (srv_cfg sampleServer)\<lparr>cf_MaxBodyBytes := 1\<rparr>\<rparr>) sampleServing
       (sampleRequest ''POST'' [''v1'', ''runs''] ''{}'') (sampleState NewMemory)) =
     \<lparr>re_Headers = withJSON corsHeaders, re_Answer = Answer (writeError 400 ''http: request body too large'')\<rparr>"
  by (subst oversized_run_request) (simp_all add: sampleRequest_def sampleServing_def)

end
