(* ===== verification/DemoApi.thy ===== *)
theory DemoApi
  imports RunnerProbe HttpRoutes
begin

text \<open>
  \<^verbatim>\<open>examples/demo-api/cmd/main.go\<close>: the intentionally faulty service the shipped scenarios run against, and the checkout race
  run against it.

  A handler works on the shared state under the mutex, so it is one step; only \<^verbatim>\<open>login\<close> takes the mutex twice. A request is
  one the runner prepares. The decoder of the checkout body and the texts of the times are parameters.
\<close>

section \<open>State and responses\<close>

record order =
  od_ID :: string
  od_UserID :: string
  od_SKU :: string
  od_Quantity :: int
  od_IdempotencyKey :: string
  od_CreatedAt :: string

record CheckoutRequest =
  cq_UserID :: string
  cq_SKU :: string
  cq_Quantity :: int

record app =
  ap_orders :: "order list"
  ap_active :: int

definition newApp :: app where
  "newApp = \<lparr>ap_orders = [], ap_active = 0\<rparr>"

definition demoJSON :: "int \<Rightarrow> goval \<Rightarrow> HttpResponse" where
  "demoJSON status payload = \<lparr>hr_StatusCode = status, hr_Body = encodeCompact payload @ newline, hr_BodyErr = None\<rparr>"

definition orderValue :: "order \<Rightarrow> goval" where
  "orderValue x =
     GObj ([(''id'', GStr (od_ID x)), (''userId'', GStr (od_UserID x)), (''sku'', GStr (od_SKU x)), (''quantity'', GInt (od_Quantity x))] @
       (if od_IdempotencyKey x = '''' then [] else [(''idempotencyKey'', GStr (od_IdempotencyKey x))]) @
       [(''createdAt'', GStr (od_CreatedAt x))])"

text \<open>\<^verbatim>\<open>r.URL.Query().Get\<close>: the first value of a key; a pair that does not decode, or with a semicolon, is dropped.\<close>

definition queryUnescape :: "string \<Rightarrow> string result" where
  "queryUnescape s = unescape encodePath (map (\<lambda>c. if c = CHR ''+'' then CHR 32 else c) s)"

definition queryPair :: "string \<Rightarrow> (string \<times> string) option" where
  "queryPair part =
     (if part = '''' \<or> CHR '';'' \<in> set part then None
      else case Cut part CHR ''='' of (k, v, _) \<Rightarrow>
        (case (queryUnescape k, queryUnescape v) of (Inr k', Inr v') \<Rightarrow> Some (k', v') | _ \<Rightarrow> None))"

definition queryGet :: "URL \<Rightarrow> string \<Rightarrow> string" where
  "queryGet u key = (case map_of (List.map_filter queryPair (Split (RawQuery u) CHR ''&'')) key of None \<Rightarrow> '''' | Some v \<Rightarrow> v)"

section \<open>Handlers\<close>

definition demoHealth :: HttpResponse where
  "demoHealth = demoJSON 200 (GObj [(''ok'', GBool True)])"

definition demoMetrics :: "app \<Rightarrow> HttpResponse" where
  "demoMetrics a = \<lparr>hr_StatusCode = 200, hr_Body = ''wreckr_demo_api_up 1'' @ newline @
     ''wreckr_demo_api_orders_total '' @ Itoa (int (length (ap_orders a))) @ newline @
     ''wreckr_demo_api_active_requests '' @ Itoa (ap_active a) @ newline, hr_BodyErr = None\<rparr>"

definition checkout :: "(string \<Rightarrow> CheckoutRequest result) \<Rightarrow> string \<Rightarrow> HttpRequest \<Rightarrow> app \<Rightarrow> HttpResponse \<times> app" where
  "checkout dec now r a =
     (case dec (hq_Body r) of
        Inl err \<Rightarrow> (demoJSON 400 (GObj [(''error'', GStr err)]), a)
      | Inr req \<Rightarrow>
          (let x = \<lparr>od_ID = ''ord_'' @ Itoa (int (length (ap_orders a)) + 1), od_UserID = cq_UserID req, od_SKU = cq_SKU req,
                    od_Quantity = cq_Quantity req, od_IdempotencyKey = headerGet ''Idempotency-Key'' r, od_CreatedAt = now\<rparr>
           in (demoJSON 201 (orderValue x), a\<lparr>ap_orders := ap_orders a @ [x]\<rparr>)))"

definition matching :: "string \<Rightarrow> string \<Rightarrow> order list \<Rightarrow> order list" where
  "matching userID sku orders = filter (\<lambda>x. \<not> (userID \<noteq> '''' \<and> od_UserID x \<noteq> userID) \<and> \<not> (sku \<noteq> '''' \<and> od_SKU x \<noteq> sku)) orders"

definition ordersByQuery :: "HttpRequest \<Rightarrow> app \<Rightarrow> HttpResponse" where
  "ordersByQuery r a =
     (let matches = matching (queryGet (hq_URL r) ''userId'') (queryGet (hq_URL r) ''sku'') (ap_orders a)
      in demoJSON 200 (GObj [(''count'', GInt (int (length matches))),
           (''orders'', if matches = [] then GNull else GArr (map orderValue matches))]))"

definition demoReset :: "app \<Rightarrow> HttpResponse \<times> app" where
  "demoReset a = (demoJSON 200 (GObj [(''ok'', GBool True)]), a\<lparr>ap_orders := [], ap_active := 0\<rparr>)"

text \<open>The two critical sections of \<^verbatim>\<open>login\<close>, and its answer from the number it read in the first.\<close>

definition loginStart :: "app \<Rightarrow> int \<times> app" where
  "loginStart a = (ap_active a + 1, a\<lparr>ap_active := ap_active a + 1\<rparr>)"

definition loginEnd :: "app \<Rightarrow> app" where
  "loginEnd a = a\<lparr>ap_active := ap_active a - 1\<rparr>"

definition loginAnswer :: "int \<Rightarrow> HttpResponse" where
  "loginAnswer active =
     (if active > 5 then demoJSON 500 (GObj [(''error'', GStr ''auth pool exhausted'')])
      else demoJSON 200 (GObj [(''token'', GStr ''demo-token'')]))"

datatype demoRoute = DHealth | DMetrics | DCheckout | DOrders | DReset | DLogin

definition demoRoutes :: "demoRoute table" where
  "demoRoutes = [(''GET'', [Lit ''healthz''], DHealth), (''GET'', [Lit ''metrics''], DMetrics), (''POST'', [Lit ''checkout''], DCheckout),
     (''GET'', [Lit ''orders''], DOrders), (''POST'', [Lit ''reset''], DReset), (''POST'', [Lit ''login''], DLogin)]"

definition plainReply :: "int \<Rightarrow> string \<Rightarrow> HttpResponse" where
  "plainReply status msg = \<lparr>hr_StatusCode = status, hr_Body = msg @ newline, hr_BodyErr = None\<rparr>"

text \<open>The body of a redirect of \<^verbatim>\<open>http.Redirect\<close>, for GET only.\<close>

definition htmlEscape :: "string \<Rightarrow> string" where
  "htmlEscape s = concat (map (\<lambda>c. if c = CHR ''&'' then ''&amp;'' else if c = CHR ''<'' then ''&lt;'' else if c = CHR ''>'' then ''&gt;''
     else if c = dquote then ''&#34;'' else if code c = 39 then ''&#39;'' else [c]) s)"

definition redirectReply :: "string \<Rightarrow> string \<Rightarrow> HttpResponse" where
  "redirectReply method url =
     \<lparr>hr_StatusCode = 301, hr_Body = (if method = ''GET'' then ''<a href='' @ [dquote] @ htmlEscape url @ [dquote] @ ''>Moved Permanently</a>.'' @ newline @ newline
        else ''''), hr_BodyErr = None\<rparr>"

text \<open>A request that is served without another one in between.\<close>

definition demoServe :: "(string \<Rightarrow> CheckoutRequest result) \<Rightarrow> string \<Rightarrow> HttpRequest \<Rightarrow> app \<Rightarrow> HttpResponse \<times> app" where
  "demoServe dec now r a =
     (case findHandler demoRoutes (hq_Method r) (hq_URL r) of
        Serve _ DHealth _ \<Rightarrow> (demoHealth, a)
      | Serve _ DMetrics _ \<Rightarrow> (demoMetrics a, a)
      | Serve _ DCheckout _ \<Rightarrow> checkout dec now r a
      | Serve _ DOrders _ \<Rightarrow> (ordersByQuery r a, a)
      | Serve _ DReset _ \<Rightarrow> demoReset a
      | Serve _ DLogin _ \<Rightarrow> (case loginStart a of (n, a') \<Rightarrow> (loginAnswer n, loginEnd a'))
      | RedirectTo loc \<Rightarrow> (redirectReply (hq_Method r) (redirectURL loc (hq_URL r)), a)
      | MethodNotAllowed _ \<Rightarrow> (plainReply 405 ''Method Not Allowed'', a)
      | NotFoundPage \<Rightarrow> (plainReply 404 ''404 page not found'', a))"

section \<open>Interleaved requests\<close>

text \<open>
  The state and, for each login between its two critical sections, the number it read. A step is a request that is
  served as a whole, or one half of a login; \<^verbatim>\<open>reset\<close> stands apart.
\<close>

inductive demoStep :: "(string \<Rightarrow> CheckoutRequest result) \<Rightarrow> app \<times> int list \<Rightarrow> app \<times> int list \<Rightarrow> bool" for dec where
  checkout: "demoStep dec (a, ls) (snd (checkout dec now r a), ls)"
| start: "loginStart a = (n, a') \<Longrightarrow> demoStep dec (a, ls) (a', n # ls)"
| finish: "demoStep dec (a, xs @ n # ys) (loginEnd a, xs @ ys)"

inductive resetStep :: "app \<times> int list \<Rightarrow> app \<times> int list \<Rightarrow> bool" where
  reset: "resetStep (a, ls) (snd (demoReset a), ls)"

abbreviation demoRun :: "(string \<Rightarrow> CheckoutRequest result) \<Rightarrow> app \<times> int list \<Rightarrow> bool" where
  "demoRun dec s \<equiv> (sup (demoStep dec) resetStep)\<^sup>*\<^sup>* (newApp, []) s"

inductive_cases demoStepE: "demoStep dec s s'"
inductive_cases resetStepE: "resetStep s s'"

definition orderIDs :: "app \<Rightarrow> bool" where
  "orderIDs a \<longleftrightarrow> map od_ID (ap_orders a) = map (\<lambda>i. ''ord_'' @ Itoa (int i + 1)) [0..<length (ap_orders a)]"

lemma checkout_orderIDs: "orderIDs a \<Longrightarrow> orderIDs (snd (checkout dec now r a))"
  by (auto simp: orderIDs_def checkout_def Let_def split: sum.split)

text \<open>
  The orders of the demo service have identifiers of their own. Whatever requests are served and however logins
  interleave with them, the orders are numbered in the order they were made, without a gap, so no two share an
  identifier.
\<close>

theorem order_ids_distinct:
  assumes "demoRun dec (a, ls)"
  shows "map od_ID (ap_orders a) = map (\<lambda>i. ''ord_'' @ Itoa (int i + 1)) [0..<length (ap_orders a)] \<and> distinct (map od_ID (ap_orders a))"
proof -
  have "orderIDs (fst s)" if "demoRun dec s" for s
    using that
  proof (induction rule: rtranclp_induct)
    case (step s t)
    then show ?case
      by (auto elim!: demoStepE resetStepE simp: checkout_orderIDs) (auto simp: orderIDs_def loginStart_def loginEnd_def demoReset_def)
  qed (simp add: orderIDs_def newApp_def)
  from this [OF assms] have ids: "orderIDs a"
    by simp
  have "inj_on (\<lambda>i. ''ord_'' @ Itoa (int i + 1)) S" for S
    by (rule inj_onI) (auto simp: Itoa_def dest!: digits_inj)
  then show ?thesis
    using ids by (simp add: orderIDs_def distinct_map)
qed

text \<open>
  C19: the login limit counts from the last reset. With \<open>k\<close> logins between their two halves when the service is reset, the
  next login is refused exactly when more than \<open>5 + k\<close> are in progress: the counter is set to 0 although \<open>k\<close> logins will
  still decrease it, and stays too low by \<open>k\<close> from then on. Only a reset while no login is in progress keeps the limit.
\<close>

theorem login_limit_after_reset:
  assumes "(demoStep dec)\<^sup>*\<^sup>* (snd (demoReset a), ls) (a', ls')"
  shows "ap_active a' = int (length ls') - int (length ls) \<and>
    (hr_StatusCode (loginAnswer (fst (loginStart a'))) = 500 \<longleftrightarrow> length ls' + 1 > 5 + length ls)"
proof -
  have "ap_active (fst t) - int (length (snd t)) = ap_active (fst s) - int (length (snd s))" if "(demoStep dec)\<^sup>*\<^sup>* s t" for s t
    using that
  proof (induction rule: rtranclp_induct)
    case (step t u)
    from step.hyps(2) have "ap_active (fst u) - int (length (snd u)) = ap_active (fst t) - int (length (snd t))"
      by (cases rule: demoStep.cases) (auto simp: loginStart_def loginEnd_def checkout_def Let_def split: sum.split)
    with step.IH show ?case by simp
  qed simp
  from this [OF assms] have "ap_active a' = int (length ls') - int (length ls)"
    by (simp add: demoReset_def)
  then show ?thesis
    by (auto simp: loginStart_def loginAnswer_def demoJSON_def)
qed

section \<open>The checkout race\<close>

definition demoBase :: string where "demoBase = ''http://localhost:9090''"

definition ordersPath :: string where "ordersPath = ''/orders?userId=user-123&sku=item-abc''"

text \<open>What the runner asks for and where the service takes it.\<close>

lemma orders_url:
  obtains u where "joinURL demoBase ordersPath = Inr (demoBase @ ordersPath)" and "newRequest ''GET'' (demoBase @ ordersPath) '''' = Inr u"
    and "hq_Method u = ''GET''" and "\<exists>ps vs. findHandler demoRoutes ''GET'' (hq_URL u) = Serve ps DOrders vs"
    and "queryGet (hq_URL u) ''userId'' = ''user-123''" and "queryGet (hq_URL u) ''sku'' = ''item-abc''"
proof -
  have j: "joinURL demoBase ordersPath = Inr (demoBase @ ordersPath)"
    by code_simp
  have "(case newRequest ''GET'' (demoBase @ ordersPath) '''' of Inl _ \<Rightarrow> False
     | Inr u \<Rightarrow> hq_Method u = ''GET'' \<and> (case findHandler demoRoutes ''GET'' (hq_URL u) of Serve _ DOrders _ \<Rightarrow> True | _ \<Rightarrow> False) \<and>
         queryGet (hq_URL u) ''userId'' = ''user-123'' \<and> queryGet (hq_URL u) ''sku'' = ''item-abc'')"
    by code_simp
  then obtain u where "newRequest ''GET'' (demoBase @ ordersPath) '''' = Inr u" "hq_Method u = ''GET''"
    "\<exists>ps vs. findHandler demoRoutes ''GET'' (hq_URL u) = Serve ps DOrders vs"
    "queryGet (hq_URL u) ''userId'' = ''user-123''" "queryGet (hq_URL u) ''sku'' = ''item-abc''"
    by (auto split: sum.splits dispatch.splits demoRoute.splits)
  with j show thesis
    using that by blast
qed

lemma probe_asks_orders:
  assumes "tg_BaseURL (sc_Target sc) = demoBase" and "iv_Method iv = ''GET''" and "iv_Path iv = ordersPath"
  obtains r where "prepareProbe iter runID sc iv = Inr r"
    and "fst (demoServe dec now r a) =
      (let matches = matching ''user-123'' ''item-abc'' (ap_orders a)
       in demoJSON 200 (GObj [(''count'', GInt (int (length matches))), (''orders'', if matches = [] then GNull else GArr (map orderValue matches))]))"
proof -
  obtain u where u: "joinURL demoBase ordersPath = Inr (demoBase @ ordersPath)" "newRequest ''GET'' (demoBase @ ordersPath) '''' = Inr u"
    "hq_Method u = ''GET''" "\<exists>ps vs. findHandler demoRoutes ''GET'' (hq_URL u) = Serve ps DOrders vs"
    "queryGet (hq_URL u) ''userId'' = ''user-123''" "queryGet (hq_URL u) ''sku'' = ''item-abc''"
    using orders_url by blast
  then obtain r where r: "prepareProbe iter runID sc iv = Inr r" "hq_URL r = hq_URL u" "hq_Method r = ''GET''"
    using assms by (simp add: prepareProbe_def)
  show thesis
    using u by (intro that [OF r(1)]) (auto simp: demoServe_def r ordersByQuery_def)
qed

lemma orderValue_flat [simp]: "govalDepth (orderValue x) = 1" "exactFloats (orderValue x)"
  by (simp_all add: orderValue_def)

lemma ordersDocument_ok [simp]:
  "exactFloats (GObj [(''count'', GInt n), (''orders'', if xs = [] then GNull else GArr (map orderValue xs))])"
  "govalDepth (GObj [(''count'', GInt n), (''orders'', if xs = [] then GNull else GArr (map orderValue xs))]) \<le> maxNestingDepth"
proof -
  have "fold max (map (govalDepth \<circ> orderValue) xs) 0 \<le> 1"
    by (simp add: fold_max_le list_all_iff)
  then show "govalDepth (GObj [(''count'', GInt n), (''orders'', if xs = [] then GNull else GArr (map orderValue xs))]) \<le> maxNestingDepth"
    by (simp add: maxNestingDepth_def)
qed (simp add: list_all_iff)

lemma newline_space: "list_all isJsonSpace newline"
  by code_simp

text \<open>A number of orders that is not 1 is not taken for 1, also when it is rounded.\<close>

lemma not_one: "2 \<le> n \<Longrightarrow> \<not> valuesEqual (JNum (round64 (of_int n))) (JNum 1)"
proof -
  assume "2 \<le> n"
  then have "round64 (of_int 2) \<le> round64 (of_int n)"
    by (intro round64_mono) (simp only: of_int_le_iff)
  then have "1 \<le> round64 (of_int n) - 1"
    using round64_int [of 2] by simp
  then have "round64 (of_int 1) \<le> fsub (round64 (of_int n)) 1"
    unfolding fsub_def by (intro round64_mono) simp
  moreover have "tolerance < 1"
    by code_simp
  ultimately show ?thesis
    using round64_int [of 1] by (simp add: valuesEqual_def)
qed

lemma count_read:
  assumes "LookupJSONPath e (encodeCompact (GObj [(''count'', GInt n), (''orders'', v)])) ''$.count'' = Found got"
    and "exactFloats (GObj [(''count'', GInt n), (''orders'', v)])" and "govalDepth (GObj [(''count'', GInt n), (''orders'', v)]) \<le> maxNestingDepth"
  shows "got = JNum (round64 (of_int n))"
proof -
  have path: "Split (TrimPrefix ''$.count'' ''$.'') CHR ''.'' = [''count'']" "HasPrefix ''$.count'' ''$.''"
      "parseSegment ''count'' = Inr (''count'', [])"
    by code_simp+
  have "Unmarshal (encodeCompact (GObj [(''count'', GInt n), (''orders'', v)])) =
      decodeAny (JObj [(''count'', JNum (of_int n)), (''orders'', jsonOf v)])"
    using parse_encodeCompact [OF assms(2,3)] by (simp add: Unmarshal_def)
  then show ?thesis
    using assms(1) by (auto simp: LookupJSONPath_def path member_def decodeNum_def lookupName_def split: option.splits if_splits)
qed


lemma findHandler_path:
  assumes "Path u = Path v" and "RawPath u = RawPath v"
  shows "findHandler table method u = findHandler table method v"
proof -
  have "EscapedPath u = EscapedPath v"
    by (simp add: EscapedPath_def assms)
  then show ?thesis
    by (simp only: findHandler_def assms(1))
qed

lemma checkout_served:
  assumes "hq_Method r = ''POST''" and "Path (hq_URL r) = ''/checkout''" and "RawPath (hq_URL r) = ''''"
  shows "demoServe dec now r a = checkout dec now r a"
proof -
  have "findHandler demoRoutes ''POST'' (hq_URL r) = findHandler demoRoutes ''POST'' (emptyURL\<lparr>Path := ''/checkout''\<rparr>)"
    using assms(2,3) by (intro findHandler_path) (simp_all add: emptyURL_def)
  also have "\<dots> = Serve [Lit ''checkout''] DCheckout []"
    by code_simp
  finally show ?thesis
    by (simp add: demoServe_def assms(1))
qed

definition demoServeAll :: "(string \<Rightarrow> CheckoutRequest result) \<Rightarrow> (string \<times> HttpRequest) list \<Rightarrow> app \<Rightarrow> app" where
  "demoServeAll dec calls = fold (\<lambda>(now, r) a. snd (demoServe dec now r a)) calls"

definition sameCheckout :: "(string \<Rightarrow> CheckoutRequest result) \<Rightarrow> HttpRequest \<Rightarrow> bool" where
  "sameCheckout dec r \<longleftrightarrow> hq_Method r = ''POST'' \<and> Path (hq_URL r) = ''/checkout'' \<and> RawPath (hq_URL r) = '''' \<and>
     (case dec (hq_Body r) of Inl _ \<Rightarrow> False | Inr q \<Rightarrow> cq_UserID q = ''user-123'' \<and> cq_SKU q = ''item-abc'')"

lemma every_checkout_orders:
  "list_all (sameCheckout dec) (map snd calls) \<Longrightarrow>
     length (matching ''user-123'' ''item-abc'' (ap_orders (demoServeAll dec calls a))) =
     length calls + length (matching ''user-123'' ''item-abc'' (ap_orders a))"
proof (induction calls arbitrary: a)
  case (Cons c calls)
  obtain now r where c: "c = (now, r)"
    by (cases c)
  with Cons.prems have "demoServe dec now r a = checkout dec now r a" "sameCheckout dec r"
    using checkout_served by (auto simp: sameCheckout_def)
  then have "length (matching ''user-123'' ''item-abc'' (ap_orders (snd (demoServe dec now r a)))) =
      Suc (length (matching ''user-123'' ''item-abc'' (ap_orders a)))"
    by (auto simp: sameCheckout_def checkout_def matching_def Let_def split: sum.splits)
  with Cons.IH [of "snd (demoServe dec now r a)"] Cons.prems show ?case
    by (simp add: c demoServeAll_def)
qed (simp add: demoServeAll_def)

text \<open>
  C15: the runner finds the race it was written for. The demo service stores the idempotency key of a checkout and does not
  enforce it, so each of two or more checkouts after the reset makes an order; a run whose probe asks for the orders
  and expects one of them has failed, whatever the keys, the times and the other checks are, and also when the answer is too long for
  the runner to read.
\<close>

theorem checkout_race_detected:
  assumes "RunWithOptions w optRunID sc0 = (Inr rep, es)" and "sc = effectiveScenario w sc0"
    and "tg_BaseURL (sc_Target sc) = demoBase"
    and "j < length (sc_Invariants sc)" and "sc_Invariants sc ! j = iv"
    and "iv_Type iv = ''http_probe''" and "iv_Method iv = ''GET''" and "iv_Path iv = ordersPath"
    and "iv_ExpectJSONPath iv = ''$.count''" and "iv_ExpectEquals iv = JNum 1"
    and "list_all (sameCheckout dec) (map snd calls)" and "2 \<le> length calls"
    and "a = demoServeAll dec calls (snd (demoReset a0))"
    and "io_Admit (ri_Probes w j)" and "io_Do (ri_Probes w j) = (\<lambda>r. Inr (fst (demoServe dec now r a)))"
  shows "rp_Status rep = StatusFailed"
proof -
  let ?runID = "effectiveRunID w optRunID"
  let ?xs = "matching ''user-123'' ''item-abc'' (ap_orders a)"
  let ?ms = "[(''count'', GInt (int (length ?xs))), (''orders'', if ?xs = [] then GNull else GArr (map orderValue ?xs))]"
  obtain r where r: "prepareProbe (ri_Iter w) ?runID sc iv = Inr r"
    and "fst (demoServe dec now r a) = demoJSON 200 (GObj ?ms)"
    using probe_asks_orders [OF assms(3,7,8), of "ri_Iter w" ?runID dec now a] unfolding Let_def by blast
  then have "io_Do (ri_Probes w j) r = Inr \<lparr>hr_StatusCode = 200, hr_Body = encodeCompact (GObj ?ms) @ newline, hr_BodyErr = None\<rparr>"
    by (simp add: assms(15) demoJSON_def)
  note verdict = probe_reads [OF r assms(14) this _ newline_space ordersDocument_ok, of "ri_JsonErr w"]
  have "2 \<le> int (length ?xs)"
    using every_checkout_orders [OF assms(11), of "snd (demoReset a0)"] assms(12,13) by simp
  then have "\<not> valuesEqual got (JNum 1)" if "LookupJSONPath (ri_JsonErr w) (encodeCompact (GObj ?ms)) ''$.count'' = Found got" for got
    using count_read [OF that ordersDocument_ok] not_one [of "int (length ?xs)"] by simp
  then have "\<not> ck_Passed (evaluateHTTPProbe (ri_JsonErr w) (ri_Iter w) (ri_Probes w j) ?runID sc iv)"
    using verdict unfolding assms(9,10) by simp
  then have "\<not> invariantHolds w ?runID sc (fst (ri_Traffic w ?runID sc)) (j, iv)"
    by (simp add: invariantHolds_def assms(6))
  moreover have "(j, iv) \<in> set (enumerate 0 (sc_Invariants sc))"
    using assms(4,5) by (auto simp: in_set_enumerate_eq)
  ultimately show ?thesis
    by (intro failed_invariant_fails_run [OF assms(1) refl assms(2)]) (auto simp: list_all_iff)
qed


definition decodeUser :: "string \<Rightarrow> CheckoutRequest result" where
  "decodeUser body = (if body = ''user-123'' then Inr \<lparr>cq_UserID = body, cq_SKU = ''item-abc'', cq_Quantity = 1\<rparr> else Inl ''EOF'')"

definition raceCall :: HttpRequest where
  "raceCall = \<lparr>hq_Method = ''POST'', hq_URL = emptyURL\<lparr>Path := ''/checkout''\<rparr>, hq_Header = [(''Idempotency-Key'', ''same-key-123'')], hq_Body = ''user-123''\<rparr>"

definition racedApp :: app where
  "racedApp = demoServeAll decodeUser [(''t1'', raceCall), (''t2'', raceCall)] (snd (demoReset newApp))"

definition demoRace :: Scenario where
  "demoRace = checkoutRace\<lparr>sc_Invariants := [oneOrderProbe\<lparr>iv_Path := ordersPath\<rparr>]\<rparr>"

definition raceIO :: RunIO where
  "raceIO = sampleRun\<lparr>ri_Probes := (\<lambda>_. (okIO '''')\<lparr>io_Do := (\<lambda>r. Inr (fst (demoServe decodeUser ''t3'' r racedApp)))\<rparr>)\<rparr>"

theorem checkout_race_detected_witness: "\<exists>rep es. RunWithOptions raceIO ''run_7'' demoRace = (Inr rep, es) \<and> rp_Status rep = StatusFailed"
proof -
  have v: "Validate (effectiveScenario raceIO demoRace) = None"
    by code_simp
  obtain res es where r: "RunWithOptions raceIO ''run_7'' demoRace = (res, es)"
    by (cases "RunWithOptions raceIO ''run_7'' demoRace")
  then obtain rep where rep: "res = Inr rep"
    using v by (auto simp: RunWithOptions_def effectiveScenario_def Let_def split: prod.splits if_splits)
  let ?sc = "effectiveScenario raceIO demoRace"
  let ?iv = "sc_Invariants ?sc ! 0"
  let ?view = "\<lambda>iv. (iv_Type iv, iv_Method iv, iv_Path iv, iv_ExpectJSONPath iv, iv_ExpectEquals iv)"
  have "tg_BaseURL (sc_Target ?sc) = demoBase" "map ?view (sc_Invariants ?sc) = [(''http_probe'', ''GET'', ordersPath, ''$.count'', JNum 1)]"
    by code_simp+
  then have sc: "tg_BaseURL (sc_Target ?sc) = demoBase" "0 < length (sc_Invariants ?sc)" "iv_Type ?iv = ''http_probe''"
      "iv_Method ?iv = ''GET''" "iv_Path ?iv = ordersPath" "iv_ExpectJSONPath ?iv = ''$.count''" "iv_ExpectEquals ?iv = JNum 1"
    by auto
  have calls: "list_all (sameCheckout decodeUser) (map snd [(''t1'', raceCall), (''t2'', raceCall)])"
    by code_simp
  have "rp_Status rep = StatusFailed"
    by (rule checkout_race_detected [OF r [unfolded rep] refl sc(1,2) refl sc(3-7) calls _ racedApp_def]) (simp_all add: raceIO_def okIO_def)
  with r rep show ?thesis
    by simp
qed

definition twoLogins :: "app \<times> int list" where
  "twoLogins = (newApp\<lparr>ap_active := 2\<rparr>, [2, 1])"

lemma twoLogins_run: "(demoStep dec)\<^sup>*\<^sup>* (newApp, []) twoLogins"
proof -
  have "demoStep dec (newApp, []) (newApp\<lparr>ap_active := 1\<rparr>, [1])" "demoStep dec (newApp\<lparr>ap_active := 1\<rparr>, [1]) twoLogins"
    unfolding twoLogins_def by (rule demoStep.start; simp add: loginStart_def newApp_def)+
  then show ?thesis
    by (meson rtranclp.simps)
qed

theorem login_limit_after_reset_witness: "ap_active (fst twoLogins) = 2"
proof -
  have "snd (demoReset newApp) = newApp"
    by (simp add: demoReset_def newApp_def)
  with login_limit_after_reset [of "\<lambda>_. Inl ''''" newApp "[]" "fst twoLogins" "snd twoLogins"] twoLogins_run show ?thesis
    by (simp add: twoLogins_def)
qed

theorem order_ids_distinct_witness:
  "map od_ID (ap_orders (snd (checkout decodeUser ''t1'' raceCall newApp))) = [''ord_1'']"
proof -
  have "demoRun decodeUser (snd (checkout decodeUser ''t1'' raceCall newApp), [])"
    by (rule r_into_rtranclp) (simp add: demoStep.checkout)
  from order_ids_distinct [OF this] have "map od_ID (ap_orders (snd (checkout decodeUser ''t1'' raceCall newApp))) =
      map (\<lambda>i. ''ord_'' @ Itoa (int i + 1)) [0..<length (ap_orders (snd (checkout decodeUser ''t1'' raceCall newApp)))]"
    by simp
  also have "\<dots> = [''ord_1'']"
    by code_simp
  finally show ?thesis .
qed

end
