(* ===== verification/GoFlag.thy ===== *)
theory GoFlag
  imports Config Report
begin

text \<open>
  What the commands use of the standard library's \<^verbatim>\<open>flag\<close> and of \<^verbatim>\<open>time.ParseDuration\<close>: a flag set with
  \<^verbatim>\<open>ExitOnError\<close>, whose flags are switches, durations and strings.
\<close>

section \<open>Durations\<close>

definition two63 :: int where "two63 = 9223372036854775808"

text \<open>The digits in front, each step as the source's: \<open>None\<close> is the overflow of \<^verbatim>\<open>leadingInt\<close>.\<close>

fun leadingInt :: "int \<Rightarrow> string \<Rightarrow> (int \<times> string) option" where
  "leadingInt x (c # s) =
     (if isDigit c then
        (if x > two63 div 10 then None
         else let y = x * 10 + int (code c - 48) in if y > two63 then None else leadingInt y s)
      else Some (x, c # s))"
| "leadingInt x [] = Some (x, [])"

text \<open>The digits of a fraction: those that would overflow are dropped. The result has the power of ten of the digits kept.\<close>

fun leadingFraction :: "int \<Rightarrow> int \<Rightarrow> bool \<Rightarrow> string \<Rightarrow> int \<times> int \<times> string" where
  "leadingFraction x scale overflow (c # s) =
     (if isDigit c then
        (if overflow \<or> x > (two63 - 1) div 10 \<or> x * 10 + int (code c - 48) > two63 then leadingFraction x scale True s
         else leadingFraction (x * 10 + int (code c - 48)) (scale * 10) False s)
      else (x, scale, c # s))"
| "leadingFraction x scale overflow [] = (x, scale, [])"

definition unitMap :: "string \<Rightarrow> int option" where
  "unitMap = map_of [(''ns'', 1), (''us'', 1000), ([CHR 0xC2, CHR 0xB5, CHR ''s''], 1000), ([CHR 0xCE, CHR 0xBC, CHR ''s''], 1000),
     (''ms'', 1000000), (''s'', 1000000000), (''m'', 60000000000), (''h'', 3600000000000)]"

text \<open>One number with its unit. The scale of a fraction is a power of ten held as a float64.\<close>

definition durationPart :: "string \<Rightarrow> (int \<times> string) option" where
  "durationPart s =
     (if s = '''' \<or> \<not> (hd s = CHR ''.'' \<or> isDigit (hd s)) then None
      else case leadingInt 0 s of
             None \<Rightarrow> None
           | Some (v, s1) \<Rightarrow>
               (let pre = (length s1 \<noteq> length s);
                    (f, scale, s2) = (if HasPrefix s1 ''.'' then leadingFraction 0 1 False (tl s1) else (0, 1, s1));
                    post = (HasPrefix s1 ''.'' \<and> length s2 \<noteq> length (tl s1));
                    u = takeWhile (\<lambda>c. c \<noteq> CHR ''.'' \<and> \<not> isDigit c) s2;
                    s3 = drop (length u) s2
                in if \<not> pre \<and> \<not> post \<or> u = '''' then None
                   else case unitMap u of
                          None \<Rightarrow> None
                        | Some unit \<Rightarrow>
                            (if v > two63 div unit then None
                             else let d = v * unit + (if f > 0 then Config.truncate (fmul (float_of_int f) (fdiv (float_of_int unit) (float_of_int scale))) else 0)
                                  in if d > two63 then None else Some (d, s3))))"

text \<open>The sum is an unsigned number of 64 bits. The rest of a part is shorter, so the loop ends.\<close>

lemma leadingInt_rest: "leadingInt x s = Some (y, r) \<Longrightarrow> length r \<le> length s"
  by (induction x s rule: leadingInt.induct) (auto simp: Let_def split: if_splits)

lemma leadingFraction_rest: "leadingFraction x k b s = (y, j, r) \<Longrightarrow> length r \<le> length s"
  by (induction x k b s rule: leadingFraction.induct) (auto split: if_splits)

lemma durationPart_rest:
  assumes "durationPart s = Some (d, r)"
  shows "length r < length s"
proof -
  obtain v s1 where s1: "leadingInt 0 s = Some (v, s1)"
    using assms by (auto simp: durationPart_def split: option.splits if_splits)
  obtain f k s2 where s2: "(if HasPrefix s1 ''.'' then leadingFraction 0 1 False (tl s1) else (0, 1, s1)) = (f, k, s2)"
    by (cases "if HasPrefix s1 ''.'' then leadingFraction 0 1 False (tl s1) else (0, 1, s1)")
  have "length s2 \<le> length s"
    using leadingInt_rest [OF s1] leadingFraction_rest [of 0 1 False "tl s1"] s2 by (fastforce split: if_splits)
  moreover have "takeWhile (\<lambda>c. c \<noteq> CHR ''.'' \<and> \<not> isDigit c) s2 \<noteq> ''''"
      "r = drop (length (takeWhile (\<lambda>c. c \<noteq> CHR ''.'' \<and> \<not> isDigit c) s2)) s2"
    using assms s1 s2 by (auto simp: durationPart_def Let_def split: option.splits if_splits)
  moreover from this have "s2 \<noteq> []"
    by auto
  ultimately show ?thesis
    by (cases s2) auto
qed

function durationParts :: "int \<Rightarrow> string \<Rightarrow> int option" where
  "durationParts d s =
     (if s = '''' then Some d
      else case durationPart s of
             None \<Rightarrow> None
           | Some (v, s') \<Rightarrow> (let d' = (d + v) mod (2 * two63) in if d' > two63 then None else durationParts d' s'))"
  by pat_completeness auto
termination
  by (relation "measure (\<lambda>(_, s). length s)") (auto dest: durationPart_rest)

declare durationParts.simps [simp del]

definition ParseDuration :: "string \<Rightarrow> int option" where
  "ParseDuration orig =
     (let signed = (HasPrefix orig ''-'' \<or> HasPrefix orig ''+''); neg = HasPrefix orig ''-''; s = (if signed then tl orig else orig)
      in if s = ''0'' then Some 0
         else if s = '''' then None
         else case durationParts 0 s of
                None \<Rightarrow> None
              | Some d \<Rightarrow> (if neg then Some (- d) else if d > two63 - 1 then None else Some d))"


lemma durationParts_range: "0 \<le> d \<Longrightarrow> d \<le> two63 \<Longrightarrow> durationParts d s = Some e \<Longrightarrow> 0 \<le> e \<and> e \<le> two63"
proof (induction d s rule: durationParts.induct)
  case (1 d s)
  show ?case
  proof (cases "durationPart s")
    case None
    then show ?thesis
      using "1.prems" by (simp add: durationParts.simps [of d s] split: if_splits)
  next
    case (Some p)
    obtain v s' where p: "p = (v, s')"
      by (cases p)
    have "0 \<le> (d + v) mod (2 * two63)"
      by (simp add: two63_def)
    then show ?thesis
      using "1.IH" [OF _ Some p [symmetric] refl] "1.prems" Some p by (auto simp: durationParts.simps [of d s] Let_def split: if_splits)
  qed
qed

lemma ParseDuration_int64: "ParseDuration s = Some d \<Longrightarrow> int64 d"
  using durationParts_range [of 0] unfolding ParseDuration_def Let_def
  by (fastforce simp: int64_def minInt64_def maxInt64_def two63_def split: if_splits option.splits)

section \<open>Flags\<close>

datatype flagKind = BoolFlag | DurationFlag | StringFlag

datatype flagValue = FlagBool bool | FlagDuration int | FlagString string

definition ParseBool :: "string \<Rightarrow> bool option" where
  "ParseBool s =
     (if s \<in> {''1'', ''t'', ''T'', ''true'', ''TRUE'', ''True''} then Some True
      else if s \<in> {''0'', ''f'', ''F'', ''false'', ''FALSE'', ''False''} then Some False
      else None)"

definition setFlag :: "flagKind \<Rightarrow> string \<Rightarrow> flagValue option" where
  "setFlag kind v =
     (case kind of
        BoolFlag \<Rightarrow> map_option FlagBool (ParseBool v)
      | DurationFlag \<Rightarrow> map_option FlagDuration (ParseDuration v)
      | StringFlag \<Rightarrow> Some (FlagString v))"

text \<open>
  What \<^verbatim>\<open>FlagSet.Parse\<close> does: it gives the values set and the arguments that are left, or it ends the process, with status 0
  when help was asked for and 2 otherwise, after it has written a message and the usage.
\<close>

datatype parsed = Parsed "(string \<times> flagValue) list" "string list" | ParseExit int string

type_synonym flags = "(string \<times> flagKind) list"

definition isFlagArg :: "string \<Rightarrow> bool" where
  "isFlagArg s \<longleftrightarrow> length s \<ge> 2 \<and> HasPrefix s ''-'' \<and> s \<noteq> ''--''"

definition flagName :: "string \<Rightarrow> string" where
  "flagName s = (if HasPrefix s ''--'' then drop 2 s else drop 1 s)"

text \<open>The name and the value behind an equals sign, which is not the first character.\<close>

definition splitFlag :: "string \<Rightarrow> string \<times> string option" where
  "splitFlag name =
     (let n = takeWhile (\<lambda>c. c \<noteq> CHR ''='') (tl name)
      in (take 1 name @ n, if length n < length (tl name) then Some (drop (Suc (length n)) (tl name)) else None))"

function parseFlags :: "string \<Rightarrow> flags \<Rightarrow> (string \<times> flagValue) list \<Rightarrow> string list \<Rightarrow> parsed" where
  "parseFlags usage formal got [] = Parsed got []"
| "parseFlags usage formal got (s # args) =
     (if s = ''--'' then Parsed got args
      else if \<not> isFlagArg s then Parsed got (s # args)
      else let fail = (\<lambda>msg. ParseExit 2 (msg @ newline @ usage)); name = flagName s
           in if name = '''' \<or> hd name = CHR ''-'' \<or> hd name = CHR ''='' then fail (''bad flag syntax: '' @ s)
              else case splitFlag name of (n, v) \<Rightarrow>
                (case map_of formal n of
                   None \<Rightarrow> (if n = ''help'' \<or> n = ''h'' then ParseExit 0 usage else fail (''flag provided but not defined: -'' @ n))
                 | Some BoolFlag \<Rightarrow>
                     (case v of
                        None \<Rightarrow> parseFlags usage formal (got @ [(n, FlagBool True)]) args
                      | Some x \<Rightarrow>
                          (case setFlag BoolFlag x of
                             None \<Rightarrow> fail (''invalid boolean value '' @ Quote x @ '' for -'' @ n @ '': parse error'')
                           | Some y \<Rightarrow> parseFlags usage formal (got @ [(n, y)]) args))
                 | Some kind \<Rightarrow>
                     (case (v, args) of
                        (None, []) \<Rightarrow> fail (''flag needs an argument: -'' @ n)
                      | (None, x # args') \<Rightarrow>
                          (case setFlag kind x of
                             None \<Rightarrow> fail (''invalid value '' @ Quote x @ '' for flag -'' @ n @ '': parse error'')
                           | Some y \<Rightarrow> parseFlags usage formal (got @ [(n, y)]) args')
                      | (Some x, _) \<Rightarrow>
                          (case setFlag kind x of
                             None \<Rightarrow> fail (''invalid value '' @ Quote x @ '' for flag -'' @ n @ '': parse error'')
                           | Some y \<Rightarrow> parseFlags usage formal (got @ [(n, y)]) args))))"
  by pat_completeness auto
termination
  by (relation "measure (\<lambda>(_, _, _, args). length args)") auto

text \<open>A later value of a flag replaces an earlier one.\<close>

definition flagOr :: "string \<Rightarrow> flagValue \<Rightarrow> (string \<times> flagValue) list \<Rightarrow> flagValue" where
  "flagOr n unset got = (case map_of (rev got) n of None \<Rightarrow> unset | Some v \<Rightarrow> v)"

end
