(* ===== verification/K6Script.thy ===== *)
theory K6Script
  imports Scenario Report GoEncode
begin

text \<open>
  \<^verbatim>\<open>internal/k6script/compiler.go\<close>: the compiler from scenarios to k6 scripts. The functions that write to the string
  builder return what they write. In the texts of the script a back quote stands for the apostrophe (\<open>jsText\<close>).
\<close>

record Script =
  ks_Name :: string
  ks_Content :: string

definition line :: "string \<Rightarrow> string" where
  "line s = s @ newline"

definition jsText :: "string \<Rightarrow> string" where
  "jsText s = map (\<lambda>c. if c = CHR 0x60 then CHR 0x27 else c) s"

section \<open>Values of the script\<close>

text \<open>A Go map is encoded with its keys sorted.\<close>

definition sortedObj :: "goval gomap \<Rightarrow> goval" where
  "sortedObj m = GObj (map (\<lambda>k. (k, case mapGet m k of None \<Rightarrow> GNull | Some v \<Rightarrow> v)) (sort (map fst m)))"

definition headersValue :: "headers \<Rightarrow> goval" where
  "headersValue h = (case h of None \<Rightarrow> GNull | Some m \<Rightarrow> sortedObj (map (\<lambda>(k, v). (k, GStr v)) m))"

text \<open>A decoded JSON value: an object is a map, the last member of a name counts.\<close>

fun anyValue :: "json \<Rightarrow> goval" where
  "anyValue JNull = GNull"
| "anyValue (JBool b) = GBool b"
| "anyValue (JNum x) = GFloat x"
| "anyValue (JStr s) = GStr s"
| "anyValue (JArr vs) = GArr (map anyValue vs)"
| "anyValue (JObj ms) =
     GObj (map (\<lambda>k. (k, case map_of (rev (map (\<lambda>(k, v). (k, anyValue v)) ms)) k of None \<Rightarrow> GNull | Some v \<Rightarrow> v))
       (sort (remdups (map fst ms))))"

definition jsValue :: "goval \<Rightarrow> string" where
  "jsValue v = encodeIndent 0 v"

definition jsString :: "string \<Rightarrow> string" where
  "jsString s = jsValue (GStr s)"

record compiledRequest =
  cq_Name :: string
  cq_Method :: string
  cq_Path :: string
  cq_Headers :: headers
  cq_JSON :: "json option"
  cq_Body :: string
  cq_ExpectedStatuses :: "int list option"
  cq_Phase :: string

definition k6Request :: "string \<Rightarrow> Request \<Rightarrow> compiledRequest" where
  "k6Request phase req =
     \<lparr>cq_Name = rq_Name req, cq_Method = rq_Method req, cq_Path = rq_Path req, cq_Headers = rq_Headers req,
      cq_JSON = (if length (rq_JSON req) > 0 then Unmarshal (rq_JSON req) else None),
      cq_Body = rq_Body req, cq_ExpectedStatuses = rq_ExpectStatus req, cq_Phase = phase\<rparr>"

definition k6Requests :: "Request list \<Rightarrow> string \<Rightarrow> compiledRequest list" where
  "k6Requests requests phase = map (k6Request phase) requests"

text \<open>
  The encoding of a compiled request: \<^verbatim>\<open>omitempty\<close> drops an empty map, an empty string and a nil interface, which is also
  what the JSON value null is decoded to.
\<close>

definition requestValue :: "compiledRequest \<Rightarrow> goval" where
  "requestValue q =
     GObj ([(''name'', GStr (cq_Name q)), (''method'', GStr (cq_Method q)), (''path'', GStr (cq_Path q))] @
       (case cq_Headers q of Some (h # hs) \<Rightarrow> [(''headers'', headersValue (cq_Headers q))] | _ \<Rightarrow> []) @
       (case cq_JSON q of None \<Rightarrow> [] | Some v \<Rightarrow> if v = JNull then [] else [(''json'', anyValue v)]) @
       (if cq_Body q \<noteq> '''' then [(''body'', GStr (cq_Body q))] else []) @
       [(''expected_statuses'', case cq_ExpectedStatuses q of None \<Rightarrow> GNull | Some s \<Rightarrow> GArr (map GInt s))] @
       (if cq_Phase q \<noteq> '''' then [(''phase'', GStr (cq_Phase q))] else []))"

definition requestsValue :: "compiledRequest list \<Rightarrow> goval" where
  "requestsValue qs = GArr (map requestValue qs)"

section \<open>Options\<close>

definition k6Iterations :: "Scenario \<Rightarrow> int" where
  "k6Iterations sc =
     (if tr_Type (sc_Traffic sc) = TrafficRace then wrap64 (tr_Concurrency (sc_Traffic sc) * tr_Iterations (sc_Traffic sc))
      else tr_Iterations (sc_Traffic sc))"

definition statusCodesToTrack :: "Request \<Rightarrow> int list" where
  "statusCodesToTrack req =
     fold (\<lambda>c codes. if list_ex (\<lambda>existing. existing = c) codes then codes else codes @ [c]) (expectedStatuses req)
       [0, 200, 201, 204, 400, 401, 403, 404, 409, 500, 502, 503, 504]"

definition metricKey :: "string \<Rightarrow> int \<Rightarrow> string" where
  "metricKey name status = ''http_reqs{name:'' @ Quote name @ '',status:'' @ Itoa status @ ''}''"

definition trackRequests :: "Request list \<Rightarrow> string list gomap \<Rightarrow> string list gomap" where
  "trackRequests requests out =
     fold (\<lambda>req. fold (\<lambda>status. mapSet (metricKey (rq_Name req) status) [''count>=0'']) (statusCodesToTrack req)) requests out"

definition k6Thresholds :: "Scenario \<Rightarrow> string list gomap" where
  "k6Thresholds sc =
     (let out = [];
          out = (case th_P95MS (sc_Thresholds sc) of
                   None \<Rightarrow> out
                 | Some limit \<Rightarrow> mapSet ''http_req_duration'' [''p(95)<='' @ FormatFixed 1 limit] out);
          out = (case th_MaxErrorRate (sc_Thresholds sc) of
                   None \<Rightarrow> out
                 | Some rate \<Rightarrow> mapSet ''checks'' [''rate>='' @ FormatFixed 4 (fsub 1 rate)] out)
      in trackRequests (sc_Teardown sc) (trackRequests (sc_Requests sc) (trackRequests (sc_Setup sc) out)))"

definition thresholdLine :: "string list gomap \<Rightarrow> string \<Rightarrow> string" where
  "thresholdLine thresholds key =
     line (''    '' @ jsString key @ '': '' @
       jsValue (GArr (map GStr (case mapGet thresholds key of None \<Rightarrow> [] | Some ts \<Rightarrow> ts))) @ '','')"

definition writeOptions :: "Scenario \<Rightarrow> string" where
  "writeOptions sc =
     line ''export const options = {'' @ line ''  scenarios: {'' @ line ''    wreckr: {'' @
     line (jsText ''      executor: `shared-iterations`,'') @
     line (''      vus: '' @ Itoa (tr_Concurrency (sc_Traffic sc)) @ '','') @
     line (''      iterations: '' @ Itoa (k6Iterations sc) @ '','') @
     line (jsText ''      maxDuration: `10m`,'') @ line ''    },'' @ line ''  },'' @
     (if tr_RatePerSecond (sc_Traffic sc) > 0 then line (''  rps: '' @ Itoa (tr_RatePerSecond (sc_Traffic sc)) @ '','') else '''') @
     (let thresholds = k6Thresholds sc
      in if length thresholds > 0
         then line ''  thresholds: {'' @ concat (map (thresholdLine thresholds) (sort (map fst thresholds))) @ line ''  },''
         else '''') @
     line ''};'' @ newline"

section \<open>Helpers, requests and notes\<close>

definition writeHelpers :: string where
  "writeHelpers = concat (map (line \<circ> jsText)
    [''function buildURL(path) {'',
     ''  if (path.startsWith(`http://`) || path.startsWith(`https://`)) {'',
     ''    return path;'',
     ''  }'',
     ''  return new URL(path, BASE_URL).toString();'',
     ''}'',
     '''',
     ''function headers(extraHeaders) {'',
     ''  return Object.assign({}, TARGET_HEADERS, extraHeaders || {});'',
     ''}'',
     '''',
     ''function bodyFor(request) {'',
     ''  if (request.json !== undefined) {'',
     ''    return JSON.stringify(request.json);'',
     ''  }'',
     ''  if (request.body !== undefined) {'',
     ''    return request.body;'',
     ''  }'',
     ''  return null;'',
     ''}'',
     '''',
     ''function runRequest(request) {'',
     ''  const params = {'',
     ''    headers: headers(request.headers),'',
     ''    tags: { name: request.name, phase: request.phase || `request` }'',
     ''  };'',
     ''  const body = bodyFor(request);'',
     ''  if (request.json !== undefined && params.headers[`Content-Type`] === undefined) {'',
     ''    params.headers[`Content-Type`] = `application/json`;'',
     ''  }'',
     ''  const response = http.request(request.method, buildURL(request.path), body, params);'',
     ''  const expected = request.expected_statuses;'',
     ''  const checks = {};'',
     ''  checks[request.name + ` status`] = (r) => expected.length > 0 ? expected.includes(r.status) : r.status < 500;'',
     ''  check(response, checks);'',
     ''  return response;'',
     ''}'',
     ''''])"

definition writeLifecycle :: "string \<Rightarrow> Request list \<Rightarrow> string" where
  "writeLifecycle name requests =
     (if length requests = 0 then ''''
      else line (''export function '' @ name @ ''() {'') @
           line (''  const requests = '' @ jsValue (requestsValue (k6Requests requests name)) @ '';'') @
           line ''  for (const request of requests) {'' @ line ''    runRequest(request);'' @ line ''  }'' @ line ''}'' @ newline)"

definition k6Attempts :: "Scenario \<Rightarrow> int" where
  "k6Attempts sc = (if rp_Attempts (tr_Retry (sc_Traffic sc)) \<le> 0 then 3 else rp_Attempts (tr_Retry (sc_Traffic sc)))"

definition writeDefault :: "Scenario \<Rightarrow> string" where
  "writeDefault sc =
     line ''export default function () {'' @
     line (''  const requests = '' @ jsValue (requestsValue (k6Requests (sc_Requests sc) ''request'')) @ '';'') @
     (if tr_Type (sc_Traffic sc) = TrafficRetryStorm then
        line (''  for (let attempt = 0; attempt < '' @ Itoa (k6Attempts sc) @ ''; attempt += 1) {'') @
        line ''    for (const request of requests) {'' @ line ''      runRequest(request);'' @ line ''    }'' @
        (if rp_BackoffMS (tr_Retry (sc_Traffic sc)) > 0
         then line (''    sleep('' @ FormatFixed 3 (fdiv (float_of_int (rp_BackoffMS (tr_Retry (sc_Traffic sc)))) 1000) @ '');'')
         else '''') @
        line ''  }''
      else line ''  for (const request of requests) {'' @ line ''    runRequest(request);'' @ line ''  }'') @
     line ''}'' @ newline"

definition invariantStatus :: "Invariant \<Rightarrow> string" where
  "invariantStatus v = (case iv_Status v of None \<Rightarrow> ''any'' | Some n \<Rightarrow> Itoa n)"

definition invariantNote :: "Invariant \<Rightarrow> string" where
  "invariantNote v =
     (if iv_Type v = ''http_probe''
      then line (''// - '' @ iv_Name v @ '': http_probe '' @ iv_Method v @ CHR 32 # iv_Path v @ '' with json_path '' @ Quote (iv_ExpectJSONPath v))
      else if iv_Type v = ''response_count''
      then line (''// - '' @ iv_Name v @ '': response_count for request '' @ Quote (iv_Request v) @ '' and status '' @ invariantStatus v)
      else line (''// - '' @ iv_Name v @ '': '' @ iv_Type v))"

definition writeInvariantNotes :: "Scenario \<Rightarrow> string" where
  "writeInvariantNotes sc =
     (if length (sc_Invariants sc) = 0 then ''''
      else line ''// Wreckr invariants from the source scenario:'' @ concat (map invariantNote (sc_Invariants sc)) @
           line ''// Exact invariant evaluation remains a Wreckr report responsibility.'')"

definition scriptContent :: "Scenario \<Rightarrow> string" where
  "scriptContent sc =
     line (''// Generated by Wreckr from scenario '' @ Quote (sc_Name sc) @ ''.'') @
     line ''// Execute with: k6 run <script.js>'' @ newline @
     line (jsText ''import http from `k6/http`;'') @ line (jsText ''import { check, sleep } from `k6`;'') @ newline @
     writeOptions sc @
     line (''const BASE_URL = '' @ jsString (tg_BaseURL (sc_Target sc)) @ '';'') @
     line (''const TARGET_HEADERS = '' @ jsValue (headersValue (tg_Headers (sc_Target sc))) @ '';'') @ newline @
     writeHelpers @ writeLifecycle ''setup'' (sc_Setup sc) @ writeDefault sc @ writeLifecycle ''teardown'' (sc_Teardown sc) @
     writeInvariantNotes sc"

definition Compile :: "(string \<Rightarrow> string) \<Rightarrow> Scenario \<Rightarrow> Script result" where
  "Compile env sc0 =
     (let sc = Normalized (WithEnv env sc0)
      in case Validate sc of
           Some err \<Rightarrow> Inl err
         | None \<Rightarrow> Inr \<lparr>ks_Name = sc_Name sc, ks_Content = scriptContent sc\<rparr>)"

section \<open>The requests of a script are those of the scenario\<close>

lemma exactFloats_headers: "exactFloats (headersValue h)"
  by (auto simp: headersValue_def sortedObj_def list_all_iff mapGet_def split: option.split dest!: map_of_SomeD)

lemma depth_headers: "govalDepth (headersValue h) \<le> Suc 0"
proof (cases h)
  case (Some m)
  have "govalDepth (case map_of (map (\<lambda>(k, v). (k, GStr v)) m) k of None \<Rightarrow> GNull | Some v \<Rightarrow> v) = 0" for k
    by (auto split: option.split dest!: map_of_SomeD)
  then show ?thesis
    by (simp add: Some headersValue_def sortedObj_def mapGet_def depth_le list_all_iff del: govalDepth.simps(1,2))
qed (simp add: headersValue_def)

text \<open>A request body the script can carry: the decimals of its numbers are exact and it is not nested too deeply.\<close>

definition bodyFits :: "Request \<Rightarrow> bool" where
  "bodyFits r \<longleftrightarrow>
     (case cq_JSON (k6Request '''' r) of
        None \<Rightarrow> True
      | Some v \<Rightarrow> exactFloats (anyValue v) \<and> govalDepth (anyValue v) \<le> 9998)"

lemma requestValue_fits:
  assumes "bodyFits r"
  shows "exactFloats (requestValue (k6Request phase r))" and "govalDepth (requestValue (k6Request phase r)) \<le> Suc 9998"
proof -
  let ?q = "k6Request phase r"
  have body: "cq_JSON ?q = Some v \<Longrightarrow> exactFloats (anyValue v) \<and> govalDepth (anyValue v) \<le> 9998" for v
    using assms by (simp add: bodyFits_def k6Request_def split: if_splits)
  have h: "govalDepth (headersValue h) \<le> 9998" for h
    using depth_headers [of h] by simp
  have "govalDepth (GArr (map GInt s)) \<le> Suc 0" for s
    by (simp add: depth_le list_all_iff del: govalDepth.simps(1))
  then have s: "govalDepth (GArr (map GInt s)) \<le> 9998" for s
    using le_trans by fastforce
  show "exactFloats (requestValue ?q)"
    using body by (auto simp: requestValue_def exactFloats_headers list_all_iff split: option.split list.split)
  show "govalDepth (requestValue ?q) \<le> Suc 9998"
    unfolding requestValue_def depth_le
    using body h s by (auto simp del: govalDepth.simps(1,2) split: option.split list.split)
qed

text \<open>What a reader of the script finds about a request in its table.\<close>

definition tells :: "string \<Rightarrow> Request \<Rightarrow> json \<Rightarrow> bool" where
  "tells phase r v \<longleftrightarrow>
     (\<exists>ms. v = JObj ms \<and> member ms ''name'' = Some (JStr (rq_Name r)) \<and> member ms ''method'' = Some (JStr (rq_Method r)) \<and>
        member ms ''path'' = Some (JStr (rq_Path r)) \<and>
        member ms ''phase'' = (if phase = '''' then None else Some (JStr phase)) \<and>
        member ms ''body'' = (if rq_Body r = '''' then None else Some (JStr (rq_Body r))) \<and>
        member ms ''json'' =
          (case cq_JSON (k6Request phase r) of None \<Rightarrow> None | Some v \<Rightarrow> if v = JNull then None else Some (jsonOf (anyValue v))) \<and>
        member ms ''expected_statuses'' =
          Some (case rq_ExpectStatus r of None \<Rightarrow> JNull | Some s \<Rightarrow> JArr (map (\<lambda>i. JNum (of_int i)) s)))"

lemma member_append: "member (xs @ ys) k = (case member ys k of None \<Rightarrow> member xs k | Some v \<Rightarrow> Some v)"
  by (simp add: member_def map_add_def split: option.split)

lemma member_Cons: "member ((k, v) # ms) k' = (case member ms k' of None \<Rightarrow> if k = k' then Some v else None | Some w \<Rightarrow> Some w)"
  by (simp add: member_def map_add_def split: option.split)

lemma member_Nil: "member [] k = None"
  by (simp add: member_def)

lemma tells_requestValue: "tells phase r (jsonOf (requestValue (k6Request phase r)))"
proof -
  let ?q = "k6Request phase r"
  let ?j = "map (\<lambda>(k, v). (k, jsonOf v))"
  define h where "h = (case cq_Headers ?q of Some (h # hs) \<Rightarrow> [(''headers'', headersValue (cq_Headers ?q))] | _ \<Rightarrow> [])"
  define j where "j = (case cq_JSON ?q of None \<Rightarrow> [] | Some v \<Rightarrow> if v = JNull then [] else [(''json'', anyValue v)])"
  have h: "k \<noteq> ''headers'' \<Longrightarrow> member (?j h) k = None" for k
    by (auto simp: h_def member_def split: option.split list.split)
  have j: "member (?j j) k = (if k = ''json'' then
      (case cq_JSON ?q of None \<Rightarrow> None | Some v \<Rightarrow> if v = JNull then None else Some (jsonOf (anyValue v))) else None)" for k
    by (simp add: j_def member_def split: option.split)
  have s: "jsonOf (case w of None \<Rightarrow> GNull | Some s \<Rightarrow> GArr (map GInt s)) =
      (case w of None \<Rightarrow> JNull | Some s \<Rightarrow> JArr (map (\<lambda>i. JNum (of_int i)) s))" for w
    by (simp split: option.split)
  have q: "cq_Name ?q = rq_Name r" "cq_Method ?q = rq_Method r" "cq_Path ?q = rq_Path r" "cq_Body ?q = rq_Body r"
    "cq_ExpectedStatuses ?q = rq_ExpectStatus r" "cq_Phase ?q = phase"
    by (simp_all add: k6Request_def)
  show ?thesis
    unfolding tells_def requestValue_def jsonOf.simps h_def [symmetric] j_def [symmetric] q
    by (rule exI, rule conjI, rule refl)
      (simp add: member_append member_Cons member_Nil h j s, simp add: h split: option.split)
qed



section \<open>The notes on the invariants\<close>

text \<open>The lines of the notes, for values without line breaks.\<close>

definition oneLine :: "Invariant \<Rightarrow> bool" where
  "oneLine v \<longleftrightarrow> list_all (\<lambda>s. CHR 10 \<notin> set s) [iv_Name v, iv_Type v, iv_Method v, iv_Path v]"

definition isComment :: "string \<Rightarrow> bool" where
  "isComment l \<longleftrightarrow> l = '''' \<or> HasPrefix l ''//''"

lemma hexChar_no_newline: "n < 16 \<Longrightarrow> hexChar n \<noteq> CHR 10"
proof
  assume "n < 16" "hexChar n = CHR 10"
  then have "code (hexChar n) = 10"
    by (simp add: code_def)
  then show False
    using \<open>n < 16\<close> by (simp add: hexChar_def code_def split: if_splits)
qed

lemma Quote_no_newline: "CHR 10 \<notin> set (Quote s)"
proof -
  have "CHR 10 \<notin> set (quoteChar c)" for c
  proof (cases "code c < 32 \<or> code c = 127")
    case True
    then have "code c div 16 < 16" "code c mod 16 < 16"
      by auto
    then have "hexChar (code c div 16) \<noteq> CHR 10" "hexChar (code c mod 16) \<noteq> CHR 10"
      using hexChar_no_newline by blast+
    then show ?thesis
      using True by (simp add: quoteChar_def dquote_def backslash_def eq_commute [of "CHR 10"])
  next
    case False
    then have "c \<noteq> CHR 10"
      by (auto simp: code_def)
    then show ?thesis
      using False by (simp add: quoteChar_def dquote_def backslash_def)
  qed
  then show ?thesis
    by (auto simp: Quote_def dquote_def)
qed

lemma Itoa_no_newline: "CHR 10 \<notin> set (Itoa n)"
  using digit_neq [of "CHR 10"] by (simp add: Itoa_def isDigit_def code_def)

lemma Split_sep: "Split (a @ x # b) x = Split a x @ Split b x"
  by (induction a) (auto split: list.split)

lemma invariantNote_line:
  assumes "oneLine v"
  shows "\<exists>l. invariantNote v = l @ newline \<and> CHR 10 \<notin> set l \<and> isComment l"
proof -
  have "HasPrefix (''// - '' @ r) ''//''" for r
    by (simp add: HasPrefix_def)
  then show ?thesis
    using assms Quote_no_newline Itoa_no_newline
    by (auto simp: invariantNote_def oneLine_def isComment_def line_def invariantStatus_def split: option.split)
qed

lemma notes_split:
  "list_all oneLine vs \<Longrightarrow> list_all isComment (Split s (CHR 10)) \<Longrightarrow>
   list_all isComment (Split (concat (map invariantNote vs) @ s) (CHR 10))"
proof (induction vs)
  case (Cons v vs)
  obtain l where "invariantNote v = l @ newline" "CHR 10 \<notin> set l" "isComment l"
    using invariantNote_line Cons.prems by auto
  then show ?case
    using Cons by (simp add: newline_def Split_append)
qed simp

text \<open>
  The notes a script ends with are comments: when the name, type, method and path of every invariant are free of
  line breaks, every line of them is empty or starts a comment, whatever the other fields hold (they are quoted).
\<close>

theorem notes_are_comments:
  assumes "list_all oneLine (sc_Invariants sc)"
  shows "list_all isComment (Split (writeInvariantNotes sc) (CHR 10))"
proof -
  have "list_all isComment (Split (line ''// Exact invariant evaluation remains a Wreckr report responsibility.'') (CHR 10))"
    by (simp add: line_def newline_def isComment_def HasPrefix_def)
  from notes_split [OF assms this] show ?thesis
    by (simp add: writeInvariantNotes_def line_def newline_def isComment_def HasPrefix_def)
qed

theorem notes_are_comments_witness:
  "list_all oneLine (sc_Invariants checkoutRace) \<and>
   list_all isComment (Split (writeInvariantNotes checkoutRace) (CHR 10))"
proof -
  have "list_all oneLine (sc_Invariants checkoutRace)"
    by code_simp
  from this notes_are_comments [OF this] show ?thesis
    by blast
qed

lemma newlines_split:
  assumes "CHR 10 \<notin> set x"
  shows "x \<in> set (Split (a @ newline @ x @ newline @ b) (CHR 10))"
  using assms by (simp add: newline_def Split_sep Split_append Split_no_sep)

lemma note_in_script:
  assumes "v \<in> set (sc_Invariants sc)"
  shows "\<exists>a b. scriptContent sc = a @ invariantNote v @ b"
proof -
  obtain vs ws where "sc_Invariants sc = vs @ v # ws"
    using assms by (meson split_list)
  then have "\<exists>a b. writeInvariantNotes sc = a @ invariantNote v @ b"
    by (auto simp: writeInvariantNotes_def) (metis append.assoc)
  then show ?thesis
    unfolding scriptContent_def by (metis append.assoc append_Nil2)
qed

text \<open>
  C34: without that condition the notes are no comments. The compiler writes the name of an invariant as it is, and
  \<^verbatim>\<open>Validate\<close> only asks that it is not empty: any text between two line breaks of a name is a line of its own of the
  script k6 executes.
\<close>

theorem script_note_injection:
  assumes "Compile env sc = Inr script" and "v \<in> set (sc_Invariants (Normalized (WithEnv env sc)))"
    and "iv_Name v = pre @ newline @ x @ newline @ post" and "CHR 10 \<notin> set x"
  shows "x \<in> set (Split (ks_Content script) (CHR 10))"
proof -
  let ?sc = "Normalized (WithEnv env sc)"
  have c: "ks_Content script = scriptContent ?sc"
    using assms(1) by (auto simp: Compile_def Let_def split: option.splits)
  obtain a b where "scriptContent ?sc = a @ invariantNote v @ b"
    using note_in_script assms(2) by blast
  moreover have "\<exists>e. invariantNote v = ''// - '' @ iv_Name v @ e"
    by (cases "iv_Type v = ''http_probe''"; cases "iv_Type v = ''response_count''") (simp_all add: invariantNote_def line_def)
  then obtain d where "invariantNote v = (''// - '' @ pre) @ newline @ x @ newline @ d"
    using assms(3) by auto
  ultimately have "scriptContent ?sc = (a @ ''// - '' @ pre) @ newline @ x @ newline @ (d @ b)"
    by simp
  then show ?thesis
    unfolding c using newlines_split [OF assms(4)] by metis
qed

definition sneakyProbe :: Invariant where
  "sneakyProbe = oneOrderProbe\<lparr>iv_Name := ''probe'' @ newline @ ''open(1);'' @ newline @ ''//''\<rparr>"

definition sneakyRace :: Scenario where
  "sneakyRace = checkoutRace\<lparr>sc_Invariants := [sneakyProbe]\<rparr>"

theorem script_note_injection_witness:
  "\<exists>script. Compile portEnv sneakyRace = Inr script \<and> ''open(1);'' \<in> set (Split (ks_Content script) (CHR 10))"
proof -
  let ?sc = "Normalized (WithEnv portEnv sneakyRace)"
  have "Validate ?sc = None"
    by code_simp
  then have c: "Compile portEnv sneakyRace = Inr \<lparr>ks_Name = sc_Name ?sc, ks_Content = scriptContent ?sc\<rparr>"
    by (simp add: Compile_def Let_def)
  have i: "map iv_Name (sc_Invariants ?sc) = [''probe'' @ newline @ ''open(1);'' @ newline @ ''//'']"
    by code_simp
  then obtain v where v: "v \<in> set (sc_Invariants ?sc)" "iv_Name v = ''probe'' @ newline @ ''open(1);'' @ newline @ ''//''"
    by (cases "sc_Invariants ?sc") auto
  from script_note_injection [OF c v] c show ?thesis
    by auto
qed

end
