(* ===== verification/K6Runner.thy ===== *)
theory K6Runner
  imports Runner K6Script
begin

text \<open>
  \<^verbatim>\<open>internal/runner/k6_runner.go\<close>: the runner that hands a scenario to k6 and rebuilds a report from the summary k6 exports.
  The decoder of the summary, the k6 process and the order of iteration over Go maps are arguments of the operations.
\<close>

section \<open>The summary\<close>

record k6Threshold =
  kt_Ok :: bool

record k6Metric =
  km_Type :: string
  km_Values :: "float64 gomap"
  km_Thresholds :: "k6Threshold gomap"

record k6Check =
  kc_Name :: string
  kc_Path :: string
  kc_Passes :: int
  kc_Fails :: int

datatype k6Group = K6Group (kg_Name: string) (kg_Path: string) (kg_Checks: "k6Check list") (kg_Groups: "k6Group list")

record k6Summary =
  su_Metrics :: "k6Metric gomap"
  su_RootGroup :: k6Group

text \<open>Reading a missing entry of a map of numbers gives zero.\<close>

definition valueAt :: "k6Metric \<Rightarrow> string \<Rightarrow> float64" where
  "valueAt m k = (case mapGet (km_Values m) k of None \<Rightarrow> 0 | Some x \<Rightarrow> x)"

section \<open>Records from metrics\<close>

text \<open>
  The expression \<^verbatim>\<open>^http_reqs\{name:(?:"([^"]+)"|([^,]+)),status:(\d+)\}$\<close>. The first alternative is tried first; each has
  at most one match, since a quoted name has no quote and an unquoted one no comma. The result is the submatches
  of the name (the second counts when the first is empty) and of the status.
\<close>

definition matchStatus :: "string \<Rightarrow> string option" where
  "matchStatus s =
     (if HasPrefix s '',status:''
      then let r = drop 8 s; ds = takeWhile isDigit r
           in if ds \<noteq> '''' \<and> dropWhile isDigit r = ''}'' then Some ds else None
      else None)"

definition matchQuoted :: "string \<Rightarrow> (string \<times> string) option" where
  "matchQuoted s =
     (if HasPrefix s [dquote]
      then let w = takeWhile (\<lambda>c. c \<noteq> dquote) (tl s); r = dropWhile (\<lambda>c. c \<noteq> dquote) (tl s)
           in if w = '''' \<or> r = '''' then None else map_option (\<lambda>ds. (w, ds)) (matchStatus (tl r))
      else None)"

definition matchPlain :: "string \<Rightarrow> (string \<times> string) option" where
  "matchPlain s =
     (let w = takeWhile (\<lambda>c. c \<noteq> CHR '','') s
      in if w = '''' then None else map_option (\<lambda>ds. (w, ds)) (matchStatus (drop (length w) s)))"

definition findMetric :: "string \<Rightarrow> (string \<times> string) option" where
  "findMetric key =
     (if HasPrefix key ''http_reqs{name:''
      then let s = drop 15 key in (case matchQuoted s of Some m \<Rightarrow> Some m | None \<Rightarrow> matchPlain s)
      else None)"

text \<open>The code of a status: \<^verbatim>\<open>strconv.Atoi\<close> gives the greatest integer for digits that are out of range, and the error is dropped.\<close>

definition statusCodeOf :: "string \<Rightarrow> int" where
  "statusCodeOf ds = (case Atoi ds of None \<Rightarrow> maxInt64 | Some n \<Rightarrow> n)"

text \<open>The conversion of a float64 to an int drops the fraction; a value out of range becomes the least integer, as on amd64.\<close>

definition truncInt :: "float64 \<Rightarrow> int" where
  "truncInt x = (let n = (if x < 0 then \<lceil>x\<rceil> else \<lfloor>x\<rfloor>) in if int64 n then n else minInt64)"

definition mockRecord :: "string \<Rightarrow> int \<Rightarrow> float64 \<Rightarrow> int \<Rightarrow> ResponseRecord" where
  "mockRecord reqName statusCode avgDuration startedAt =
     \<lparr>rr_RequestName = reqName, rr_Iteration = 0, rr_Attempt = 0, rr_StatusCode = statusCode, rr_DurationMS = avgDuration,
      rr_Error = (if statusCode = 0 \<or> statusCode \<ge> 500 then ''status code '' @ Itoa statusCode else ''''),
      rr_BodyPreview = '''', rr_StartedAt = startedAt\<rparr>"

definition avgDuration :: "k6Summary \<Rightarrow> float64" where
  "avgDuration summary = (case mapGet (su_Metrics summary) ''http_req_duration'' of None \<Rightarrow> 0 | Some m \<Rightarrow> valueAt m ''avg'')"

definition metricRecords :: "float64 \<Rightarrow> int \<Rightarrow> string \<times> k6Metric \<Rightarrow> ResponseRecord list" where
  "metricRecords avg startedAt entry =
     (case findMetric (fst entry) of
        None \<Rightarrow> []
      | Some (reqName, ds) \<Rightarrow>
          replicate (nat (truncInt (valueAt (snd entry) ''count''))) (mockRecord reqName (statusCodeOf ds) avg startedAt))"

definition reconstructRecords :: "(k6Metric gomap \<Rightarrow> k6Metric gomap) \<Rightarrow> k6Summary \<Rightarrow> int \<Rightarrow> ResponseRecord list" where
  "reconstructRecords iter summary startedAt =
     concat (map (metricRecords (avgDuration summary) startedAt) (iter (su_Metrics summary)))"

section \<open>Checks\<close>

definition k6EvaluateInvariants :: "(string \<Rightarrow> string) \<Rightarrow> (string gomap \<Rightarrow> string gomap) \<Rightarrow> (nat \<Rightarrow> ReqIO) \<Rightarrow> string \<Rightarrow> Scenario \<Rightarrow>
    ResponseRecord list \<Rightarrow> CheckResult list" where
  "k6EvaluateInvariants jsonErr iter ios runID sc records =
     concat (map (\<lambda>(i, iv).
       if iv_Type iv = ''response_count'' then [evaluateResponseCount iv records]
       else if iv_Type iv = ''http_probe'' then [evaluateHTTPProbe jsonErr iter (ios i) runID sc iv]
       else []) (enumerate 0 (sc_Invariants sc)))"

definition statusText :: "bool \<Rightarrow> string" where
  "statusText passed = (if passed then ''passed'' else ''failed'')"

text \<open>The loop over the thresholds of a metric: the first whose expression contains the pattern decides.\<close>

definition thresholdOutcome :: "(k6Threshold gomap \<Rightarrow> k6Threshold gomap) \<Rightarrow> k6Summary \<Rightarrow> string \<Rightarrow> string \<Rightarrow>
    (k6Metric \<Rightarrow> string option) \<Rightarrow> bool \<times> string" where
  "thresholdOutcome iter summary metric pattern actual =
     (case mapGet (su_Metrics summary) metric of
        None \<Rightarrow> (True, ''passed'')
      | Some m \<Rightarrow>
          (case find (\<lambda>(k, t). Contains k pattern) (iter (km_Thresholds m)) of
             None \<Rightarrow> (True, ''passed'')
           | Some (k, t) \<Rightarrow> (kt_Ok t, case actual m of None \<Rightarrow> ''passed'' | Some s \<Rightarrow> s)))"

definition errorRateCheck :: "(k6Threshold gomap \<Rightarrow> k6Threshold gomap) \<Rightarrow> k6Summary \<Rightarrow> float64 \<Rightarrow> CheckResult" where
  "errorRateCheck iter summary limit =
     (let successRate = fsub 1 limit;
          (passed, actualStr) =
            thresholdOutcome iter summary ''checks'' (''rate>='' @ FormatFixed 4 successRate)
              (\<lambda>m. map_option (\<lambda>rate. FormatFixed 4 (fsub 1 rate)) (mapGet (km_Values m) ''rate''))
      in \<lparr>ck_Name = ''max_error_rate'', ck_Passed = passed,
          ck_Message = statusText passed @ '': error rate '' @ actualStr @ '' (limit <= '' @ FormatFixed 4 limit @ '')'',
          ck_Expected = ''<= '' @ FormatFixed 4 limit, ck_Actual = actualStr\<rparr>)"

definition p95Check :: "(k6Threshold gomap \<Rightarrow> k6Threshold gomap) \<Rightarrow> k6Summary \<Rightarrow> float64 \<Rightarrow> CheckResult" where
  "p95Check iter summary limit =
     (let (passed, actualStr) =
            thresholdOutcome iter summary ''http_req_duration'' (''p(95)<='' @ FormatFixed 1 limit)
              (\<lambda>m. map_option (\<lambda>p. FormatFixed 1 p @ ''ms'') (mapGet (km_Values m) ''p(95)''))
      in \<lparr>ck_Name = ''p95_ms'', ck_Passed = passed,
          ck_Message = statusText passed @ '': p95 latency '' @ actualStr @ '' (limit <= '' @ FormatFixed 1 limit @ ''ms)'',
          ck_Expected = ''<= '' @ FormatFixed 1 limit @ ''ms'', ck_Actual = actualStr\<rparr>)"

definition parseThresholds :: "(k6Threshold gomap \<Rightarrow> k6Threshold gomap) \<Rightarrow> Scenario \<Rightarrow> k6Summary \<Rightarrow> CheckResult list" where
  "parseThresholds iter sc summary =
     (case th_MaxErrorRate (sc_Thresholds sc) of None \<Rightarrow> [] | Some limit \<Rightarrow> [errorRateCheck iter summary limit]) @
     (case th_P95MS (sc_Thresholds sc) of None \<Rightarrow> [] | Some limit \<Rightarrow> [p95Check iter summary limit])"

section \<open>A run\<close>

text \<open>
  What the command k6 did: it could not be started, and the summary file is as \<^verbatim>\<open>os.CreateTemp\<close> made it, or it ran, with an
  error of the command, the text on its standard error and what reading the file gives afterwards.
\<close>

datatype k6Exec =
    NotStarted string
  | Ran "string option" string "string result"

definition execErr :: "k6Exec \<Rightarrow> string option" where
  "execErr e = (case e of NotStarted err \<Rightarrow> Some err | Ran err _ _ \<Rightarrow> err)"

definition execStderr :: "k6Exec \<Rightarrow> string" where
  "execStderr e = (case e of NotStarted _ \<Rightarrow> '''' | Ran _ out _ \<Rightarrow> out)"

definition readSummary :: "k6Exec \<Rightarrow> string result" where
  "readSummary e = (case e of NotStarted _ \<Rightarrow> Inr '''' | Ran _ _ file \<Rightarrow> file)"

record K6IO =
  k_Env :: "string \<Rightarrow> string"
  k_CreateScript :: "string option"
  k_WriteScript :: "string option"
  k_CreateSummary :: "string option"
  k_StartedAt :: int
  k_FinishedAt :: int
  k_Exec :: "string \<Rightarrow> k6Exec"
  k_Decode :: "string \<Rightarrow> k6Summary result"
  k_Metrics :: "k6Metric gomap \<Rightarrow> k6Metric gomap"
  k_Thresholds :: "k6Threshold gomap \<Rightarrow> k6Threshold gomap"
  k_Headers :: "string gomap \<Rightarrow> string gomap"
  k_JsonErr :: "string \<Rightarrow> string"
  k_Probes :: "nat \<Rightarrow> ReqIO"

definition k6Latency :: "k6Metric \<Rightarrow> LatencyStats" where
  "k6Latency m =
     \<lparr>la_MinMS = valueAt m ''min'', la_AvgMS = valueAt m ''avg'', la_P50MS = valueAt m ''med'',
      la_P95MS = valueAt m ''p(95)'', la_P99MS = valueAt m ''p(99)'', la_MaxMS = valueAt m ''max''\<rparr>"

definition buildK6Report :: "K6IO \<Rightarrow> string \<Rightarrow> Scenario \<Rightarrow> k6Summary \<Rightarrow> Report" where
  "buildK6Report w runID sc summary =
     (let records = reconstructRecords (k_Metrics w) summary (k_StartedAt w);
          invariants = (if length (sc_Invariants sc) > 0
                        then k6EvaluateInvariants (k_JsonErr w) (k_Headers w) (k_Probes w) runID sc records else []);
          thresholds = parseThresholds (k_Thresholds w) sc summary;
          rep = Build (k_FinishedAt w) runID (sc_Name sc) (k_StartedAt w) records thresholds invariants
      in case mapGet (su_Metrics summary) ''http_req_duration'' of
           None \<Rightarrow> rep
         | Some m \<Rightarrow> rep\<lparr>rp_Summary := (rp_Summary rep)\<lparr>sm_Latency := k6Latency m\<rparr>\<rparr>)"

definition formatErr :: "string option \<Rightarrow> string" where
  "formatErr e = (case e of None \<Rightarrow> ''<nil>'' | Some m \<Rightarrow> m)"

definition K6RunWithOptions :: "K6IO \<Rightarrow> string \<Rightarrow> Scenario \<Rightarrow> Report result" where
  "K6RunWithOptions w runID sc =
     (case Compile (k_Env w) sc of
        Inl err \<Rightarrow> Inl (''compile scenario: '' @ err)
      | Inr script \<Rightarrow>
          (case k_CreateScript w of
             Some err \<Rightarrow> Inl (''create temp script: '' @ err)
           | None \<Rightarrow>
               (case k_WriteScript w of
                  Some err \<Rightarrow> Inl (''write temp script: '' @ err)
                | None \<Rightarrow>
                    (case k_CreateSummary w of
                       Some err \<Rightarrow> Inl (''create temp summary file: '' @ err)
                     | None \<Rightarrow>
                         (let run = k_Exec w (ks_Content script)
                          in case readSummary run of
                               Inl _ \<Rightarrow> Inl (''k6 run failed: '' @ formatErr (execErr run) @ '', stderr: '' @ execStderr run)
                             | Inr summaryData \<Rightarrow>
                                 (case k_Decode w summaryData of
                                    Inl err \<Rightarrow> Inl (''unmarshal k6 summary: '' @ err)
                                  | Inr summary \<Rightarrow> Inr (buildK6Report w runID sc summary)))))))"

section \<open>The names of the metrics\<close>

text \<open>A name the verb \<^verbatim>\<open>%q\<close> leaves as it is.\<close>

definition plainName :: "string \<Rightarrow> bool" where
  "plainName n \<longleftrightarrow> n \<noteq> '''' \<and> list_all (\<lambda>c. quoteChar c = [c]) n"

text \<open>The request name and the status a metric counts, as the runner reads them.\<close>

definition metricOf :: "string \<Rightarrow> (string \<times> int) option" where
  "metricOf key = map_option (\<lambda>(n, ds). (n, statusCodeOf ds)) (findMetric key)"

lemma Quote_plain:
  assumes "plainName n"
  shows "Quote n = dquote # n @ [dquote]" and "dquote \<notin> set n"
proof -
  have "concat (map quoteChar m) = m" if "list_all (\<lambda>c. quoteChar c = [c]) m" for m
    using that by (induction m) simp_all
  then show "Quote n = dquote # n @ [dquote]"
    using assms by (simp add: Quote_def plainName_def)
  have "quoteChar dquote \<noteq> [dquote]"
    by (simp add: quoteChar_def)
  then show "dquote \<notin> set n"
    using assms by (auto simp: plainName_def list_all_iff)
qed

lemma takeWhile_stop: "x \<notin> set n \<Longrightarrow> takeWhile (\<lambda>c. c \<noteq> x) (n @ x # r) = n \<and> dropWhile (\<lambda>c. c \<noteq> x) (n @ x # r) = x # r"
  by (induction n) auto

lemma matchStatus_Itoa:
  assumes "0 \<le> status"
  shows "matchStatus ('',status:'' @ Itoa status @ ''}'') = Some (Itoa status)"
proof -
  let ?d = "digits (nat status)"
  have d: "list_all isDigit ?d"
    by (simp add: list_all_iff isDigit_digits)
  have "takeWhile isDigit (ds @ ''}'') = ds \<and> dropWhile isDigit (ds @ ''}'') = ''}''" if "list_all isDigit ds" for ds
    using that by (induction ds) (simp_all add: isDigit_def code_def)
  with d have "takeWhile isDigit (?d @ ''}'') = ?d \<and> dropWhile isDigit (?d @ ''}'') = ''}''"
    by blast
  then show ?thesis
    using assms by (simp add: matchStatus_def HasPrefix_def Itoa_def Let_def)
qed

text \<open>
  The compiler and the runner agree on the names of the metrics: for a request name the verb %q leaves as it is and a
  status that is no negative number, the runner reads the request and the status back from the name of the metric the
  compiler asked k6 to track.
\<close>

theorem metric_key_roundtrip:
  assumes "plainName name" and "0 \<le> status" and "int64 status"
  shows "metricOf (metricKey name status) = Some (name, status)"
proof -
  have "name \<noteq> ''''"
    using assms(1) by (simp add: plainName_def)
  then have "matchQuoted (dquote # name @ dquote # '',status:'' @ Itoa status @ ''}'') = Some (name, Itoa status)"
    using takeWhile_stop [OF Quote_plain(2) [OF assms(1)], of "'',status:'' @ Itoa status @ ''}''"] matchStatus_Itoa [OF assms(2)]
    by (simp add: matchQuoted_def HasPrefix_def Let_def)
  then show ?thesis
    by (simp add: metricOf_def findMetric_def metricKey_def Quote_plain(1) [OF assms(1)] HasPrefix_def statusCodeOf_def
        Atoi_Itoa assms(3))
qed

theorem metric_key_roundtrip_witness:
  "plainName ''checkout'' \<and> metricOf (metricKey ''checkout'' 409) = Some (''checkout'', 409)"
proof -
  have "plainName ''checkout''" "(0::int) \<le> 409" "int64 409"
    by code_simp+
  from metric_key_roundtrip [OF this] this(1) show ?thesis
    by blast
qed

section \<open>The records of a k6 run\<close>

text \<open>How many responses a summary tells of a request and a status.\<close>

definition metricCount :: "k6Metric \<Rightarrow> nat" where
  "metricCount m = nat (truncInt (valueAt m ''count''))"

definition tracked :: "k6Summary \<Rightarrow> string \<Rightarrow> int \<Rightarrow> nat" where
  "tracked summary name status =
     sum_list (map (\<lambda>(k, m). if metricOf k = Some (name, status) then metricCount m else 0) (su_Metrics summary))"

lemma filter_replicate_length: "length (filter P (replicate n x)) = (if P x then n else 0)"
  by (induction n) auto

lemma metricRecords_count:
  "length (filter (\<lambda>r. rr_RequestName r = name \<and> rr_StatusCode r = status) (metricRecords avg t e)) =
     (case e of (k, m) \<Rightarrow> if metricOf k = Some (name, status) then metricCount m else 0)"
  by (auto simp: metricRecords_def metricOf_def metricCount_def filter_replicate_length mockRecord_def split: option.split prod.split)

lemma sum_list_mset_eq: "mset xs = mset ys \<Longrightarrow> sum_list (map f xs) = (sum_list (map f ys) :: nat)"
  by (metis mset_map sum_mset_sum_list)

text \<open>
  Whatever the order in which Go walks the metrics, the records of a k6 run are the responses k6 counted: for every
  request name and status there are as many records as the metrics of that name and status count, and no record has a
  name or status of none.
\<close>

theorem k6_records_count:
  assumes "mset (iter (su_Metrics summary)) = mset (su_Metrics summary)"
  shows "length (filter (\<lambda>r. rr_RequestName r = name \<and> rr_StatusCode r = status) (reconstructRecords iter summary t)) =
    tracked summary name status"
proof -
  have "length (filter (\<lambda>r. rr_RequestName r = name \<and> rr_StatusCode r = status) (concat (map (metricRecords avg t) ms))) =
      sum_list (map (\<lambda>(k, m). if metricOf k = Some (name, status) then metricCount m else 0) ms)" for avg ms
    by (induction ms) (simp_all add: metricRecords_count)
  then show ?thesis
    unfolding reconstructRecords_def tracked_def using sum_list_mset_eq [OF assms] by simp
qed

definition sampleMetric :: "float64 \<Rightarrow> k6Metric" where
  "sampleMetric n = \<lparr>km_Type = ''counter'', km_Values = [(''count'', n)], km_Thresholds = []\<rparr>"

definition sampleSummary :: k6Summary where
  "sampleSummary = \<lparr>su_Metrics = [(metricKey ''checkout'' 201, sampleMetric 1), (metricKey ''checkout'' 409, sampleMetric 24)],
     su_RootGroup = K6Group '''' '''' [] []\<rparr>"

theorem k6_records_count_witness:
  "length (filter (\<lambda>r. rr_RequestName r = ''checkout'' \<and> rr_StatusCode r = 409) (reconstructRecords rev sampleSummary 1)) = 24"
proof -
  have "tracked sampleSummary ''checkout'' 409 = 24"
    by code_simp
  then show ?thesis
    using k6_records_count [of rev sampleSummary "''checkout''" 409 1] by simp
qed

section \<open>The verdict of a k6 run\<close>

text \<open>An expression of a threshold that k6 evaluated is met; one that k6 does not report is taken as met.\<close>

definition k6Met :: "(k6Threshold gomap \<Rightarrow> k6Threshold gomap) \<Rightarrow> k6Summary \<Rightarrow> string \<Rightarrow> string \<Rightarrow> bool" where
  "k6Met iter summary metric expr =
     (case mapGet (su_Metrics summary) metric of
        None \<Rightarrow> True
      | Some m \<Rightarrow> (case find (\<lambda>e. Contains (fst e) expr) (iter (km_Thresholds m)) of None \<Rightarrow> True | Some e \<Rightarrow> kt_Ok (snd e)))"

definition compiledMet :: "(k6Threshold gomap \<Rightarrow> k6Threshold gomap) \<Rightarrow> k6Summary \<Rightarrow> Scenario \<Rightarrow> string \<Rightarrow> bool" where
  "compiledMet iter summary sc metric =
     (case mapGet (k6Thresholds sc) metric of None \<Rightarrow> True | Some exprs \<Rightarrow> list_all (k6Met iter summary metric) exprs)"

text \<open>A metric of failed responses (no response, or a status of 500 and above) that counts any.\<close>

definition failedMetric :: "string \<times> k6Metric \<Rightarrow> bool" where
  "failedMetric e \<longleftrightarrow>
     (case metricOf (fst e) of None \<Rightarrow> False | Some (name, status) \<Rightarrow> (status = 0 \<or> status \<ge> 500) \<and> metricCount (snd e) > 0)"

text \<open>The world of the Go runner in which the probes of a k6 run are sent.\<close>

definition probeWorld :: "K6IO \<Rightarrow> RunIO" where
  "probeWorld w =
     \<lparr>ri_Env = k_Env w, ri_StartedAt = k_StartedAt w, ri_FinishedAt = k_FinishedAt w, ri_NewRunID = '''',
      ri_Iter = k_Headers w, ri_JsonErr = k_JsonErr w, ri_Setup = k_Probes w, ri_Traffic = (\<lambda>_ _. ([], [])),
      ri_Probes = k_Probes w, ri_Teardown = k_Probes w\<rparr>"

lemma metricKey_http_reqs: "metricKey n s \<noteq> ''checks'' \<and> metricKey n s \<noteq> ''http_req_duration''"
  by (simp add: metricKey_def)

lemma mapGet_trackRequests:
  assumes "\<And>n s. metricKey n s \<noteq> k"
  shows "mapGet (trackRequests rs out) k = mapGet out k"
proof -
  have inner: "mapGet (fold (\<lambda>s. mapSet (metricKey n s) v) ss out) k = mapGet out k" for n v ss out
    by (induction ss arbitrary: out) (simp_all add: assms [symmetric])
  show ?thesis
    unfolding trackRequests_def by (induction rs arbitrary: out) (simp_all add: inner)
qed

lemma k6Thresholds_entries:
  "mapGet (k6Thresholds sc) ''checks'' =
     map_option (\<lambda>rate. [''rate>='' @ FormatFixed 4 (fsub 1 rate)]) (th_MaxErrorRate (sc_Thresholds sc))"
  "mapGet (k6Thresholds sc) ''http_req_duration'' =
     map_option (\<lambda>limit. [''p(95)<='' @ FormatFixed 1 limit]) (th_P95MS (sc_Thresholds sc))"
  by (simp_all add: k6Thresholds_def mapGet_trackRequests metricKey_http_reqs mapGet_def [of "[]"] split: option.split)

lemma thresholdOutcome_met: "fst (thresholdOutcome iter summary metric expr actual) = k6Met iter summary metric expr"
  by (simp add: thresholdOutcome_def k6Met_def case_prod_unfold split: option.split)

lemma parseThresholds_Passed:
  "list_all ck_Passed (parseThresholds iter sc summary) \<longleftrightarrow>
     compiledMet iter summary sc ''checks'' \<and> compiledMet iter summary sc ''http_req_duration''"
proof -
  have "ck_Passed (errorRateCheck iter summary l) = k6Met iter summary ''checks'' (''rate>='' @ FormatFixed 4 (fsub 1 l))"
    "ck_Passed (p95Check iter summary l) = k6Met iter summary ''http_req_duration'' (''p(95)<='' @ FormatFixed 1 l)" for l
    by (simp_all add: errorRateCheck_def p95Check_def Let_def case_prod_unfold thresholdOutcome_met)
  then show ?thesis
    by (simp add: parseThresholds_def compiledMet_def k6Thresholds_entries split: option.split)
qed

lemma k6EvaluateInvariants_eq: "k6EvaluateInvariants jsonErr iter ios runID sc = evaluateInvariants jsonErr iter ios runID sc"
  by (rule ext) (simp add: k6EvaluateInvariants_def evaluateInvariants_def evaluateInvariant_def)

lemma list_ex_concat_map: "list_ex P (concat (map f xs)) = list_ex (\<lambda>x. list_ex P (f x)) xs"
  by (induction xs) auto

lemma reconstruct_failed:
  assumes "mset (iter (su_Metrics summary)) = mset (su_Metrics summary)"
  shows "list_ex failedRecord (reconstructRecords iter summary t) \<longleftrightarrow> list_ex failedMetric (su_Metrics summary)"
proof -
  have "list_ex failedRecord (metricRecords avg t e) = failedMetric e" for avg e
  proof (cases "findMetric (fst e)")
    case (Some x)
    obtain name ds where "x = (name, ds)"
      by (cases x)
    moreover have "failedRecord (mockRecord name s avg t) \<longleftrightarrow> s = 0 \<or> s \<ge> 500" for s
      by (simp add: failedRecord_def mockRecord_def)
    ultimately show ?thesis
      by (auto simp: Some metricRecords_def failedMetric_def metricOf_def metricCount_def list_ex_iff)
  qed (simp add: metricRecords_def failedMetric_def metricOf_def)
  then show ?thesis
    using mset_eq_setD [OF assms] by (simp add: reconstructRecords_def list_ex_concat_map list_ex_iff)
qed

lemma sc_Thresholds_kept [simp]: "sc_Thresholds (Normalized (WithEnv env sc)) = sc_Thresholds sc"
  by (simp add: Normalized_def WithEnv_def)


lemma Compile_valid:
  "Validate (Normalized (WithEnv env sc)) = None \<Longrightarrow>
     Compile env sc = Inr \<lparr>ks_Name = sc_Name (Normalized (WithEnv env sc)), ks_Content = scriptContent (Normalized (WithEnv env sc))\<rparr>"
  by (simp add: Compile_def Let_def)

definition sampleK6 :: "k6Exec \<Rightarrow> K6IO" where
  "sampleK6 e =
     \<lparr>k_Env = portEnv, k_CreateScript = None, k_WriteScript = None, k_CreateSummary = None, k_StartedAt = 1, k_FinishedAt = 2,
      k_Exec = (\<lambda>_. e),
      k_Decode = (\<lambda>s. if s = '''' then Inl ''unexpected end of JSON input'' else Inr sampleSummary),
      k_Metrics = rev, k_Thresholds = (\<lambda>m. m), k_Headers = (\<lambda>m. m), k_JsonErr = (\<lambda>_. ''''), k_Probes = (\<lambda>_. okIO '''')\<rparr>"

definition uncheckedRace :: Scenario where
  "uncheckedRace = checkoutRace\<lparr>sc_Invariants := []\<rparr>"

lemma uncheckedRace_valid: "Validate (Normalized (WithEnv portEnv uncheckedRace)) = None"
  by code_simp




section \<open>The plan of a k6 run\<close>

text \<open>
  How often k6 sends the requests of a name: the executor calls the default function \<open>k6Iterations\<close> times, and a call sends
  each request once, or in each attempt of a retry storm.
\<close>

definition k6Sends :: "Scenario \<Rightarrow> string \<Rightarrow> int" where
  "k6Sends sc name =
     k6Iterations sc * (if tr_Type (sc_Traffic sc) = TrafficRetryStorm then k6Attempts sc else 1) *
     int (length (filter (\<lambda>r. rq_Name r = name) (sc_Requests sc)))"

text \<open>The jobs of the Go runner: a race sends each request of an iteration once per racer.\<close>

definition goJobs :: "Scenario \<Rightarrow> job list" where
  "goJobs sc = allJobs sc (if tr_Type (sc_Traffic sc) = TrafficRace then nat (tr_Concurrency (sc_Traffic sc)) else trafficAttempts sc)"

lemma jobs_of_name:
  "length (filter (\<lambda>(k, r, a). rq_Name r = name) (allJobs sc n)) =
     iterations sc * (n * length (filter (\<lambda>r. rq_Name r = name) (sc_Requests sc)))"
proof -
  have one: "length (filter (\<lambda>(k, r, a). rq_Name r = name) (map (\<lambda>a. (k, req, a)) xs)) = (if rq_Name req = name then length xs else 0)"
    for k req and xs :: "nat list"
    by (induction xs) auto
  have req: "length (filter (\<lambda>(k, r, a). rq_Name r = name) (concat (map (\<lambda>req. map (\<lambda>a. (k, req, a)) [1..<Suc n]) rs))) =
      n * length (filter (\<lambda>r. rq_Name r = name) rs)" for k rs
    by (induction rs) (simp_all add: one del: upt_Suc filter_map)
  have iteration: "length (filter (\<lambda>(k, r, a). rq_Name r = name) (jobsOf sc n k)) =
      n * length (filter (\<lambda>r. rq_Name r = name) (sc_Requests sc))" for k
    unfolding jobsOf_def by (rule req)
  have "length (filter (\<lambda>(k, r, a). rq_Name r = name) (concat (map (jobsOf sc n) ks))) =
      length ks * (n * length (filter (\<lambda>r. rq_Name r = name) (sc_Requests sc)))" for ks
    by (induction ks) (simp_all add: iteration)
  then show ?thesis
    by (simp add: allJobs_def)
qed

lemma Normalized_traffic_bounds:
  "0 < tr_Iterations (sc_Traffic (Normalized s))" "0 < tr_Concurrency (sc_Traffic (Normalized s))"
  "tr_Type (sc_Traffic (Normalized s)) = TrafficRetryStorm \<Longrightarrow> 0 < rp_Attempts (tr_Retry (sc_Traffic (Normalized s)))"
  by (auto simp: Normalized_def normalizeTraffic_def Let_def traffic_types split: if_splits)



end
