(* ===== verification/Postgres.thy ===== *)
theory Postgres
  imports Store "HOL-Library.Monad_Syntax"
begin

text \<open>
  \<^verbatim>\<open>internal/store/postgres.go\<close> on the schema of \<^verbatim>\<open>deployments/postgres/migrations\<close>. The tables are lists of rows with the columns
  the code reads or writes. A SQL statement is a function of the database whose result is None when the database
  reports an error: a constraint is violated, a parameter does not have the type of its column, or no row is there to
  scan. The statements of a transaction work on a copy that replaces the database when the commit succeeds. Rows that
  an ORDER BY leaves open are listed in the order they were inserted.

  What lies outside the code is an argument: the codecs of \<^verbatim>\<open>encoding/json\<close> for the documents in JSONB columns (only the
  encoding of a scenario can fail, on the raw JSON of a request body), the input
  function of the type uuid and the checksum (\<open>PgEnv\<close>), and, for each call of a method, which of its statements fail
  (a lost connection, the timeout of five seconds), the readings of the clocks and the random identifiers
  (\<open>PgIO\<close>).
\<close>

section \<open>The schema\<close>

datatype run_status_enum = Queued | Running | Passed | Failed | Errored | Canceled

definition statusName :: "run_status_enum \<Rightarrow> string" where
  "statusName s = (case s of Queued \<Rightarrow> RunQueued | Running \<Rightarrow> RunRunning | Passed \<Rightarrow> RunPassed | Failed \<Rightarrow> RunFailed |
     Errored \<Rightarrow> RunErrored | Canceled \<Rightarrow> RunCanceled)"

definition statusIn :: "string \<Rightarrow> run_status_enum option" where
  "statusIn s = find (\<lambda>e. statusName e = s) [Queued, Running, Passed, Failed, Errored, Canceled]"

definition isEnvironment :: "string \<Rightarrow> bool" where
  "isEnvironment s \<longleftrightarrow> s \<in> {TargetLocal, TargetDevelopment, TargetStaging, TargetProduction}"

record ProjectRow =
  pj_id :: string
  pj_name :: string
  pj_slug :: string
  pj_description :: string

record TargetRow =
  tw_id :: string
  tw_project_id :: string
  tw_name :: string
  tw_slug :: string
  tw_base_url :: string
  tw_environment :: string
  tw_description :: string
  tw_headers :: string
  tw_created_at :: int
  tw_updated_at :: int

record ScenarioRow =
  sw_id :: string
  sw_project_id :: string
  sw_name :: string
  sw_slug :: string
  sw_description :: string
  sw_current_version_id :: "string option"
  sw_created_at :: int

record VersionRow =
  vw_id :: string
  vw_scenario_id :: string
  vw_version_number :: int
  vw_definition :: string
  vw_checksum :: string
  vw_created_at :: int

record RunRow =
  rw_id :: string
  rw_project_id :: string
  rw_target_id :: "string option"
  rw_scenario_id :: "string option"
  rw_scenario_version_id :: "string option"
  rw_status :: run_status_enum
  rw_scenario_snapshot :: string
  rw_error :: "string option"
  rw_started_at :: "int option"
  rw_finished_at :: "int option"
  rw_created_at :: int

record EventRow =
  ew_id :: string
  ew_run_id :: string
  ew_sequence :: int
  ew_level :: string
  ew_type :: string
  ew_message :: string
  ew_data :: string
  ew_created_at :: int

record ReportRow =
  pw_run_id :: string
  pw_status :: run_status_enum
  pw_summary :: string
  pw_thresholds :: string
  pw_invariants :: string
  pw_failures :: string

record DB =
  db_projects :: "ProjectRow list"
  db_targets :: "TargetRow list"
  db_scenarios :: "ScenarioRow list"
  db_versions :: "VersionRow list"
  db_runs :: "RunRow list"
  db_events :: "EventRow list"
  db_reports :: "ReportRow list"

definition emptyDB :: DB where
  "emptyDB = \<lparr>db_projects = [], db_targets = [], db_scenarios = [], db_versions = [], db_runs = [], db_events = [], db_reports = []\<rparr>"

text \<open>The columns of the table runs, in the order of the migrations.\<close>

definition runsColumns :: "string list" where
  "runsColumns = [''id'', ''project_id'', ''target_id'', ''scenario_id'', ''scenario_version_id'', ''status'', ''scenario_snapshot'',
     ''requested_by'', ''error'', ''queued_at'', ''started_at'', ''finished_at'', ''created_at'', ''updated_at'']"

section \<open>The world\<close>

record PgEnv =
  pg_ProjectID :: string
  pg_UUIDIn :: "string \<Rightarrow> string option"
  pg_EncScenario :: "Scenario \<Rightarrow> string option"
  pg_DecScenario :: "string \<Rightarrow> Scenario option"
  pg_DecName :: "string \<Rightarrow> string option"
  pg_Checksum :: "string \<Rightarrow> string"
  pg_EncHeaders :: "string gomap \<Rightarrow> string"
  pg_DecHeaders :: "string \<Rightarrow> headers"
  pg_EncSummary :: "Summary \<Rightarrow> string"
  pg_DecSummary :: "string \<Rightarrow> Summary"
  pg_EncChecks :: "CheckResult list \<Rightarrow> string"
  pg_DecChecks :: "string \<Rightarrow> CheckResult list"
  pg_EncFailures :: "string list \<Rightarrow> string"
  pg_DecFailures :: "string \<Rightarrow> string list"
  pg_EncMeta :: "meta gomap \<Rightarrow> string"
  pg_DecMeta :: "string \<Rightarrow> meta gomap option"

record PgIO =
  pi_Fail :: "nat \<Rightarrow> bool"
  pi_Now :: "nat \<Rightarrow> int"
  pi_UUID :: "nat \<Rightarrow> string"

text \<open>The \<open>i\<close>th statement of a call (a begin and a commit count), and the world of what follows \<open>n\<close> statements.\<close>

definition stmt :: "PgIO \<Rightarrow> nat \<Rightarrow> 'a option \<Rightarrow> 'a option" where
  "stmt w i x = (if pi_Fail w i then None else x)"

definition later :: "nat \<Rightarrow> PgIO \<Rightarrow> PgIO" where
  "later n w = \<lparr>pi_Fail = (\<lambda>i. pi_Fail w (n + i)), pi_Now = (\<lambda>i. pi_Now w (n + i)), pi_UUID = (\<lambda>i. pi_UUID w (n + i))\<rparr>"

text \<open>A time of the Go program in a column of type timestamptz, which counts microseconds.\<close>

definition timestamptz :: "int \<Rightarrow> int" where
  "timestamptz t = t - t mod 1000"

section \<open>Helpers\<close>

definition isSlugChar :: "char \<Rightarrow> bool" where
  "isSlugChar c \<longleftrightarrow> isDigit c \<or> (97 \<le> code c \<and> code c \<le> 122)"

text \<open>\<^verbatim>\<open>nonSlugChars.ReplaceAllString\<close>: each maximal run of other characters becomes one hyphen.\<close>

fun slugRuns :: "bool \<Rightarrow> string \<Rightarrow> string" where
  "slugRuns inRun [] = []"
| "slugRuns inRun (c # s) =
     (if isSlugChar c then c # slugRuns False s
      else if inRun then slugRuns True s else CHR ''-'' # slugRuns True s)"

definition trimHyphens :: "string \<Rightarrow> string" where
  "trimHyphens s = rev (dropWhile (\<lambda>c. c = CHR ''-'') (rev (dropWhile (\<lambda>c. c = CHR ''-'') s)))"

definition uniqueSlug :: "int \<Rightarrow> string \<Rightarrow> string" where
  "uniqueSlug now val =
     (let base = trimHyphens (slugRuns False (ToLower (TrimSpace val)));
          base = (if base = '''' then ''scenario'' else base)
      in base @ ''-'' @ Itoa now)"

definition marshalScenario :: "PgEnv \<Rightarrow> Scenario \<Rightarrow> (string \<times> string) option" where
  "marshalScenario env sc = map_option (\<lambda>raw. (raw, pg_Checksum env raw)) (pg_EncScenario env sc)"

section \<open>Targets\<close>

definition targetRecord :: "PgEnv \<Rightarrow> TargetRow \<Rightarrow> TargetRecord" where
  "targetRecord env t =
     \<lparr>tgr_ID = tw_id t, tgr_Name = tw_name t, tgr_BaseURL = tw_base_url t, tgr_Environment = tw_environment t,
      tgr_Description = tw_description t, tgr_Headers = pg_DecHeaders env (tw_headers t),
      tgr_CreatedAt = tw_created_at t, tgr_UpdatedAt = tw_updated_at t\<rparr>"

definition zeroTarget :: TargetRecord where
  "zeroTarget = \<lparr>tgr_ID = '''', tgr_Name = '''', tgr_BaseURL = '''', tgr_Environment = '''', tgr_Description = '''',
     tgr_Headers = None, tgr_CreatedAt = zeroTime, tgr_UpdatedAt = zeroTime\<rparr>"

definition projectExists :: "string \<Rightarrow> DB \<Rightarrow> bool" where
  "projectExists p db = list_ex (\<lambda>x. pj_id x = p) (db_projects db)"

definition insertTarget :: "TargetRow \<Rightarrow> DB \<Rightarrow> (TargetRow \<times> DB) option" where
  "insertTarget t db =
     (if projectExists (tw_project_id t) db \<and> isEnvironment (tw_environment t) \<and>
         \<not> list_ex (\<lambda>x. tw_id x = tw_id t \<or> (tw_project_id x = tw_project_id t \<and> tw_slug x = tw_slug t)) (db_targets db)
      then Some (t, db\<lparr>db_targets := db_targets db @ [t]\<rparr>) else None)"

definition headersOf :: "headers \<Rightarrow> string gomap" where
  "headersOf h = (case h of None \<Rightarrow> [] | Some m \<Rightarrow> m)"

definition pgCreateTarget :: "PgEnv \<Rightarrow> PgIO \<Rightarrow> TargetRecord \<Rightarrow> DB \<Rightarrow> TargetRecord \<times> DB" where
  "pgCreateTarget env w target db =
     (let rawHeaders = pg_EncHeaders env (headersOf (tgr_Headers target));
          slug = uniqueSlug (pi_Now w 0) (tgr_Name target);
          row = \<lparr>tw_id = pi_UUID w 0, tw_project_id = pg_ProjectID env, tw_name = tgr_Name target, tw_slug = slug,
                 tw_base_url = tgr_BaseURL target, tw_environment = tgr_Environment target,
                 tw_description = tgr_Description target, tw_headers = rawHeaders,
                 tw_created_at = pi_Now w 1, tw_updated_at = pi_Now w 1\<rparr>
      in case stmt w 0 (insertTarget row db) of
           None \<Rightarrow> (zeroTarget, db)
         | Some (t, db') \<Rightarrow> (targetRecord env t, db'))"

text \<open>\<^verbatim>\<open>UPDATE ... WHERE id = $1 AND project_id = $7\<close>; the trigger sets \<^verbatim>\<open>updated_at\<close>.\<close>

definition updateTarget :: "PgEnv \<Rightarrow> int \<Rightarrow> string \<Rightarrow> TargetRecord \<Rightarrow> string \<Rightarrow> DB \<Rightarrow> (TargetRow \<times> DB) option" where
  "updateTarget env now tid target rawHeaders db =
     do {
       i \<leftarrow> pg_UUIDIn env tid;
       _ \<leftarrow> (if isEnvironment (tgr_Environment target) then Some () else None);
       t \<leftarrow> find (\<lambda>x. tw_id x = i \<and> tw_project_id x = pg_ProjectID env) (db_targets db);
       let t' = t\<lparr>tw_name := tgr_Name target, tw_base_url := tgr_BaseURL target, tw_environment := tgr_Environment target,
                  tw_description := tgr_Description target, tw_headers := rawHeaders, tw_updated_at := now\<rparr>;
       Some (t', db\<lparr>db_targets := map (\<lambda>x. if tw_id x = i \<and> tw_project_id x = pg_ProjectID env then t' else x) (db_targets db)\<rparr>)
     }"

definition pgUpdateTarget :: "PgEnv \<Rightarrow> PgIO \<Rightarrow> string \<Rightarrow> TargetRecord \<Rightarrow> DB \<Rightarrow> TargetRecord option \<times> DB" where
  "pgUpdateTarget env w tid target db =
     (let rawHeaders = pg_EncHeaders env (headersOf (tgr_Headers target))
      in case stmt w 0 (updateTarget env (pi_Now w 0) tid target rawHeaders db) of
           None \<Rightarrow> (None, db)
         | Some (t, db') \<Rightarrow> (Some (targetRecord env t), db'))"

text \<open>The foreign key of runs sets the target of the runs of a deleted target to NULL.\<close>

definition deleteTargets :: "PgEnv \<Rightarrow> string \<Rightarrow> DB \<Rightarrow> (nat \<times> DB) option" where
  "deleteTargets env tid db =
     do {
       i \<leftarrow> pg_UUIDIn env tid;
       let gone = filter (\<lambda>x. tw_id x = i \<and> tw_project_id x = pg_ProjectID env) (db_targets db);
       Some (length gone,
         db\<lparr>db_targets := filter (\<lambda>x. \<not> (tw_id x = i \<and> tw_project_id x = pg_ProjectID env)) (db_targets db),
            db_runs := map (\<lambda>r. if gone \<noteq> [] \<and> rw_target_id r = Some i then r\<lparr>rw_target_id := None\<rparr> else r) (db_runs db)\<rparr>)
     }"

definition pgDeleteTarget :: "PgEnv \<Rightarrow> PgIO \<Rightarrow> string \<Rightarrow> DB \<Rightarrow> bool \<times> DB" where
  "pgDeleteTarget env w tid db =
     (case stmt w 0 (deleteTargets env tid db) of
        None \<Rightarrow> (False, db)
      | Some (rows, db') \<Rightarrow> (rows > 0, db'))"

definition pgGetTarget :: "PgEnv \<Rightarrow> PgIO \<Rightarrow> string \<Rightarrow> DB \<Rightarrow> TargetRecord option" where
  "pgGetTarget env w tid db =
     do {
       i \<leftarrow> stmt w 0 (pg_UUIDIn env tid);
       t \<leftarrow> find (\<lambda>x. tw_id x = i \<and> tw_project_id x = pg_ProjectID env) (db_targets db);
       Some (targetRecord env t)
     }"

definition pgListTargets :: "PgEnv \<Rightarrow> PgIO \<Rightarrow> DB \<Rightarrow> TargetRecord list" where
  "pgListTargets env w db =
     (case stmt w 0 (Some (sort_key (\<lambda>t. - tw_created_at t) (filter (\<lambda>x. tw_project_id x = pg_ProjectID env) (db_targets db)))) of
        None \<Rightarrow> []
      | Some rows \<Rightarrow> map (targetRecord env) rows)"

section \<open>Scenarios\<close>

definition zeroScenarioRecord :: ScenarioRecord where
  "zeroScenarioRecord = \<lparr>scr_ID = '''', scr_Scenario = zeroScenario, scr_CurrentVersionID = '''', scr_CurrentVersionNumber = 0,
     scr_CreatedAt = zeroTime\<rparr>"

definition insertScenario :: "ScenarioRow \<Rightarrow> DB \<Rightarrow> DB option" where
  "insertScenario s db =
     (if projectExists (sw_project_id s) db \<and>
         \<not> list_ex (\<lambda>x. sw_id x = sw_id s \<or> (sw_project_id x = sw_project_id s \<and> sw_slug x = sw_slug s)) (db_scenarios db)
      then Some (db\<lparr>db_scenarios := db_scenarios db @ [s]\<rparr>) else None)"

text \<open>A version number is a column of type integer, of 32 bits.\<close>

definition insertVersion :: "VersionRow \<Rightarrow> DB \<Rightarrow> DB option" where
  "insertVersion v db =
     (if list_ex (\<lambda>x. sw_id x = vw_scenario_id v) (db_scenarios db) \<and> vw_version_number v < 2147483648 \<and>
         \<not> list_ex (\<lambda>x. vw_id x = vw_id v \<or> (vw_scenario_id x = vw_scenario_id v \<and> vw_version_number x = vw_version_number v))
            (db_versions db)
      then Some (db\<lparr>db_versions := db_versions db @ [v]\<rparr>) else None)"

definition setCurrentVersion :: "string \<Rightarrow> string \<Rightarrow> DB \<Rightarrow> DB" where
  "setCurrentVersion sid vid db =
     db\<lparr>db_scenarios := map (\<lambda>x. if sw_id x = sid then x\<lparr>sw_current_version_id := Some vid\<rparr> else x) (db_scenarios db)\<rparr>"

definition pgCreateScenario :: "PgEnv \<Rightarrow> PgIO \<Rightarrow> Scenario \<Rightarrow> DB \<Rightarrow> ScenarioRecord \<times> DB" where
  "pgCreateScenario env w sc db =
     (case do {
         (raw, checksum) \<leftarrow> marshalScenario env sc;
         _ \<leftarrow> stmt w 0 (Some ());
         let slug = uniqueSlug (pi_Now w 0) (sc_Name sc);
         let sid = pi_UUID w 0;
         let versionID = pi_UUID w 1;
         let now = pi_Now w 1;
         db1 \<leftarrow> stmt w 1 (insertScenario \<lparr>sw_id = sid, sw_project_id = pg_ProjectID env, sw_name = sc_Name sc, sw_slug = slug,
                  sw_description = sc_Description sc, sw_current_version_id = None, sw_created_at = now\<rparr> db);
         db2 \<leftarrow> stmt w 2 (insertVersion \<lparr>vw_id = versionID, vw_scenario_id = sid, vw_version_number = 1, vw_definition = raw,
                  vw_checksum = checksum, vw_created_at = now\<rparr> db1);
         db3 \<leftarrow> stmt w 3 (Some (setCurrentVersion sid versionID db2));
         _ \<leftarrow> stmt w 4 (Some ());
         Some (\<lparr>scr_ID = sid, scr_Scenario = sc, scr_CurrentVersionID = versionID, scr_CurrentVersionNumber = 1,
                scr_CreatedAt = now\<rparr>, db3)
       } of
        None \<Rightarrow> (zeroScenarioRecord, db)
      | Some result \<Rightarrow> result)"

definition nextVersion :: "PgEnv \<Rightarrow> string \<Rightarrow> DB \<Rightarrow> (string \<times> int) option" where
  "nextVersion env sid db =
     map_option (\<lambda>i. (i, fold max (map vw_version_number (filter (\<lambda>v. vw_scenario_id v = i) (db_versions db))) 0 + 1)) (pg_UUIDIn env sid)"

definition updateScenarioRow :: "string \<Rightarrow> Scenario \<Rightarrow> string \<Rightarrow> DB \<Rightarrow> (int \<times> DB) option" where
  "updateScenarioRow sid sc vid db =
     (case find (\<lambda>x. sw_id x = sid) (db_scenarios db) of
        None \<Rightarrow> None
      | Some s \<Rightarrow>
          Some (sw_created_at s, db\<lparr>db_scenarios := map (\<lambda>x. if sw_id x = sid
            then x\<lparr>sw_name := sc_Name sc, sw_description := sc_Description sc, sw_current_version_id := Some vid\<rparr> else x)
              (db_scenarios db)\<rparr>))"

definition pgUpdateScenario :: "PgEnv \<Rightarrow> PgIO \<Rightarrow> string \<Rightarrow> Scenario \<Rightarrow> DB \<Rightarrow> ScenarioRecord option \<times> DB" where
  "pgUpdateScenario env w scenarioID sc db =
     (case do {
         (raw, checksum) \<leftarrow> marshalScenario env sc;
         _ \<leftarrow> stmt w 0 (Some ());
         (sid, versionNumber) \<leftarrow> stmt w 1 (nextVersion env scenarioID db);
         _ \<leftarrow> (if versionNumber = 1 then None else Some ());
         let versionID = pi_UUID w 0;
         db1 \<leftarrow> stmt w 2 (insertVersion \<lparr>vw_id = versionID, vw_scenario_id = sid, vw_version_number = versionNumber,
                  vw_definition = raw, vw_checksum = checksum, vw_created_at = pi_Now w 0\<rparr> db);
         (createdAt, db2) \<leftarrow> stmt w 3 (updateScenarioRow sid sc versionID db1);
         _ \<leftarrow> stmt w 4 (Some ());
         Some (\<lparr>scr_ID = sid, scr_Scenario = sc, scr_CurrentVersionID = versionID, scr_CurrentVersionNumber = versionNumber,
                scr_CreatedAt = createdAt\<rparr>, db2)
       } of
        None \<Rightarrow> (None, db)
      | Some (rec, db') \<Rightarrow> (Some rec, db'))"

text \<open>\<^verbatim>\<open>JOIN scenario_versions sv ON sv.id = s.current_version_id\<close>.\<close>

definition currentVersionRow :: "ScenarioRow \<Rightarrow> DB \<Rightarrow> VersionRow option" where
  "currentVersionRow s db = (case sw_current_version_id s of None \<Rightarrow> None | Some v \<Rightarrow> find (\<lambda>x. vw_id x = v) (db_versions db))"

definition scenarioRecord :: "PgEnv \<Rightarrow> ScenarioRow \<Rightarrow> VersionRow \<Rightarrow> ScenarioRecord option" where
  "scenarioRecord env s v =
     map_option (\<lambda>sc. \<lparr>scr_ID = sw_id s, scr_Scenario = sc, scr_CurrentVersionID = vw_id v,
       scr_CurrentVersionNumber = vw_version_number v, scr_CreatedAt = sw_created_at s\<rparr>) (pg_DecScenario env (vw_definition v))"

definition pgGetScenario :: "PgEnv \<Rightarrow> PgIO \<Rightarrow> string \<Rightarrow> DB \<Rightarrow> ScenarioRecord option" where
  "pgGetScenario env w sid db =
     do {
       i \<leftarrow> stmt w 0 (pg_UUIDIn env sid);
       s \<leftarrow> find (\<lambda>x. sw_id x = i) (db_scenarios db);
       v \<leftarrow> currentVersionRow s db;
       scenarioRecord env s v
     }"

text \<open>A row that does not decode makes the whole listing nil.\<close>

definition allOf :: "('a \<Rightarrow> 'b option) \<Rightarrow> 'a list \<Rightarrow> 'b list" where
  "allOf f xs = (if list_all (\<lambda>x. f x \<noteq> None) xs then map (\<lambda>x. the (f x)) xs else [])"

definition pgListScenarios :: "PgEnv \<Rightarrow> PgIO \<Rightarrow> DB \<Rightarrow> ScenarioRecord list" where
  "pgListScenarios env w db =
     (if pi_Fail w 0 then []
      else allOf (\<lambda>(s, v). scenarioRecord env s v)
        (concat (map (\<lambda>s. case currentVersionRow s db of None \<Rightarrow> [] | Some v \<Rightarrow> [(s, v)])
          (sort_key (\<lambda>s. - sw_created_at s) (filter (\<lambda>x. sw_project_id x = pg_ProjectID env) (db_scenarios db))))))"

definition versionRecord :: "PgEnv \<Rightarrow> VersionRow \<Rightarrow> ScenarioVersionRecord option" where
  "versionRecord env v =
     map_option (\<lambda>sc. \<lparr>sv_ID = vw_id v, sv_ScenarioID = vw_scenario_id v, sv_VersionNumber = vw_version_number v,
       sv_Scenario = sc, sv_CreatedAt = vw_created_at v\<rparr>) (pg_DecScenario env (vw_definition v))"

definition pgListScenarioVersions :: "PgEnv \<Rightarrow> PgIO \<Rightarrow> string \<Rightarrow> DB \<Rightarrow> ScenarioVersionRecord list" where
  "pgListScenarioVersions env w sid db =
     (case stmt w 0 (pg_UUIDIn env sid) of
        None \<Rightarrow> []
      | Some i \<Rightarrow> allOf (versionRecord env) (sort_key vw_version_number (filter (\<lambda>v. vw_scenario_id v = i) (db_versions db))))"

definition pgGetScenarioVersion :: "PgEnv \<Rightarrow> PgIO \<Rightarrow> string \<Rightarrow> int \<Rightarrow> DB \<Rightarrow> ScenarioVersionRecord option" where
  "pgGetScenarioVersion env w sid versionNumber db =
     do {
       i \<leftarrow> stmt w 0 (pg_UUIDIn env sid);
       v \<leftarrow> find (\<lambda>v. vw_scenario_id v = i \<and> vw_version_number v = versionNumber) (db_versions db);
       versionRecord env v
     }"

end
