(* ===== verification/PostgresRuns.thy ===== *)
theory PostgresRuns
  imports Postgres
begin

text \<open>
  \<^verbatim>\<open>internal/store/postgres.go\<close>: the runs, their events and their reports, and the store as a value of the interface.
\<close>

section \<open>Events\<close>

definition nextSequence :: "string \<Rightarrow> DB \<Rightarrow> int" where
  "nextSequence i db = fold max (map ew_sequence (filter (\<lambda>e. ew_run_id e = i) (db_events db))) 0 + 1"

definition insertEvent :: "EventRow \<Rightarrow> DB \<Rightarrow> DB option" where
  "insertEvent e db =
     (if list_ex (\<lambda>r. rw_id r = ew_run_id e) (db_runs db) \<and>
         \<not> list_ex (\<lambda>x. ew_id x = ew_id e \<or> (ew_run_id x = ew_run_id e \<and> ew_sequence x = ew_sequence e)) (db_events db)
      then Some (db\<lparr>db_events := db_events db @ [e]\<rparr>) else None)"

text \<open>The defaults of an event, and the transaction that gives it its number; the statements are begin, lock, select, insert, commit.\<close>

definition withEventDefaults :: "int \<Rightarrow> string \<Rightarrow> Event \<Rightarrow> Event" where
  "withEventDefaults now runID event =
     (let e1 = (if ev_RunID event = '''' then event\<lparr>ev_RunID := runID\<rparr> else event);
          e2 = (if ev_Level e1 = '''' then e1\<lparr>ev_Level := LevelInfo\<rparr> else e1)
      in if ev_CreatedAt e2 = zeroTime then e2\<lparr>ev_CreatedAt := now\<rparr> else e2)"

definition metadataOf :: "Event \<Rightarrow> meta gomap" where
  "metadataOf event = (case ev_Metadata event of None \<Rightarrow> [] | Some m \<Rightarrow> m)"

definition insertNumbered :: "PgEnv \<Rightarrow> PgIO \<Rightarrow> string \<Rightarrow> Event \<Rightarrow> string \<Rightarrow> DB \<Rightarrow> (EventRow \<times> DB) option" where
  "insertNumbered env w runID e raw db =
     do {
       _ \<leftarrow> stmt w 0 (Some ());
       _ \<leftarrow> stmt w 1 (Some ());
       i \<leftarrow> stmt w 2 (pg_UUIDIn env runID);
       let row = \<lparr>ew_id = pi_UUID w 0, ew_run_id = i, ew_sequence = nextSequence i db, ew_level = ev_Level e, ew_type = ev_Type e,
                  ew_message = ev_Message e, ew_data = raw, ew_created_at = timestamptz (ev_CreatedAt e)\<rparr>;
       db' \<leftarrow> stmt w 3 (insertEvent row db);
       _ \<leftarrow> stmt w 4 (Some ());
       Some (row, db')
     }"

text \<open>When only the commit fails, the insert has already set the identifier, the number and the time of the event that is returned.\<close>

definition pgAppendRunEvent :: "PgEnv \<Rightarrow> PgIO \<Rightarrow> string \<Rightarrow> Event \<Rightarrow> DB \<Rightarrow> Event \<times> DB" where
  "pgAppendRunEvent env w runID event db =
     (let e = withEventDefaults (pi_Now w 0) runID event;
          metadata = metadataOf e;
          raw = pg_EncMeta env metadata
      in case insertNumbered env w runID e raw db of
           Some (row, db') \<Rightarrow>
             (e\<lparr>ev_ID := ew_id row, ev_Sequence := ew_sequence row, ev_CreatedAt := ew_created_at row,
                ev_Metadata := Some metadata\<rparr>, db')
         | None \<Rightarrow>
             (case insertNumbered env (w\<lparr>pi_Fail := (pi_Fail w)(4 := False)\<rparr>) runID e raw db of
                None \<Rightarrow> (e, db)
              | Some (row, _) \<Rightarrow>
                  (e\<lparr>ev_ID := ew_id row, ev_Sequence := ew_sequence row, ev_CreatedAt := ew_created_at row\<rparr>, db)))"

definition eventRecord :: "PgEnv \<Rightarrow> EventRow \<Rightarrow> Event" where
  "eventRecord env e =
     \<lparr>ev_ID = ew_id e, ev_RunID = ew_run_id e, ev_Sequence = ew_sequence e, ev_Level = ew_level e, ev_Type = ew_type e,
      ev_Message = ew_message e, ev_Metadata = (if ew_data e = '''' then None else pg_DecMeta env (ew_data e)),
      ev_CreatedAt = ew_created_at e\<rparr>"

definition pgListRunEvents :: "PgEnv \<Rightarrow> PgIO \<Rightarrow> string \<Rightarrow> DB \<Rightarrow> Event list" where
  "pgListRunEvents env w runID db =
     (case stmt w 0 (pg_UUIDIn env runID) of
        None \<Rightarrow> []
      | Some i \<Rightarrow>
          map (eventRecord env)
            (sort_key ew_sequence (sort_key ew_created_at (filter (\<lambda>e. ew_run_id e = i) (db_events db)))))"

definition cancelRequested :: "string \<Rightarrow> DB \<Rightarrow> bool" where
  "cancelRequested i db = list_ex (\<lambda>e. ew_run_id e = i \<and> ew_type e = TypeCancelRequested) (db_events db)"

definition pgIsRunCancelRequested :: "PgEnv \<Rightarrow> PgIO \<Rightarrow> string \<Rightarrow> DB \<Rightarrow> bool" where
  "pgIsRunCancelRequested env w rid db =
     (case stmt w 0 (pg_UUIDIn env rid) of None \<Rightarrow> False | Some i \<Rightarrow> cancelRequested i db)"

section \<open>The lifecycle of a run\<close>

definition activeRow :: "RunRow \<Rightarrow> bool" where
  "activeRow r \<longleftrightarrow> rw_status r = Queued \<or> rw_status r = Running"

text \<open>The check of the table: a run does not finish before it starts.\<close>

definition timesOrdered :: "RunRow \<Rightarrow> bool" where
  "timesOrdered r = (case (rw_finished_at r, rw_started_at r) of (Some f, Some s) \<Rightarrow> s \<le> f | _ \<Rightarrow> True)"

definition updateRuns :: "(RunRow \<Rightarrow> bool) \<Rightarrow> (RunRow \<Rightarrow> RunRow) \<Rightarrow> DB \<Rightarrow> (nat \<times> DB) option" where
  "updateRuns p f db =
     (let hit = filter p (db_runs db)
      in if list_all (\<lambda>r. timesOrdered (f r)) hit
         then Some (length hit, db\<lparr>db_runs := map (\<lambda>r. if p r then f r else r) (db_runs db)\<rparr>) else None)"

definition updateActive :: "PgEnv \<Rightarrow> string \<Rightarrow> (RunRow \<Rightarrow> RunRow) \<Rightarrow> DB \<Rightarrow> (nat \<times> DB) option" where
  "updateActive env rid f db = do { i \<leftarrow> pg_UUIDIn env rid; updateRuns (\<lambda>r. rw_id r = i \<and> activeRow r) f db }"

definition startRow :: "int \<Rightarrow> RunRow \<Rightarrow> RunRow" where
  "startRow now r = r\<lparr>rw_status := Running, rw_started_at := Some (case rw_started_at r of None \<Rightarrow> now | Some t \<Rightarrow> t)\<rparr>"

definition finishRow :: "run_status_enum \<Rightarrow> string option \<Rightarrow> int \<Rightarrow> RunRow \<Rightarrow> RunRow" where
  "finishRow status err now r = r\<lparr>rw_status := status, rw_finished_at := Some now, rw_error := err\<rparr>"

definition pgMarkRunStarted :: "PgEnv \<Rightarrow> PgIO \<Rightarrow> string \<Rightarrow> DB \<Rightarrow> DB" where
  "pgMarkRunStarted env w rid db =
     (case stmt w 0 (updateActive env rid (startRow (pi_Now w 0)) db) of
        None \<Rightarrow> db
      | Some (rows, db') \<Rightarrow>
          (if rows = 0 then db'
           else snd (pgAppendRunEvent env (later 1 w) rid (newEvent LevelInfo TypeRunStarted ''run started'' None) db')))"

definition pgErrorRun :: "PgEnv \<Rightarrow> PgIO \<Rightarrow> string \<Rightarrow> string \<Rightarrow> DB \<Rightarrow> DB" where
  "pgErrorRun env w rid message db =
     (case stmt w 0 (updateActive env rid (finishRow Errored (Some message) (pi_Now w 0)) db) of
        None \<Rightarrow> db
      | Some (rows, db') \<Rightarrow>
          (if rows = 0 then db'
           else snd (pgAppendRunEvent env (later 1 w) rid (newEvent LevelError TypeRunFailed message None) db')))"

section \<open>Reading runs\<close>

definition versionNumberOf :: "string option \<Rightarrow> DB \<Rightarrow> int" where
  "versionNumberOf v db =
     (case v of
        None \<Rightarrow> 0
      | Some i \<Rightarrow> (case find (\<lambda>x. vw_id x = i) (db_versions db) of None \<Rightarrow> 0 | Some x \<Rightarrow> vw_version_number x))"

definition orEmpty :: "string option \<Rightarrow> string" where
  "orEmpty x = (case x of None \<Rightarrow> '''' | Some s \<Rightarrow> s)"

definition runRecord :: "PgEnv \<Rightarrow> DB \<Rightarrow> RunRow \<Rightarrow> RunRecord option" where
  "runRecord env db r =
     map_option (\<lambda>sc.
       \<lparr>run_ID = rw_id r, run_TargetID = orEmpty (rw_target_id r), run_ScenarioID = orEmpty (rw_scenario_id r),
        run_ScenarioVersionID = orEmpty (rw_scenario_version_id r),
        run_ScenarioVersionNumber = versionNumberOf (rw_scenario_version_id r) db,
        run_Status = statusName (rw_status r), run_Scenario = sc, run_Report = None, run_Error = orEmpty (rw_error r),
        run_CreatedAt = rw_created_at r, run_StartedAt = rw_started_at r, run_FinishedAt = rw_finished_at r\<rparr>)
     (pg_DecScenario env (rw_scenario_snapshot r))"

definition pg_getRun :: "PgEnv \<Rightarrow> PgIO \<Rightarrow> string \<Rightarrow> DB \<Rightarrow> RunRecord option" where
  "pg_getRun env w rid db =
     do {
       i \<leftarrow> stmt w 0 (pg_UUIDIn env rid);
       r \<leftarrow> find (\<lambda>r. rw_id r = i) (db_runs db);
       runRecord env db r
     }"

definition zeroReport :: Report where
  "zeroReport = \<lparr>rp_RunID = '''', rp_Scenario = '''', rp_ScenarioVersionID = '''', rp_ScenarioVersionNumber = 0, rp_Status = '''',
     rp_StartedAt = zeroTime, rp_FinishedAt = zeroTime, rp_DurationMS = 0, rp_Summary = zeroSummary, rp_Thresholds = [],
     rp_Invariants = [], rp_Failures = [], rp_Responses = []\<rparr>"

definition reportColumns :: "PgEnv \<Rightarrow> ReportRow \<Rightarrow> Report \<Rightarrow> Report" where
  "reportColumns env p rep =
     rep\<lparr>rp_Status := statusName (pw_status p), rp_Summary := pg_DecSummary env (pw_summary p),
         rp_Thresholds := pg_DecChecks env (pw_thresholds p), rp_Invariants := pg_DecChecks env (pw_invariants p),
         rp_Failures := pg_DecFailures env (pw_failures p)\<rparr>"

text \<open>
  The second query of \<^verbatim>\<open>getReport\<close>. The database refuses a statement that names a column the table does not have; a NULL
  version does not scan into a string.
\<close>

definition selectRunVersion :: "PgEnv \<Rightarrow> string \<Rightarrow> DB \<Rightarrow> (string \<times> string \<times> int) option" where
  "selectRunVersion env rid db =
     (if list_all (\<lambda>c. c \<in> set runsColumns) [''scenario_snapshot'', ''scenario_version_id'', ''scenario_version_number'']
      then do {
        i \<leftarrow> pg_UUIDIn env rid;
        r \<leftarrow> find (\<lambda>r. rw_id r = i) (db_runs db);
        v \<leftarrow> rw_scenario_version_id r;
        Some (rw_scenario_snapshot r, v, versionNumberOf (Some v) db)
      } else None)"

definition pg_getReport :: "PgEnv \<Rightarrow> PgIO \<Rightarrow> string \<Rightarrow> DB \<Rightarrow> Report option" where
  "pg_getReport env w rid db =
     do {
       i \<leftarrow> stmt w 0 (pg_UUIDIn env rid);
       p \<leftarrow> find (\<lambda>p. pw_run_id p = i) (db_reports db);
       let rep = reportColumns env p (zeroReport\<lparr>rp_RunID := rid\<rparr>);
       Some (case stmt w 1 (selectRunVersion env rid db) of
               None \<Rightarrow> rep
             | Some (snapshot, versionID, versionNumber) \<Rightarrow>
                 rep\<lparr>rp_Scenario := (case pg_DecName env snapshot of None \<Rightarrow> '''' | Some n \<Rightarrow> n),
                     rp_ScenarioVersionID := versionID, rp_ScenarioVersionNumber := versionNumber\<rparr>)
     }"

definition pgGetRun :: "PgEnv \<Rightarrow> PgIO \<Rightarrow> string \<Rightarrow> DB \<Rightarrow> RunRecord option" where
  "pgGetRun env w rid db =
     (case pg_getRun env w rid db of
        None \<Rightarrow> None
      | Some rec \<Rightarrow>
          (case pg_getReport env (later 1 w) rid db of
             None \<Rightarrow> Some rec
           | Some rep \<Rightarrow> Some (rec\<lparr>run_Report := Some rep\<rparr>)))"

definition listedRun :: "PgEnv \<Rightarrow> DB \<Rightarrow> RunRow \<Rightarrow> RunRecord option" where
  "listedRun env db r =
     map_option (\<lambda>rec.
       case find (\<lambda>p. pw_run_id p = rw_id r) (db_reports db) of
         None \<Rightarrow> rec
       | Some p \<Rightarrow>
           rec\<lparr>run_Report := Some (reportColumns env p
             (zeroReport\<lparr>rp_RunID := run_ID rec, rp_ScenarioVersionID := run_ScenarioVersionID rec,
                rp_ScenarioVersionNumber := run_ScenarioVersionNumber rec,
                rp_Scenario := (case pg_DecName env (rw_scenario_snapshot r) of None \<Rightarrow> '''' | Some n \<Rightarrow> n)\<rparr>))\<rparr>)
     (runRecord env db r)"

definition pgListRuns :: "PgEnv \<Rightarrow> PgIO \<Rightarrow> DB \<Rightarrow> RunRecord list" where
  "pgListRuns env w db =
     (if pi_Fail w 0 then []
      else allOf (listedRun env db)
        (sort_key (\<lambda>r. - rw_created_at r) (filter (\<lambda>r. rw_project_id r = pg_ProjectID env) (db_runs db))))"

section \<open>Finishing with a report\<close>

definition upsertReport :: "ReportRow \<Rightarrow> DB \<Rightarrow> DB option" where
  "upsertReport p db =
     (if list_ex (\<lambda>r. rw_id r = pw_run_id p) (db_runs db) \<and> pw_status p \<in> {Passed, Failed, Errored, Canceled}
      then Some (if list_ex (\<lambda>x. pw_run_id x = pw_run_id p) (db_reports db)
                 then db\<lparr>db_reports := map (\<lambda>x. if pw_run_id x = pw_run_id p then p else x) (db_reports db)\<rparr>
                 else db\<lparr>db_reports := db_reports db @ [p]\<rparr>)
      else None)"

text \<open>
  The statements are the select of \<^verbatim>\<open>getRun\<close> (the versions it copies into the report are not stored), begin, update, upsert and
  commit. The result is None where the method returns false.
\<close>

definition finishRunWithReport :: "PgEnv \<Rightarrow> PgIO \<Rightarrow> string \<Rightarrow> string \<Rightarrow> Report \<Rightarrow> string \<Rightarrow> DB \<Rightarrow> DB option" where
  "finishRunWithReport env w rid status rep errorMessage db =
     do {
       _ \<leftarrow> stmt w 1 (Some ());
       st \<leftarrow> statusIn status;
       (rows, db1) \<leftarrow> stmt w 2 (updateActive env rid
         (finishRow st (if errorMessage = '''' then None else Some errorMessage) (pi_Now w 0)) db);
       _ \<leftarrow> (if rows = 0 then None else Some ());
       i \<leftarrow> pg_UUIDIn env rid;
       db2 \<leftarrow> stmt w 3 (upsertReport
         \<lparr>pw_run_id = i, pw_status = st, pw_summary = pg_EncSummary env (rp_Summary rep),
          pw_thresholds = pg_EncChecks env (rp_Thresholds rep), pw_invariants = pg_EncChecks env (rp_Invariants rep),
          pw_failures = pg_EncFailures env (rp_Failures rep)\<rparr> db1);
       _ \<leftarrow> stmt w 4 (Some ());
       Some db2
     }"

definition pgCompleteRun :: "PgEnv \<Rightarrow> PgIO \<Rightarrow> string \<Rightarrow> Report \<Rightarrow> DB \<Rightarrow> DB" where
  "pgCompleteRun env w rid rep db =
     (let status = (if rp_Status rep = StatusFailed then RunFailed else RunPassed)
      in case finishRunWithReport env w rid status rep '''' db of
           None \<Rightarrow> db
         | Some db' \<Rightarrow>
             (let (eventType, level, message) =
                    (if status = RunFailed then (TypeRunFailed, LevelError, ''run failed'')
                     else (TypeRunCompleted, LevelInfo, ''run completed''))
              in snd (pgAppendRunEvent env (later 5 w) rid
                   (newEvent level eventType message
                      (Some [(''status'', MString status), (''total_requests'', MInt (sm_TotalRequests (rp_Summary rep))),
                             (''failed_requests'', MInt (sm_FailedRequests (rp_Summary rep))),
                             (''failures'', MStrings (rp_Failures rep))])) db')))"

definition pgCancelRun :: "PgEnv \<Rightarrow> PgIO \<Rightarrow> string \<Rightarrow> Report \<Rightarrow> DB \<Rightarrow> DB" where
  "pgCancelRun env w rid rep0 db =
     (let rep = rep0\<lparr>rp_Status := StatusCanceled\<rparr>
      in case finishRunWithReport env w rid RunCanceled rep ''run canceled'' db of
           None \<Rightarrow> db
         | Some db' \<Rightarrow>
             snd (pgAppendRunEvent env (later 5 w) rid
               (newEvent LevelWarn TypeRunCanceled ''run canceled'' (Some [(''failures'', MStrings (rp_Failures rep))])) db'))"

section \<open>Creating runs and requesting cancellation\<close>

definition currentScenarioVersion :: "PgEnv \<Rightarrow> PgIO \<Rightarrow> string \<Rightarrow> DB \<Rightarrow> (string \<times> int) option" where
  "currentScenarioVersion env w scenarioID db =
     do {
       i \<leftarrow> stmt w 0 (pg_UUIDIn env scenarioID);
       s \<leftarrow> find (\<lambda>x. sw_id x = i) (db_scenarios db);
       v \<leftarrow> currentVersionRow s db;
       Some (vw_id v, vw_version_number v)
     }"

text \<open>The parameters of the insert: the scenario, its version (None is NULL) and the number of the version.\<close>

definition runParams :: "PgEnv \<Rightarrow> PgIO \<Rightarrow> string \<Rightarrow> ScenarioVersionRecord list \<Rightarrow> DB \<Rightarrow> string option \<times> string option \<times> int" where
  "runParams env w scenarioID versionRef db =
     (case versionRef of
        v # _ \<Rightarrow>
          (let resolved = (if scenarioID = '''' then sv_ScenarioID v else scenarioID)
           in (if resolved \<noteq> '''' then Some resolved else None, Some (sv_ID v), sv_VersionNumber v))
      | [] \<Rightarrow>
          (if scenarioID \<noteq> ''''
           then (case currentScenarioVersion env w scenarioID db of
                   Some (versionID, n) \<Rightarrow> (Some scenarioID, Some versionID, n)
                 | None \<Rightarrow> (None, None, 0))
           else (None, None, 0)))"

definition uuidParam :: "PgEnv \<Rightarrow> string option \<Rightarrow> string option option" where
  "uuidParam env p = (case p of None \<Rightarrow> Some None | Some s \<Rightarrow> map_option Some (pg_UUIDIn env s))"

definition refersTo :: "string option \<Rightarrow> string list \<Rightarrow> bool" where
  "refersTo x ids = (case x of None \<Rightarrow> True | Some i \<Rightarrow> i \<in> set ids)"

definition insertRun :: "RunRow \<Rightarrow> DB \<Rightarrow> DB option" where
  "insertRun r db =
     (if projectExists (rw_project_id r) db \<and> refersTo (rw_target_id r) (map tw_id (db_targets db)) \<and>
         refersTo (rw_scenario_id r) (map sw_id (db_scenarios db)) \<and>
         refersTo (rw_scenario_version_id r) (map vw_id (db_versions db)) \<and> \<not> list_ex (\<lambda>x. rw_id x = rw_id r) (db_runs db)
      then Some (db\<lparr>db_runs := db_runs db @ [r]\<rparr>) else None)"

definition insertQueued :: "PgEnv \<Rightarrow> PgIO \<Rightarrow> string \<Rightarrow> string option \<Rightarrow> string option \<Rightarrow> string \<Rightarrow> DB \<Rightarrow> (RunRow \<times> DB) option" where
  "insertQueued env w targetID scenarioParam versionParam raw db =
     do {
       t \<leftarrow> uuidParam env (if targetID \<noteq> '''' then Some targetID else None);
       s \<leftarrow> uuidParam env scenarioParam;
       v \<leftarrow> uuidParam env versionParam;
       let row = \<lparr>rw_id = pi_UUID w 1, rw_project_id = pg_ProjectID env, rw_target_id = t, rw_scenario_id = s,
                  rw_scenario_version_id = v, rw_status = Queued, rw_scenario_snapshot = raw, rw_error = None,
                  rw_started_at = None, rw_finished_at = None, rw_created_at = pi_Now w 1\<rparr>;
       db' \<leftarrow> insertRun row db;
       Some (row, db')
     }"

definition pgCreateRun :: "PgEnv \<Rightarrow> PgIO \<Rightarrow> string \<Rightarrow> string \<Rightarrow> Scenario \<Rightarrow> ScenarioVersionRecord list \<Rightarrow> DB \<Rightarrow> RunRecord \<times> DB" where
  "pgCreateRun env w scenarioID targetID sc versionRef db =
     (case marshalScenario env sc of
        None \<Rightarrow> (zeroRun, db)
      | Some (raw, _) \<Rightarrow>
          (let (scenarioParam, versionParam, versionNumber) = runParams env w scenarioID versionRef db
           in case stmt w 1 (insertQueued env w targetID scenarioParam versionParam raw db) of
                None \<Rightarrow> (zeroRun, db)
              | Some (row, db') \<Rightarrow>
                  (let rec = zeroRun\<lparr>run_ID := rw_id row, run_TargetID := orEmpty (rw_target_id row),
                               run_ScenarioID := orEmpty (rw_scenario_id row),
                               run_ScenarioVersionID := orEmpty (rw_scenario_version_id row),
                               run_Status := statusName (rw_status row), run_CreatedAt := rw_created_at row,
                               run_Scenario := sc, run_ScenarioVersionNumber := versionNumber\<rparr>
                   in (rec, snd (pgAppendRunEvent env (later 2 w) (run_ID rec)
                        (newEvent LevelInfo TypeRunQueued ''run queued''
                           (Some [(''scenario_id'', MString (run_ScenarioID rec)),
                                  (''scenario_version_id'', MString (run_ScenarioVersionID rec)),
                                  (''scenario_version_number'', MInt (run_ScenarioVersionNumber rec)),
                                  (''scenario'', MString (sc_Name sc)), (''target_id'', MString (run_TargetID rec))])) db')))))"

text \<open>The statements are begin, select for update, exists, lock, select, insert and commit.\<close>

definition pgRequestRunCancel :: "PgEnv \<Rightarrow> PgIO \<Rightarrow> string \<Rightarrow> DB \<Rightarrow> bool \<times> DB" where
  "pgRequestRunCancel env w rid db =
     (case do {
         _ \<leftarrow> stmt w 0 (Some ());
         i \<leftarrow> stmt w 1 (pg_UUIDIn env rid);
         r \<leftarrow> find (\<lambda>r. rw_id r = i) (db_runs db);
         _ \<leftarrow> (if isCancelableRunStatus (statusName (rw_status r)) then Some () else None);
         alreadyRequested \<leftarrow> stmt w 2 (Some (cancelRequested i db));
         if alreadyRequested then (do { _ \<leftarrow> stmt w 6 (Some ()); Some db })
         else do {
           _ \<leftarrow> stmt w 3 (Some ());
           sequence \<leftarrow> stmt w 4 (Some (nextSequence i db));
           let raw = pg_EncMeta env [(''status'', MString (statusName (rw_status r)))];
           db' \<leftarrow> stmt w 5 (insertEvent \<lparr>ew_id = pi_UUID w 0, ew_run_id = i, ew_sequence = sequence, ew_level = LevelWarn,
                     ew_type = TypeCancelRequested, ew_message = ''run cancellation requested'', ew_data = raw,
                     ew_created_at = timestamptz (pi_Now w 0)\<rparr> db);
           _ \<leftarrow> stmt w 6 (Some ());
           Some db'
         }
       } of
        None \<Rightarrow> (False, db)
      | Some db' \<Rightarrow> (True, db'))"

section \<open>Opening the store\<close>

definition defaultProjectSlug :: string where "defaultProjectSlug = ''default''"

text \<open>\<^verbatim>\<open>INSERT ... ON CONFLICT (slug) DO UPDATE SET name = EXCLUDED.name RETURNING id::text\<close>.\<close>

definition ensureDefaultProject :: "PgIO \<Rightarrow> DB \<Rightarrow> (string \<times> DB) option" where
  "ensureDefaultProject w db =
     stmt w 1 (case find (\<lambda>p. pj_slug p = defaultProjectSlug) (db_projects db) of
                 Some p \<Rightarrow>
                   Some (pj_id p, db\<lparr>db_projects := map (\<lambda>x. if pj_slug x = defaultProjectSlug
                     then x\<lparr>pj_name := ''Default Project''\<rparr> else x) (db_projects db)\<rparr>)
               | None \<Rightarrow>
                   (if list_ex (\<lambda>p. pj_id p = pi_UUID w 0) (db_projects db) then None
                    else Some (pi_UUID w 0, db\<lparr>db_projects := db_projects db @
                      [\<lparr>pj_id = pi_UUID w 0, pj_name = ''Default Project'', pj_slug = defaultProjectSlug,
                        pj_description = ''Default Wreckr project''\<rparr>]\<rparr>)))"

text \<open>The result is the project of the store; None is the error of opening, of the ping or of the statement.\<close>

definition NewPostgres :: "PgIO \<Rightarrow> DB \<Rightarrow> string option \<times> DB" where
  "NewPostgres w db =
     (case do { _ \<leftarrow> stmt w 0 (Some ()); ensureDefaultProject w db } of
        None \<Rightarrow> (None, db)
      | Some (projectID, db') \<Rightarrow> (Some projectID, db'))"

text \<open>
  The store as a value of the interface, in a world where no statement fails: the clock of the database is not behind a
  start time it has recorded, and \<open>fresh\<close> gives the random identifiers.
\<close>

definition quietIO :: "(DB \<Rightarrow> nat \<Rightarrow> string) \<Rightarrow> clock \<Rightarrow> DB \<Rightarrow> PgIO" where
  "quietIO fresh clock db =
     \<lparr>pi_Fail = (\<lambda>_. False),
      pi_Now = (\<lambda>i. fold (\<lambda>r t. case rw_started_at r of None \<Rightarrow> t | Some s \<Rightarrow> max s t) (db_runs db) (clock i)),
      pi_UUID = fresh db\<rparr>"

definition readIO :: PgIO where
  "readIO = \<lparr>pi_Fail = (\<lambda>_. False), pi_Now = (\<lambda>_. 0), pi_UUID = (\<lambda>_. '''')\<rparr>"

definition postgresOps :: "PgEnv \<Rightarrow> (DB \<Rightarrow> nat \<Rightarrow> string) \<Rightarrow> DB StoreOps" where
  "postgresOps env fresh =
     \<lparr>so_CreateTarget = (\<lambda>clock target db. pgCreateTarget env (quietIO fresh clock db) target db),
      so_UpdateTarget = (\<lambda>clock tid target db. pgUpdateTarget env (quietIO fresh clock db) tid target db),
      so_DeleteTarget = (\<lambda>tid db. pgDeleteTarget env readIO tid db),
      so_GetTarget = pgGetTarget env readIO, so_ListTargets = pgListTargets env readIO,
      so_CreateScenario = (\<lambda>clock sc db. pgCreateScenario env (quietIO fresh clock db) sc db),
      so_UpdateScenario = (\<lambda>clock sid sc db. pgUpdateScenario env (quietIO fresh clock db) sid sc db),
      so_GetScenario = pgGetScenario env readIO, so_ListScenarios = pgListScenarios env readIO,
      so_ListScenarioVersions = pgListScenarioVersions env readIO,
      so_GetScenarioVersion = pgGetScenarioVersion env readIO,
      so_CreateRun = (\<lambda>clock sid tid sc ref db. pgCreateRun env (quietIO fresh clock db) sid tid sc ref db),
      so_MarkRunStarted = (\<lambda>clock rid db. pgMarkRunStarted env (quietIO fresh clock db) rid db),
      so_CompleteRun = (\<lambda>clock rid rep db. pgCompleteRun env (quietIO fresh clock db) rid rep db),
      so_CancelRun = (\<lambda>clock rid rep db. pgCancelRun env (quietIO fresh clock db) rid rep db),
      so_ErrorRun = (\<lambda>clock rid err db. pgErrorRun env (quietIO fresh clock db) rid err db),
      so_GetRun = pgGetRun env readIO, so_ListRuns = pgListRuns env readIO,
      so_RequestRunCancel = (\<lambda>clock rid db. pgRequestRunCancel env (quietIO fresh clock db) rid db),
      so_IsRunCancelRequested = pgIsRunCancelRequested env readIO,
      so_AppendRunEvent = (\<lambda>clock rid e db. pgAppendRunEvent env (quietIO fresh clock db) rid e db),
      so_ListRunEvents = pgListRunEvents env readIO\<rparr>"

end
