(* ===== verification/PostgresLaws.thy ===== *)
theory PostgresLaws
  imports PostgresRuns
begin

text \<open>
  What holds of the tables whatever transactions run in whatever order. A method commits at most two transactions, so
  an interleaving of methods, with statements that fail anywhere, is a sequence of transactions.
\<close>

section \<open>Transactions\<close>

text \<open>The transactions the code commits.\<close>

inductive txStep :: "PgEnv \<Rightarrow> DB \<Rightarrow> DB \<Rightarrow> bool" for env where
  project: "ensureDefaultProject w db = Some (p, db') \<Longrightarrow> txStep env db db'"
| newTarget: "insertTarget t db = Some (t', db') \<Longrightarrow> txStep env db db'"
| changeTarget: "updateTarget env now tid target raw db = Some (t, db') \<Longrightarrow> txStep env db db'"
| dropTarget: "deleteTargets env tid db = Some (n, db') \<Longrightarrow> txStep env db db'"
| newScenario: "insertScenario s db = Some db1 \<Longrightarrow> sw_current_version_id s = None \<Longrightarrow> insertVersion v db1 = Some db2 \<Longrightarrow>
    vw_scenario_id v = sw_id s \<Longrightarrow> vw_version_number v = 1 \<Longrightarrow> db' = setCurrentVersion (sw_id s) (vw_id v) db2 \<Longrightarrow> txStep env db db'"
| newVersion: "nextVersion env sid db = Some (i, n) \<Longrightarrow> n \<noteq> 1 \<Longrightarrow> insertVersion v db = Some db1 \<Longrightarrow> vw_scenario_id v = i \<Longrightarrow>
    vw_version_number v = n \<Longrightarrow> updateScenarioRow i sc (vw_id v) db1 = Some (t, db') \<Longrightarrow> txStep env db db'"
| newRun: "insertRun r db = Some db' \<Longrightarrow> rw_status r = Queued \<Longrightarrow> rw_started_at r = None \<Longrightarrow> rw_finished_at r = None \<Longrightarrow> txStep env db db'"
| start: "updateActive env rid (startRow now) db = Some (n, db') \<Longrightarrow> txStep env db db'"
| fail: "updateActive env rid (finishRow Errored err now) db = Some (n, db') \<Longrightarrow> txStep env db db'"
| finish: "updateActive env rid (finishRow st err now) db = Some (n, db1) \<Longrightarrow> n \<noteq> 0 \<Longrightarrow> pg_UUIDIn env rid = Some (pw_run_id p) \<Longrightarrow>
    pw_status p = st \<Longrightarrow> upsertReport p db1 = Some db' \<Longrightarrow> txStep env db db'"
| event: "insertEvent e db = Some db' \<Longrightarrow> ew_sequence e = nextSequence (ew_run_id e) db \<Longrightarrow> txStep env db db'"

abbreviation txSteps :: "PgEnv \<Rightarrow> DB \<Rightarrow> DB \<Rightarrow> bool" where
  "txSteps env \<equiv> (txStep env)\<^sup>*\<^sup>*"

lemma stmt_Some [simp]: "stmt w i x = Some y \<longleftrightarrow> \<not> pi_Fail w i \<and> x = Some y"
  by (simp add: stmt_def)

lemmas bind_splits = Option.bind_eq_Some_conv

text \<open>Every method, with statements that fail anywhere, commits transactions of these kinds only.\<close>

lemma tx_append: "txSteps env db (snd (pgAppendRunEvent env w rid e db))"
proof -
  have "txStep env db db'" if "insertNumbered env w' r e' raw db = Some (row, db')" for w' r e' raw row db'
    using that by (auto simp: insertNumbered_def bind_splits Let_def elim!: txStep.event)
  then show ?thesis
    by (auto simp: pgAppendRunEvent_def Let_def split: option.split)
qed

lemma tx_catalog:
  "txSteps env db (snd (pgCreateTarget env w target db))" "txSteps env db (snd (pgUpdateTarget env w tid target db))"
  "txSteps env db (snd (pgDeleteTarget env w tid db))" "txSteps env db (snd (NewPostgres w db))"
  by (auto simp: pgCreateTarget_def pgUpdateTarget_def pgDeleteTarget_def NewPostgres_def Let_def bind_splits split: option.split
      intro: txStep.newTarget txStep.changeTarget txStep.dropTarget txStep.project)

lemma tx_scenario:
  "txSteps env db (snd (pgCreateScenario env w sc db))" "txSteps env db (snd (pgUpdateScenario env w sid sc db))"
proof -
  show "txSteps env db (snd (pgCreateScenario env w sc db))"
    unfolding pgCreateScenario_def
    by (auto simp: bind_splits Let_def split: option.split intro!: r_into_rtranclp elim!: txStep.newScenario)
  show "txSteps env db (snd (pgUpdateScenario env w sid sc db))"
    unfolding pgUpdateScenario_def
    by (auto simp: bind_splits Let_def split: option.split if_splits intro!: r_into_rtranclp elim!: txStep.newVersion)
qed

lemma finish_tx:
  assumes "finishRunWithReport env w rid status rep msg db = Some db'"
  shows "txStep env db db'"
  using assms unfolding finishRunWithReport_def
  by (auto simp: bind_splits split: if_splits elim!: txStep.finish)

lemma tx_lifecycle:
  "txSteps env db (pgMarkRunStarted env w rid db)" "txSteps env db (pgErrorRun env w rid msg db)"
  "txSteps env db (pgCompleteRun env w rid rep db)" "txSteps env db (pgCancelRun env w rid rep db)"
proof -
  show "txSteps env db (pgMarkRunStarted env w rid db)" "txSteps env db (pgErrorRun env w rid msg db)"
    by (auto simp: pgMarkRunStarted_def pgErrorRun_def split: option.split
        intro: converse_rtranclp_into_rtranclp [OF txStep.start tx_append] converse_rtranclp_into_rtranclp [OF txStep.fail tx_append]
          txStep.start txStep.fail)
  show "txSteps env db (pgCompleteRun env w rid rep db)" "txSteps env db (pgCancelRun env w rid rep db)"
    by (auto simp: pgCompleteRun_def pgCancelRun_def Let_def split: option.split
        intro: converse_rtranclp_into_rtranclp [OF finish_tx tx_append])
qed

lemma tx_runs:
  "txSteps env db (snd (pgCreateRun env w sid tid sc ref db))" "txSteps env db (snd (pgRequestRunCancel env w rid db))"
proof -
  have "txStep env db db'" if "insertQueued env w tid s v raw db = Some (row, db')" for s v raw row db'
    using that by (auto simp: insertQueued_def bind_splits Let_def intro: txStep.newRun)
  then show "txSteps env db (snd (pgCreateRun env w sid tid sc ref db))"
    by (auto simp: pgCreateRun_def Let_def split: option.split prod.split intro: converse_rtranclp_into_rtranclp [OF _ tx_append])
  show "txSteps env db (snd (pgRequestRunCancel env w rid db))"
    unfolding pgRequestRunCancel_def
    by (auto simp: bind_splits Let_def split: option.split if_splits intro: r_into_rtranclp [of "txStep env", OF txStep.event])
qed

section \<open>What a transaction does to each table\<close>

lemmas tx_defs = ensureDefaultProject_def insertTarget_def updateTarget_def deleteTargets_def insertScenario_def
  setCurrentVersion_def updateScenarioRow_def insertVersion_def insertRun_def insertEvent_def upsertReport_def

text \<open>How a transaction may change a row of a run that is there.\<close>

definition keptRow :: "RunRow \<Rightarrow> RunRow \<Rightarrow> bool" where
  "keptRow r r' \<longleftrightarrow> rw_id r' = rw_id r \<and> rw_project_id r' = rw_project_id r \<and> rw_scenario_id r' = rw_scenario_id r \<and>
     rw_scenario_version_id r' = rw_scenario_version_id r \<and> rw_scenario_snapshot r' = rw_scenario_snapshot r \<and>
     rw_created_at r' = rw_created_at r \<and> (rw_target_id r' = rw_target_id r \<or> rw_target_id r' = None) \<and>
     (timesOrdered r \<longrightarrow> timesOrdered r') \<and> (activeRow r' \<longrightarrow> activeRow r \<and> rw_finished_at r' = rw_finished_at r) \<and>
     (\<not> activeRow r \<longrightarrow> r'\<lparr>rw_target_id := None\<rparr> = r\<lparr>rw_target_id := None\<rparr>)"

lemma keptRow_refl [simp]: "keptRow r r"
  by (simp add: keptRow_def)

lemma keptRow_dropTarget: "keptRow r (r\<lparr>rw_target_id := None\<rparr>)"
  by (simp add: keptRow_def timesOrdered_def activeRow_def)

definition finishedStatus :: "run_status_enum \<Rightarrow> bool" where
  "finishedStatus st \<longleftrightarrow> st \<in> {Passed, Failed, Errored, Canceled}"

lemma keptRow_active:
  "activeRow r \<Longrightarrow> timesOrdered r' \<Longrightarrow> r' = startRow now r \<or> (finishedStatus st \<and> r' = finishRow st err now r) \<Longrightarrow> keptRow r r'"
  by (auto simp: keptRow_def startRow_def finishRow_def activeRow_def finishedStatus_def)

lemma updateActive_rows:
  assumes "updateActive env rid f db = Some (n, db')" and "\<And>r. f r = startRow now r \<or> (finishedStatus st \<and> f r = finishRow st err now r)"
  shows "\<exists>i. pg_UUIDIn env rid = Some i \<and> n = length (filter (\<lambda>r. rw_id r = i \<and> activeRow r) (db_runs db)) \<and>
    db' = db\<lparr>db_runs := map (\<lambda>r. if rw_id r = i \<and> activeRow r then f r else r) (db_runs db)\<rparr> \<and>
    list_all (\<lambda>r. rw_id r = i \<and> activeRow r \<longrightarrow> keptRow r (f r)) (db_runs db)"
  using assms keptRow_active
  by (auto simp: updateActive_def updateRuns_def bind_splits Let_def list_all_iff split: if_splits) blast+

lemma upsertReport_frame:
  "upsertReport p db = Some db' \<Longrightarrow> db_runs db' = db_runs db \<and> db_events db' = db_events db \<and> db_versions db' = db_versions db \<and>
     db_scenarios db' = db_scenarios db \<and> db_targets db' = db_targets db"
  by (auto simp: upsertReport_def split: if_splits)

text \<open>The rows of the runs are kept in their order, and at most one new queued run follows them.\<close>

lemma tx_run_rows:
  assumes "txStep env db db'"
  shows "\<exists>kept new. db_runs db' = kept @ new \<and> list_all2 keptRow (db_runs db) kept \<and>
    (new = [] \<or> (\<exists>r. new = [r] \<and> insertRun r db = Some db' \<and> rw_status r = Queued \<and> rw_started_at r = None \<and> rw_finished_at r = None))"
proof -
  have same: "list_all2 keptRow xs xs" for xs
    by (simp add: list_all2_refl)
  have upd: "list_all2 keptRow (db_runs db) (db_runs d)" if "updateActive env rid f db = Some (n, d)"
      and "\<And>r. f r = startRow now r \<or> (finishedStatus st \<and> f r = finishRow st err now r)" for rid f n d now st err
    using updateActive_rows [OF that]
    by (auto simp: list_all2_conv_all_nth list_all_length)
  define changed where "changed \<longleftrightarrow> list_all2 keptRow (db_runs db) (db_runs db') \<or>
    (\<exists>r. db_runs db' = db_runs db @ [r] \<and> insertRun r db = Some db' \<and> rw_status r = Queued \<and> rw_started_at r = None \<and> rw_finished_at r = None)"
  have "db_runs db' = db_runs db \<or> changed"
    using assms
  proof (cases rule: txStep.cases)
    case (dropTarget tid n)
    then have "list_all2 keptRow (db_runs db) (db_runs db')"
      by (auto simp: deleteTargets_def bind_splits Let_def list_all2_map2 keptRow_dropTarget intro!: list_all2_refl)
    then show ?thesis by (simp add: changed_def)
  next
    case (newRun r)
    moreover have "db_runs db' = db_runs db @ [r]"
      using newRun(1) by (auto simp: insertRun_def split: if_splits)
    ultimately show ?thesis
      unfolding changed_def by blast
  next
    case (start rid now n)
    then show ?thesis using upd [OF start(1)] unfolding changed_def by blast
  next
    case (fail rid err now n)
    have "list_all2 keptRow (db_runs db) (db_runs db')"
      by (rule upd [OF fail(1), where st = Errored and err = err and now = now]) (simp add: finishedStatus_def)
    then show ?thesis by (simp add: changed_def)
  next
    case (finish rid st err now n db1 p)
    have "list_all2 keptRow (db_runs db) (db_runs db1)"
      by (rule upd [OF finish(1), where st = st and err = err and now = now])
        (use finish(4,5) in \<open>auto simp: finishedStatus_def upsertReport_def split: if_splits\<close>)
    then show ?thesis using upsertReport_frame [OF finish(5)] unfolding changed_def by simp
  qed (auto simp: tx_defs bind_splits Let_def split: if_splits option.splits)
  then show ?thesis
    unfolding changed_def using same by (metis append_Nil2)
qed

lemma tx_event_rows:
  assumes "txStep env db db'"
  shows "db_events db' = db_events db \<or>
    (\<exists>e. db_events db' = db_events db @ [e] \<and> ew_sequence e = nextSequence (ew_run_id e) db \<and> list_ex (\<lambda>r. rw_id r = ew_run_id e) (db_runs db))"
  using assms
proof (cases rule: txStep.cases)
  case (finish rid st err now n db1 p)
  then show ?thesis
    using upsertReport_frame [OF finish(5)] by (auto simp: updateActive_def updateRuns_def bind_splits Let_def split: if_splits)
qed (auto simp: tx_defs updateActive_def updateRuns_def bind_splits Let_def list_ex_iff split: if_splits option.splits)

lemma tx_version_rows:
  assumes "txStep env db db'"
  shows "db_versions db' = db_versions db \<or>
    (\<exists>v. db_versions db' = db_versions db @ [v] \<and> \<not> list_ex (\<lambda>x. vw_id x = vw_id v) (db_versions db) \<and>
      (vw_version_number v = 1 \<and> \<not> list_ex (\<lambda>x. sw_id x = vw_scenario_id v) (db_scenarios db) \<or>
       (\<exists>sid. nextVersion env sid db = Some (vw_scenario_id v, vw_version_number v) \<and> vw_version_number v \<noteq> 1)))"
  using assms
proof (cases rule: txStep.cases)
  case (finish rid st err now n db1 p)
  then show ?thesis
    using upsertReport_frame [OF finish(5)] by (auto simp: updateActive_def updateRuns_def bind_splits Let_def split: if_splits)
next
  case (newScenario s db1 v db2)
  then show ?thesis
    by (auto simp: insertScenario_def insertVersion_def setCurrentVersion_def list_ex_iff split: if_splits)
next
  case (newVersion sid i n v db1 sc t)
  then show ?thesis
    by (auto simp: insertVersion_def updateScenarioRow_def list_ex_iff split: if_splits option.splits)
qed (auto simp: tx_defs updateActive_def updateRuns_def bind_splits Let_def list_ex_iff split: if_splits option.splits)

section \<open>Finished runs\<close>

lemma find_kept:
  assumes "list_all2 keptRow rows kept" and "find (\<lambda>r. rw_id r = i) rows = Some r"
  shows "\<exists>r'. find (\<lambda>r. rw_id r = i) (kept @ new) = Some r' \<and> keptRow r r'"
  using assms
proof (induction rule: list_all2_induct)
  case (Cons x xs y ys)
  have "rw_id y = rw_id x"
    using Cons(1) by (simp add: keptRow_def)
  with Cons show ?case by (auto split: if_splits)
qed simp

lemma tx_find:
  assumes "txSteps env db db'" and "find (\<lambda>r. rw_id r = i) (db_runs db) = Some r"
  shows "\<exists>r'. find (\<lambda>r. rw_id r = i) (db_runs db') = Some r' \<and> rw_scenario_snapshot r' = rw_scenario_snapshot r \<and>
    (\<not> activeRow r \<longrightarrow> r'\<lparr>rw_target_id := None\<rparr> = r\<lparr>rw_target_id := None\<rparr>)"
  using assms
proof (induction rule: rtranclp_induct)
  case (step d d')
  then obtain r1 where r1: "find (\<lambda>r. rw_id r = i) (db_runs d) = Some r1" "rw_scenario_snapshot r1 = rw_scenario_snapshot r"
      "\<not> activeRow r \<longrightarrow> r1\<lparr>rw_target_id := None\<rparr> = r\<lparr>rw_target_id := None\<rparr>"
    by blast
  obtain kept new where "db_runs d' = kept @ new" "list_all2 keptRow (db_runs d) kept"
    using tx_run_rows [OF step(2)] by blast
  then obtain r2 where r2: "find (\<lambda>r. rw_id r = i) (db_runs d') = Some r2" "keptRow r1 r2"
    using find_kept r1(1) by metis
  have "activeRow r1 = activeRow r" if "\<not> activeRow r"
    using that r1(3) by (cases r; cases r1) (simp add: activeRow_def)
  with r1 r2 show ?case
    by (auto simp: keptRow_def)
qed blast

text \<open>
  C22: in the database a finished run is final: whatever transactions the store commits later, by any number of processes
  and with statements that fail anywhere, its row keeps every column but the reference to its target, which deleting the
  target clears.
\<close>

theorem pg_finished_run_is_final:
  assumes "txSteps env db db'" and "find (\<lambda>r. rw_id r = i) (db_runs db) = Some r" and "isTerminalRunStatus (statusName (rw_status r))"
  shows "\<exists>r'. find (\<lambda>r. rw_id r = i) (db_runs db') = Some r' \<and> r'\<lparr>rw_target_id := None\<rparr> = r\<lparr>rw_target_id := None\<rparr>"
proof -
  have "\<not> activeRow r"
    using assms(3) by (auto simp: activeRow_def statusName_def)
  then show ?thesis
    using tx_find [OF assms(1,2)] by blast
qed

section \<open>Numbers of events and versions\<close>

text \<open>The databases the store can reach from empty tables.\<close>

abbreviation pgReachable :: "PgEnv \<Rightarrow> DB \<Rightarrow> bool" where
  "pgReachable env \<equiv> txSteps env emptyDB"

text \<open>The numbers 1, 2, and so on.\<close>

definition countsUp :: "int list \<Rightarrow> bool" where
  "countsUp ns \<longleftrightarrow> ns = map (\<lambda>i. int i + 1) [0..<length ns]"

lemma countsUp_max: "countsUp ns \<Longrightarrow> fold max ns 0 = int (length ns)"
proof -
  have "fold max (map (\<lambda>i. int i + 1) [0..<n]) 0 = int n" for n
    by (induction n) auto
  then show "countsUp ns \<Longrightarrow> fold max ns 0 = int (length ns)"
    by (metis countsUp_def)
qed

lemma countsUp_snoc: "countsUp ns \<Longrightarrow> countsUp (ns @ [fold max ns 0 + 1])"
  by (simp add: countsUp_max) (simp add: countsUp_def)

lemma countsUp_sorted: "countsUp ns \<Longrightarrow> sorted ns"
proof -
  have "sorted (map (\<lambda>i. int i + 1) [0..<n])" for n
    by (induction n) (auto simp: sorted_append)
  then show "countsUp ns \<Longrightarrow> sorted ns"
    by (metis countsUp_def)
qed

definition eventNumbers :: "string \<Rightarrow> DB \<Rightarrow> int list" where
  "eventNumbers i db = map ew_sequence (filter (\<lambda>e. ew_run_id e = i) (db_events db))"

definition versionNumbers :: "string \<Rightarrow> DB \<Rightarrow> int list" where
  "versionNumbers i db = map vw_version_number (filter (\<lambda>v. vw_scenario_id v = i) (db_versions db))"

lemma tx_eventNumbers:
  assumes "txStep env db db'" and "countsUp (eventNumbers i db)"
  shows "countsUp (eventNumbers i db') \<and> (\<exists>ns. eventNumbers i db' = eventNumbers i db @ ns)"
proof -
  consider "db_events db' = db_events db" | e where "db_events db' = db_events db @ [e]" "ew_sequence e = nextSequence (ew_run_id e) db"
    using tx_event_rows [OF assms(1)] by blast
  then show ?thesis
  proof cases
    case 2
    then show ?thesis
      using assms(2) countsUp_snoc [OF assms(2)] by (auto simp: eventNumbers_def nextSequence_def)
  qed (use assms(2) in \<open>simp add: eventNumbers_def\<close>)
qed

lemma reachable_eventNumbers: "pgReachable env db \<Longrightarrow> countsUp (eventNumbers i db)"
proof (induction rule: rtranclp_induct)
  case base
  then show ?case by (simp add: eventNumbers_def emptyDB_def countsUp_def)
next
  case (step d d')
  then show ?case using tx_eventNumbers by blast
qed

lemma countsUp_distinct: "countsUp ns \<Longrightarrow> distinct ns"
  unfolding countsUp_def by (metis (no_types, lifting) add_right_cancel distinct_map distinct_upt inj_onI of_nat_eq_iff)

lemma sort_events:
  assumes "countsUp (map ew_sequence xs)"
  shows "sort_key ew_sequence (sort_key ew_created_at xs) = xs"
proof (rule sort_key_inj_key_eq)
  show "inj_on ew_sequence (set (sort_key ew_created_at xs))"
    using countsUp_distinct [OF assms] by (simp add: distinct_map)
qed (use countsUp_sorted [OF assms] in simp_all)

text \<open>
  C24: the events of a run in the database are numbered 1, 2, 3 and so on in the order in which they were committed, whatever
  transactions run and fail, and the listing of the store gives all of them in that order.
\<close>

theorem pg_events_numbered:
  assumes "pgReachable env db" and "\<not> pi_Fail w 0" and "pg_UUIDIn env rid = Some i"
  shows "pgListRunEvents env w rid db = map (eventRecord env) (filter (\<lambda>e. ew_run_id e = i) (db_events db)) \<and>
    countsUp (map ev_Sequence (pgListRunEvents env w rid db))"
proof -
  have "countsUp (eventNumbers i db)"
    by (rule reachable_eventNumbers [OF assms(1)])
  moreover from this have "pgListRunEvents env w rid db = map (eventRecord env) (filter (\<lambda>e. ew_run_id e = i) (db_events db))"
    using assms(2,3) by (simp add: pgListRunEvents_def stmt_def eventNumbers_def sort_events)
  ultimately show ?thesis
    by (simp add: eventNumbers_def eventRecord_def o_def)
qed

section \<open>Integrity\<close>

text \<open>
  The constraints of the schema and what the code adds to them: identifiers are unique, references point to rows, the
  times of a run are in order, the versions of a scenario are numbered without gap, and the current version
  of a scenario is its last.
\<close>

definition runKeys :: "DB \<Rightarrow> bool" where
  "runKeys db \<longleftrightarrow> distinct (map rw_id (db_runs db)) \<and> list_all timesOrdered (db_runs db) \<and>
     list_all (\<lambda>r. activeRow r \<longrightarrow> rw_finished_at r = None) (db_runs db)"

definition runRefs :: "DB \<Rightarrow> bool" where
  "runRefs db \<longleftrightarrow> list_all (\<lambda>r. refersTo (rw_scenario_version_id r) (map vw_id (db_versions db))) (db_runs db)"

definition versionKeys :: "DB \<Rightarrow> bool" where
  "versionKeys db \<longleftrightarrow> distinct (map vw_id (db_versions db)) \<and>
     list_all (\<lambda>v. list_ex (\<lambda>s. sw_id s = vw_scenario_id v) (db_scenarios db)) (db_versions db)"

lemma kept_ids: "list_all2 keptRow rows kept \<Longrightarrow> map rw_id kept = map rw_id rows"
  by (induction rule: list_all2_induct) (simp_all add: keptRow_def)

lemma kept_all:
  assumes "list_all2 keptRow rows kept" and "\<And>r r'. keptRow r r' \<Longrightarrow> P r \<Longrightarrow> P r'" and "list_all P rows"
  shows "list_all P kept"
  using assms(1,3) by (induction rule: list_all2_induct) (auto intro: assms(2))

lemma tx_runKeys: "txStep env db db' \<Longrightarrow> runKeys db \<Longrightarrow> runKeys db'"
proof -
  assume step: "txStep env db db'" and ok: "runKeys db"
  obtain kept new where k: "db_runs db' = kept @ new" "list_all2 keptRow (db_runs db) kept"
    and new: "new = [] \<or> (\<exists>r. new = [r] \<and> insertRun r db = Some db' \<and> rw_status r = Queued \<and> rw_started_at r = None \<and> rw_finished_at r = None)"
    using tx_run_rows [OF step] by blast
  have "list_all timesOrdered kept"
    using kept_all [OF k(2), of timesOrdered] ok by (simp add: keptRow_def runKeys_def)
  moreover have "list_all (\<lambda>r. activeRow r \<longrightarrow> rw_finished_at r = None) kept"
    using kept_all [OF k(2), of "\<lambda>r. activeRow r \<longrightarrow> rw_finished_at r = None"] ok by (simp add: keptRow_def runKeys_def)
  ultimately show "runKeys db'"
    using new ok kept_ids [OF k(2)] unfolding runKeys_def k(1)
    by (auto simp: insertRun_def list_ex_iff timesOrdered_def split: if_splits)
qed

lemma tx_runRefs: "txStep env db db' \<Longrightarrow> runRefs db \<Longrightarrow> runRefs db'"
proof -
  assume step: "txStep env db db'" and ok: "runRefs db"
  obtain kept new where k: "db_runs db' = kept @ new" "list_all2 keptRow (db_runs db) kept"
    and new: "new = [] \<or> (\<exists>r. new = [r] \<and> insertRun r db = Some db' \<and> rw_status r = Queued \<and> rw_started_at r = None \<and> rw_finished_at r = None)"
    using tx_run_rows [OF step] by blast
  have more: "set (db_versions db) \<subseteq> set (db_versions db')"
    using tx_version_rows [OF step] by auto
  have "list_all (\<lambda>r. refersTo (rw_scenario_version_id r) (map vw_id (db_versions db))) kept"
    using kept_all [OF k(2), of "\<lambda>r. refersTo (rw_scenario_version_id r) (map vw_id (db_versions db))"] ok by (simp add: keptRow_def runRefs_def)
  moreover have "refersTo x (map vw_id (db_versions db)) \<Longrightarrow> refersTo x (map vw_id (db_versions db'))" for x
    using more by (auto simp: refersTo_def split: option.splits)
  ultimately show "runRefs db'"
    using new unfolding runRefs_def k(1) by (auto simp: insertRun_def list_all_iff split: if_splits)
qed

lemma tx_scenario_ids:
  assumes "txStep env db db'"
  shows "\<exists>new. map sw_id (db_scenarios db') = map sw_id (db_scenarios db) @ new"
  using assms
proof (cases rule: txStep.cases)
  case (finish rid st err now n db1 p)
  then show ?thesis
    using upsertReport_frame [OF finish(5)] by (auto simp: updateActive_def updateRuns_def bind_splits Let_def split: if_splits)
next
  case (newScenario s db1 v db2)
  then show ?thesis
    by (auto simp: insertScenario_def insertVersion_def setCurrentVersion_def o_def if_distrib cong: if_cong split: if_splits)
next
  case (newVersion sid i n v db1 sc t)
  then show ?thesis
    by (auto simp: insertVersion_def updateScenarioRow_def o_def if_distrib cong: if_cong split: if_splits option.splits)
qed (auto simp: tx_defs updateActive_def updateRuns_def bind_splits Let_def split: if_splits option.splits)

lemma scenario_member: "list_ex (\<lambda>s. sw_id s = i) (db_scenarios db) \<longleftrightarrow> i \<in> set (map sw_id (db_scenarios db))"
  by (auto simp: list_ex_iff)

lemma tx_versionKeys: "txStep env db db' \<Longrightarrow> versionKeys db \<Longrightarrow> versionKeys db'"
proof -
  assume step: "txStep env db db'" and ok: "versionKeys db"
  obtain new where ids: "map sw_id (db_scenarios db') = map sw_id (db_scenarios db) @ new"
    using tx_scenario_ids [OF step] by blast
  have old: "list_all (\<lambda>v. list_ex (\<lambda>s. sw_id s = vw_scenario_id v) (db_scenarios db')) (db_versions db)"
    using ok unfolding versionKeys_def scenario_member ids by (auto simp: list_all_iff)
  consider "db_versions db' = db_versions db"
    | v where "db_versions db' = db_versions db @ [v]" "\<not> list_ex (\<lambda>x. vw_id x = vw_id v) (db_versions db)"
      "list_ex (\<lambda>s. sw_id s = vw_scenario_id v) (db_scenarios db')"
    using step
  proof (cases rule: txStep.cases)
    case (newScenario s db1 v db2)
    then show ?thesis
      using that(2) [of v] by (auto simp: insertScenario_def insertVersion_def setCurrentVersion_def list_ex_iff split: if_splits)
  next
    case (newVersion sid i n v db1 sc t)
    then have "list_ex (\<lambda>s. sw_id s = vw_scenario_id v) (db_scenarios db)"
      by (simp add: insertVersion_def split: if_splits)
    then have "list_ex (\<lambda>s. sw_id s = vw_scenario_id v) (db_scenarios db')"
      unfolding scenario_member ids by simp
    then show ?thesis
      using newVersion that(2) [of v] by (auto simp: insertVersion_def updateScenarioRow_def list_ex_iff split: if_splits option.splits)
  next
    case (finish rid st err now n db1 p)
    then show ?thesis
      using that(1) upsertReport_frame [OF finish(5)] by (auto simp: updateActive_def updateRuns_def bind_splits Let_def split: if_splits)
  qed (use that(1) in \<open>auto simp: tx_defs updateActive_def updateRuns_def bind_splits Let_def split: if_splits option.splits\<close>)
  then show "versionKeys db'"
  proof cases
    case 1
    then show ?thesis using ok old by (simp add: versionKeys_def)
  next
    case 2
    then show ?thesis using ok old by (auto simp: versionKeys_def list_ex_iff)
  qed
qed

lemma tx_versionNumbers:
  assumes "txStep env db db'" and "versionKeys db" and "countsUp (versionNumbers i db)"
  shows "countsUp (versionNumbers i db')"
proof -
  consider "db_versions db' = db_versions db"
    | v where "db_versions db' = db_versions db @ [v]" "vw_version_number v = 1" "\<not> list_ex (\<lambda>x. sw_id x = vw_scenario_id v) (db_scenarios db)"
    | v sid where "db_versions db' = db_versions db @ [v]" "nextVersion env sid db = Some (vw_scenario_id v, vw_version_number v)"
    using tx_version_rows [OF assms(1)] by blast
  then show ?thesis
  proof cases
    case 2
    then have "filter (\<lambda>x. vw_scenario_id x = vw_scenario_id v) (db_versions db) = []"
      using assms(2) by (auto simp: versionKeys_def filter_empty_conv list_all_iff)
    with 2 show ?thesis
      using assms(3) by (auto simp: versionNumbers_def countsUp_def)
  next
    case 3
    then show ?thesis
      using assms(3) countsUp_snoc [OF assms(3)] by (auto simp: versionNumbers_def nextVersion_def)
  qed (use assms(3) in \<open>simp add: versionNumbers_def\<close>)
qed

definition lastIsCurrent :: "DB \<Rightarrow> ScenarioRow \<Rightarrow> bool" where
  "lastIsCurrent db s \<longleftrightarrow>
     list_ex (\<lambda>v. sw_current_version_id s = Some (vw_id v) \<and> vw_scenario_id v = sw_id s \<and>
       vw_version_number v = int (length (versionNumbers (sw_id s) db))) (db_versions db)"

definition currentVersions :: "DB \<Rightarrow> bool" where
  "currentVersions db \<longleftrightarrow> list_all (lastIsCurrent db) (db_scenarios db)"

lemma lastIsCurrent_append:
  assumes "lastIsCurrent db s" and "db_versions db' = db_versions db @ [v]" and "vw_scenario_id v \<noteq> sw_id s"
  shows "lastIsCurrent db' s"
  using assms by (auto simp: lastIsCurrent_def versionNumbers_def)

lemma tx_currentVersions:
  assumes "txStep env db db'" and "versionKeys db" and "\<And>i. countsUp (versionNumbers i db)" and "currentVersions db"
  shows "currentVersions db'"
proof -
  define same where "same \<longleftrightarrow> db_scenarios db' = db_scenarios db \<and> db_versions db' = db_versions db"
  have "same \<or> currentVersions db'"
    using assms(1)
  proof (cases rule: txStep.cases)
    case (newScenario s db1 v db2)
    let ?s = "s\<lparr>sw_current_version_id := Some (vw_id v)\<rparr>"
    have other: "x \<in> set (db_scenarios db) \<Longrightarrow> sw_id x \<noteq> sw_id s" for x
      using newScenario(1) by (auto simp: insertScenario_def list_ex_iff split: if_splits)
    then have rows: "db_scenarios db' = db_scenarios db @ [?s]" and v: "db_versions db' = db_versions db @ [v]"
      using newScenario by (auto simp: insertScenario_def insertVersion_def setCurrentVersion_def split: if_splits intro!: map_idI)
    have "filter (\<lambda>x. vw_scenario_id x = sw_id s) (db_versions db) = []"
      using other assms(2) by (fastforce simp: versionKeys_def filter_empty_conv list_all_iff list_ex_iff)
    then have "lastIsCurrent db' ?s"
      using newScenario(4,5) by (simp add: lastIsCurrent_def v versionNumbers_def)
    moreover have "lastIsCurrent db' x" if "x \<in> set (db_scenarios db)" for x
      using that other [OF that] assms(4) newScenario(4) lastIsCurrent_append [OF _ v] by (simp add: currentVersions_def list_all_iff)
    ultimately show ?thesis
      by (auto simp: currentVersions_def rows list_all_iff)
  next
    case (newVersion sid i n v db1 sc t)
    let ?f = "\<lambda>x. if sw_id x = i then x\<lparr>sw_name := sc_Name sc, sw_description := sc_Description sc, sw_current_version_id := Some (vw_id v)\<rparr> else x"
    have rows: "db_scenarios db' = map ?f (db_scenarios db)" and v: "db_versions db' = db_versions db @ [v]"
      using newVersion by (auto simp: insertVersion_def updateScenarioRow_def split: if_splits option.splits)
    have n: "n = int (length (versionNumbers i db)) + 1"
      using newVersion(1) countsUp_max [OF assms(3)] by (auto simp: nextVersion_def versionNumbers_def)
    have "lastIsCurrent db' (?f x)" if "x \<in> set (db_scenarios db)" for x
    proof (cases "sw_id x = i")
      case True
      then show ?thesis
        using newVersion n by (simp add: lastIsCurrent_def v versionNumbers_def)
    next
      case False
      then show ?thesis
        using that assms(4) newVersion(4) lastIsCurrent_append [OF _ v] by (simp add: currentVersions_def list_all_iff)
    qed
    then have "list_all (lastIsCurrent db') (map ?f (db_scenarios db))"
      unfolding list_all_iff set_map by blast
    then show ?thesis
      unfolding currentVersions_def rows by blast
  next
    case (finish rid st err now n db1 p)
    then show ?thesis
      using upsertReport_frame [OF finish(5)] by (auto simp: same_def updateActive_def updateRuns_def bind_splits Let_def split: if_splits)
  qed (auto simp: same_def tx_defs updateActive_def updateRuns_def bind_splits Let_def split: if_splits option.splits)
  moreover have "same \<Longrightarrow> currentVersions db'"
    using assms(4) by (simp add: same_def currentVersions_def lastIsCurrent_def [abs_def] versionNumbers_def)
  ultimately show ?thesis by blast
qed

definition integrity :: "DB \<Rightarrow> bool" where
  "integrity db \<longleftrightarrow> runKeys db \<and> runRefs db \<and> versionKeys db \<and> currentVersions db \<and>
     list_all (\<lambda>v. countsUp (versionNumbers (vw_scenario_id v) db)) (db_versions db)"

lemma integrity_numbers: "integrity db \<Longrightarrow> countsUp (versionNumbers i db)"
proof (cases "filter (\<lambda>v. vw_scenario_id v = i) (db_versions db)")
  case (Cons v vs)
  then have "v \<in> set (db_versions db)" "vw_scenario_id v = i"
    by (auto simp: filter_eq_Cons_iff)
  then show "integrity db \<Longrightarrow> countsUp (versionNumbers i db)"
    by (auto simp: integrity_def list_all_iff)
qed (simp add: versionNumbers_def countsUp_def)

lemma tx_integrity: "txStep env db db' \<Longrightarrow> integrity db \<Longrightarrow> integrity db'"
  using tx_runKeys tx_runRefs tx_versionKeys tx_currentVersions tx_versionNumbers integrity_numbers
  unfolding integrity_def list_all_iff by metis

lemma txs_integrity: "txSteps env db db' \<Longrightarrow> integrity db \<Longrightarrow> integrity db'"
  by (induction rule: rtranclp_induct) (auto intro: tx_integrity)

lemma integrity_empty: "integrity emptyDB"
  by (simp add: integrity_def emptyDB_def runKeys_def runRefs_def versionKeys_def currentVersions_def)

text \<open>
  C25: the versions of a stored scenario are numbered 1, 2, 3 and so on, and what the store returns for the scenario is its
  last version: the number it reports is the number of versions, and asking for the version of that number gives the
  same version.
\<close>

theorem pg_current_version:
  assumes "pgReachable env db" and "\<not> pi_Fail w 0" and "pg_UUIDIn env sid = Some i" and "pgGetScenario env w sid db = Some rec"
  shows "countsUp (versionNumbers i db) \<and> scr_CurrentVersionNumber rec = int (length (versionNumbers i db)) \<and>
    (\<exists>v. pgGetScenarioVersion env w sid (scr_CurrentVersionNumber rec) db = Some v \<and> sv_ID v = scr_CurrentVersionID rec \<and>
       sv_Scenario v = scr_Scenario rec)"
proof -
  have ok: "integrity db"
    by (rule txs_integrity [OF assms(1) integrity_empty])
  obtain s v where s: "find (\<lambda>x. sw_id x = i) (db_scenarios db) = Some s" and v: "currentVersionRow s db = Some v"
    and rec: "scenarioRecord env s v = Some rec"
    using assms(2-4) by (auto simp: pgGetScenario_def bind_splits stmt_def)
  have sid: "sw_id s = i" "s \<in> set (db_scenarios db)"
    using s by (auto simp: find_Some_iff)
  then obtain v' where v': "v' \<in> set (db_versions db)" "sw_current_version_id s = Some (vw_id v')" "vw_scenario_id v' = i"
      "vw_version_number v' = int (length (versionNumbers i db))"
    using ok by (auto simp: integrity_def currentVersions_def lastIsCurrent_def list_all_iff list_ex_iff)
  have "distinct (map vw_id (db_versions db))"
    using ok by (simp add: integrity_def versionKeys_def)
  moreover have "vw_id v = vw_id v'" "v \<in> set (db_versions db)"
    using v v'(2) by (auto simp: currentVersionRow_def find_Some_iff)
  ultimately have "v = v'"
    using v'(1) by (auto simp: distinct_map inj_on_def)
  have up: "countsUp (versionNumbers i db)"
    by (rule integrity_numbers [OF ok])
  have "find (\<lambda>x. vw_scenario_id x = i \<and> vw_version_number x = vw_version_number v) (db_versions db) = Some v"
  proof -
    obtain x where x: "find (\<lambda>x. vw_scenario_id x = i \<and> vw_version_number x = vw_version_number v) (db_versions db) = Some x"
      using v' \<open>v = v'\<close> by (cases "find (\<lambda>x. vw_scenario_id x = i \<and> vw_version_number x = vw_version_number v) (db_versions db)")
        (auto simp: find_None_iff)
    then have "x \<in> set (db_versions db)" "vw_scenario_id x = i" "vw_version_number x = vw_version_number v"
      by (auto simp: find_Some_iff)
    moreover have "distinct (map vw_version_number (filter (\<lambda>x. vw_scenario_id x = i) (db_versions db)))"
      using countsUp_distinct [OF up] by (simp add: versionNumbers_def)
    ultimately have "x = v"
      using v'(1,3) \<open>v = v'\<close> by (auto simp: distinct_map inj_on_def)
    with x show ?thesis by simp
  qed
  then show ?thesis
    using up rec v'(4) \<open>v = v'\<close> assms(2,3) by (auto simp: scenarioRecord_def pgGetScenarioVersion_def versionRecord_def stmt_def)
qed


section \<open>A concrete database\<close>

definition sampleEnv :: PgEnv where
  "sampleEnv = \<lparr>pg_ProjectID = ''u0'', pg_UUIDIn = (\<lambda>s. if s = '''' then None else Some s),
     pg_EncScenario = (\<lambda>sc. Some (sc_Name sc)), pg_DecScenario = (\<lambda>s. Some (checkoutRace\<lparr>sc_Name := s\<rparr>)), pg_DecName = Some,
     pg_Checksum = rev, pg_EncHeaders = (\<lambda>_. ''{}''), pg_DecHeaders = (\<lambda>_. Some []), pg_EncSummary = (\<lambda>_. ''{}''),
     pg_DecSummary = (\<lambda>_. zeroSummary), pg_EncChecks = (\<lambda>_. ''[]''), pg_DecChecks = (\<lambda>_. []),
     pg_EncFailures = (\<lambda>fs. Join fs '' ''), pg_DecFailures = (\<lambda>s. [s]), pg_EncMeta = (\<lambda>_. ''{}''), pg_DecMeta = (\<lambda>_. Some [])\<rparr>"

definition sampleIO :: "(nat \<Rightarrow> bool) \<Rightarrow> PgIO" where
  "sampleIO fails = \<lparr>pi_Fail = fails, pi_Now = (\<lambda>i. 1000 * int i), pi_UUID = (\<lambda>i. CHR ''u'' # Itoa (int i))\<rparr>"

definition seededDB :: DB where
  "seededDB = snd (NewPostgres (sampleIO (\<lambda>_. False)) emptyDB)"

definition scenarioDB :: DB where
  "scenarioDB = snd (pgCreateScenario sampleEnv (sampleIO (\<lambda>_. False)) checkoutRace seededDB)"

definition runDB :: DB where
  "runDB = snd (pgCreateRun sampleEnv (sampleIO (\<lambda>_. False)) ''u0'' '''' checkoutRace [] scenarioDB)"

definition erroredDB :: DB where
  "erroredDB = pgErrorRun sampleEnv (later 9 (sampleIO (\<lambda>_. False))) ''u1'' ''boom'' runDB"

lemma sample_reachable: "pgReachable sampleEnv scenarioDB" "pgReachable sampleEnv runDB" "pgReachable sampleEnv erroredDB"
proof -
  show s: "pgReachable sampleEnv scenarioDB"
    unfolding scenarioDB_def seededDB_def by (rule rtranclp_trans [OF tx_catalog(4) tx_scenario(1)])
  show r: "pgReachable sampleEnv runDB"
    unfolding runDB_def by (rule rtranclp_trans [OF s tx_runs(1)])
  show "pgReachable sampleEnv erroredDB"
    unfolding erroredDB_def by (rule rtranclp_trans [OF r tx_lifecycle(2)])
qed

theorem pg_finished_run_is_final_witness:
  "\<exists>r'. find (\<lambda>r. rw_id r = ''u1'') (db_runs (pgMarkRunStarted sampleEnv (sampleIO (\<lambda>_. False)) ''u1'' erroredDB)) = Some r' \<and>
     rw_status r' = Errored"
proof -
  let ?find = "find (\<lambda>r. rw_id r = ''u1'') (db_runs erroredDB)"
  have "map_option rw_status ?find = Some Errored"
    by code_simp
  then obtain r where r: "?find = Some r" "rw_status r = Errored"
    by auto
  then have "isTerminalRunStatus (statusName (rw_status r))"
    by (simp add: statusName_def)
  from pg_finished_run_is_final [OF tx_lifecycle(1) r(1) this, of sampleEnv "sampleIO (\<lambda>_. False)" "''u1''"] obtain r' where
    "find (\<lambda>r. rw_id r = ''u1'') (db_runs (pgMarkRunStarted sampleEnv (sampleIO (\<lambda>_. False)) ''u1'' erroredDB)) = Some r'"
    "r'\<lparr>rw_target_id := None\<rparr> = r\<lparr>rw_target_id := None\<rparr>" by blast
  with r(2) show ?thesis
    by (cases r; cases r') simp
qed

theorem pg_events_numbered_witness:
  "map ev_Sequence (pgListRunEvents sampleEnv (sampleIO (\<lambda>_. False)) ''u1'' erroredDB) = [1, 2]"
proof -
  have u: "pg_UUIDIn sampleEnv ''u1'' = Some ''u1''" "\<not> pi_Fail (sampleIO (\<lambda>_. False)) 0"
    by (simp_all add: sampleEnv_def sampleIO_def)
  have "length (filter (\<lambda>e. ew_run_id e = ''u1'') (db_events erroredDB)) = 2"
    by code_simp
  moreover have "countsUp ns \<Longrightarrow> length ns = 2 \<Longrightarrow> ns = [1, 2]" for ns
    by (simp add: countsUp_def upt_conv_Cons)
  ultimately show ?thesis
    using pg_events_numbered [OF sample_reachable(3) u(2,1)] by (metis length_map)
qed

theorem pg_current_version_witness:
  "\<exists>rec. pgGetScenario sampleEnv (sampleIO (\<lambda>_. False)) ''u0'' scenarioDB = Some rec \<and> scr_CurrentVersionNumber rec = 1"
proof -
  let ?w = "sampleIO (\<lambda>_. False)"
  have u: "pg_UUIDIn sampleEnv ''u0'' = Some ''u0''" "\<not> pi_Fail ?w 0"
    by (simp_all add: sampleEnv_def sampleIO_def)
  have "map_option scr_ID (pgGetScenario sampleEnv ?w ''u0'' scenarioDB) = Some ''u0''" and n: "length (versionNumbers ''u0'' scenarioDB) = 1"
    by code_simp+
  then obtain rec where "pgGetScenario sampleEnv ?w ''u0'' scenarioDB = Some rec"
    by auto
  with pg_current_version [OF sample_reachable(1) u(2,1) this] n show ?thesis
    by simp
qed


end
