(* ===== verification/PostgresStore.thy ===== *)
theory PostgresStore
  imports PostgresLaws RunExec
begin

text \<open>
  The Postgres store as an implementation of the interface \<open>run_store\<close>. Its states are the databases that satisfy the
  integrity constraints, and identifiers are spelled as the database prints them. What the executor was
  shown to do with any such store then holds with this one.
\<close>

section \<open>What is read of a run\<close>

text \<open>The table of runs has no column \<^verbatim>\<open>scenario_version_number\<close>, so the second query of \<^verbatim>\<open>getReport\<close> always fails.\<close>

lemma selectRunVersion_fails [simp]: "selectRunVersion env rid db = None"
  by (simp add: selectRunVersion_def runsColumns_def)

definition storedReport :: "PgEnv \<Rightarrow> string \<Rightarrow> string \<Rightarrow> ReportRow list \<Rightarrow> Report option" where
  "storedReport env rid i reports =
     map_option (\<lambda>p. reportColumns env p (zeroReport\<lparr>rp_RunID := rid\<rparr>)) (find (\<lambda>p. pw_run_id p = i) reports)"

lemma pg_getReport_eq:
  "\<not> pi_Fail w 0 \<Longrightarrow> pg_UUIDIn env rid = Some i \<Longrightarrow> pg_getReport env w rid db = storedReport env rid i (db_reports db)"
  by (cases "find (\<lambda>p. pw_run_id p = i) (db_reports db)") (simp_all add: pg_getReport_def storedReport_def stmt_def)

definition withReport :: "Report option \<Rightarrow> RunRecord \<Rightarrow> RunRecord" where
  "withReport rep r = (case rep of None \<Rightarrow> r | Some x \<Rightarrow> r\<lparr>run_Report := Some x\<rparr>)"

lemma withReport_Status [simp]: "run_Status (withReport rep r) = run_Status r" "run_Error (withReport rep r) = run_Error r"
  by (simp_all add: withReport_def split: option.split)

lemma later_fail: "(\<And>i. \<not> pi_Fail w i) \<Longrightarrow> \<not> pi_Fail (later n w) i"
  by (simp add: later_def)

lemma pgGetRun_eq:
  assumes "\<And>i. \<not> pi_Fail w i" and "pg_UUIDIn env rid = Some i"
  shows "pgGetRun env w rid db =
    do { r \<leftarrow> find (\<lambda>r. rw_id r = i) (db_runs db); rec \<leftarrow> runRecord env db r; Some (withReport (storedReport env rid i (db_reports db)) rec) }"
proof -
  have "pg_getRun env w rid db = do { r \<leftarrow> find (\<lambda>r. rw_id r = i) (db_runs db); runRecord env db r }"
    using assms by (simp add: pg_getRun_def stmt_def)
  moreover have "pg_getReport env (later 1 w) rid db = storedReport env rid i (db_reports db)"
    using assms by (simp add: pg_getReport_eq later_fail)
  ultimately show ?thesis
    by (auto simp: pgGetRun_def withReport_def split: option.split Option.bind_split)
qed


section \<open>What each call does to the rows that are read\<close>

lemma find_map_same: "(\<And>x. P (g x) = P x) \<Longrightarrow> find P (map g xs) = map_option g (find P xs)"
  by (induction xs) auto

lemma find_append: "find P (xs @ ys) = (case find P xs of None \<Rightarrow> find P ys | Some x \<Rightarrow> Some x)"
  by (induction xs) auto

lemma append_tables [simp]:
  "db_runs (snd (pgAppendRunEvent env w rid e db)) = db_runs db" "db_versions (snd (pgAppendRunEvent env w rid e db)) = db_versions db"
  "db_reports (snd (pgAppendRunEvent env w rid e db)) = db_reports db"
  by (auto simp: pgAppendRunEvent_def insertNumbered_def insertEvent_def Let_def bind_splits split: option.split if_splits)

text \<open>An appended event keeps the type it was given, whether it is stored or not.\<close>

lemma append_event_rows:
  "db_events (snd (pgAppendRunEvent env w rid e db)) = db_events db \<or>
   (\<exists>row. db_events (snd (pgAppendRunEvent env w rid e db)) = db_events db @ [row] \<and> pg_UUIDIn env rid = Some (ew_run_id row) \<and>
      ew_type row = ev_Type e)"
proof -
  have "ev_Type (withEventDefaults now rid e) = ev_Type e" for now
    by (simp add: withEventDefaults_def Let_def)
  moreover have "\<exists>row. db_events db' = db_events db @ [row] \<and> pg_UUIDIn env rid = Some (ew_run_id row) \<and> ew_type row = ev_Type e'"
    if "insertNumbered env w' rid e' raw db = Some (x, db')" for w' e' raw x db'
    using that by (auto simp: insertNumbered_def insertEvent_def bind_splits Let_def split: if_splits)
  ultimately show ?thesis
    by (fastforce simp: pgAppendRunEvent_def Let_def split: option.split)
qed

lemma append_requested:
  "cancelRequested i (snd (pgAppendRunEvent env w rid e db)) \<Longrightarrow>
     cancelRequested i db \<or> (pg_UUIDIn env rid = Some i \<and> ev_Type e = TypeCancelRequested)"
  "cancelRequested i db \<Longrightarrow> cancelRequested i (snd (pgAppendRunEvent env w rid e db))"
  using append_event_rows [of env w rid e db] by (auto simp: cancelRequested_def)

lemma append_other_type:
  "ev_Type e \<noteq> TypeCancelRequested \<Longrightarrow> cancelRequested i (snd (pgAppendRunEvent env w rid e db)) = cancelRequested i db"
  using append_requested by blast

lemma requested_cong: "db_events db' = db_events db \<Longrightarrow> cancelRequested i db' = cancelRequested i db"
  by (simp add: cancelRequested_def)

lemma updateActive_find:
  assumes "updateActive env rid f db = Some (n, db')" and "\<And>r. rw_id (f r) = rw_id r" and "pg_UUIDIn env rid = Some i"
  shows "find (\<lambda>r. rw_id r = j) (db_runs db') = map_option (\<lambda>r. if j = i \<and> activeRow r then f r else r) (find (\<lambda>r. rw_id r = j) (db_runs db))"
    and "n = length (filter (\<lambda>r. rw_id r = i \<and> activeRow r) (db_runs db))"
    and "db_versions db' = db_versions db" "db_reports db' = db_reports db" "db_events db' = db_events db"
proof -
  have db': "db' = db\<lparr>db_runs := map (\<lambda>r. if rw_id r = i \<and> activeRow r then f r else r) (db_runs db)\<rparr>"
    and n: "n = length (filter (\<lambda>r. rw_id r = i \<and> activeRow r) (db_runs db))"
    using assms(1,3) by (auto simp: updateActive_def updateRuns_def Let_def split: if_splits)
  have "find (\<lambda>r. rw_id r = j) (db_runs db') =
      map_option (\<lambda>r. if rw_id r = i \<and> activeRow r then f r else r) (find (\<lambda>r. rw_id r = j) (db_runs db))"
    unfolding db' by (simp add: find_map_same assms(2))
  also have "\<dots> = map_option (\<lambda>r. if j = i \<and> activeRow r then f r else r) (find (\<lambda>r. rw_id r = j) (db_runs db))"
    by (rule map_option_cong) (auto simp: find_Some_iff)
  finally show "find (\<lambda>r. rw_id r = j) (db_runs db') =
      map_option (\<lambda>r. if j = i \<and> activeRow r then f r else r) (find (\<lambda>r. rw_id r = j) (db_runs db))" .
  show "n = length (filter (\<lambda>r. rw_id r = i \<and> activeRow r) (db_runs db))"
    and "db_versions db' = db_versions db" "db_reports db' = db_reports db" "db_events db' = db_events db"
    using n by (simp_all add: db')
qed

text \<open>With unique identifiers, an update touches a row exactly when the row that is found is active.\<close>

lemma active_found:
  assumes "distinct (map rw_id rows)"
  shows "length (filter (\<lambda>r. rw_id r = i \<and> activeRow r) rows) \<noteq> 0 \<longleftrightarrow>
    (\<exists>r. find (\<lambda>r. rw_id r = i) rows = Some r \<and> activeRow r)"
  using assms
proof (induction rows)
  case (Cons x xs)
  then show ?case
    by (cases "rw_id x = i") (auto simp: filter_empty_conv image_iff)
qed simp

lemma quiet_now:
  assumes "r \<in> set (db_runs db)" and "rw_started_at r = Some t"
  shows "t \<le> pi_Now (quietIO fresh clock db) k"
proof -
  let ?step = "\<lambda>r t. case rw_started_at r of None \<Rightarrow> t | Some s \<Rightarrow> max s t"
  have mono: "x \<le> fold ?step rows x" for rows x
    by (induction rows arbitrary: x) (auto split: option.split intro: order_trans [OF max.cobounded2])
  have "r \<in> set rows \<Longrightarrow> t \<le> fold ?step rows x" for rows x
    using assms(2) by (induction rows arbitrary: x) (auto intro: order_trans [OF max.cobounded1 mono])
  then show ?thesis
    using assms(1) by (simp add: quietIO_def)
qed

lemma quiet_update:
  assumes "integrity db" and "pg_UUIDIn env rid = Some i"
    and "f = startRow (pi_Now (quietIO fresh clock db) k) \<or> f = finishRow st err (pi_Now (quietIO fresh clock db) k)"
  shows "\<exists>n db'. updateActive env rid f db = Some (n, db')"
proof -
  have "timesOrdered (f r)" if "r \<in> set (db_runs db)" "activeRow r" for r
    using assms(1,3) that quiet_now [of r db]
    by (auto simp: integrity_def runKeys_def list_all_iff timesOrdered_def startRow_def finishRow_def split: option.split)
  then show ?thesis
    using assms(2) by (auto simp: updateActive_def updateRuns_def Let_def list_all_iff)
qed

section \<open>The lifecycle calls\<close>

text \<open>How a run is found: its row, with the report and the version number beside it.\<close>

definition found :: "PgEnv \<Rightarrow> string \<Rightarrow> DB \<Rightarrow> RunRecord option" where
  "found env rid db = pgGetRun env readIO rid db"

lemma found_eq:
  "found env rid db = do {
     i \<leftarrow> pg_UUIDIn env rid; r \<leftarrow> find (\<lambda>r. rw_id r = i) (db_runs db); rec \<leftarrow> runRecord env db r;
     Some (withReport (storedReport env rid i (db_reports db)) rec) }"
proof (cases "pg_UUIDIn env rid")
  case None
  then show ?thesis by (simp add: found_def pgGetRun_def pg_getRun_def readIO_def stmt_def)
next
  case (Some i)
  then show ?thesis by (simp add: found_def pgGetRun_eq readIO_def)
qed

lemma runRecord_cong: "db_versions db' = db_versions db \<Longrightarrow> runRecord env db' = runRecord env db"
proof -
  assume "db_versions db' = db_versions db"
  then have "versionNumberOf v db' = versionNumberOf v db" for v
    by (simp add: versionNumberOf_def split: option.split)
  then show ?thesis
    by (simp add: runRecord_def [abs_def])
qed

lemma found_cong:
  "db_runs db' = db_runs db \<Longrightarrow> db_versions db' = db_versions db \<Longrightarrow> db_reports db' = db_reports db \<Longrightarrow> found env rid db' = found env rid db"
  using runRecord_cong [of db' db env] by (simp add: found_eq)

lemma runRecord_Some: "runRecord env db r = Some rec \<Longrightarrow> run_Status rec = statusName (rw_status r) \<and> run_Error rec = orEmpty (rw_error r)"
  by (auto simp: runRecord_def)

lemma terminal_row: "isTerminalRunStatus (statusName (rw_status r)) \<longleftrightarrow> \<not> activeRow r"
  by (cases "rw_status r") (simp_all add: statusName_def activeRow_def)

lemma found_row:
  assumes "found env rid db = Some rec"
  shows "\<exists>i r. pg_UUIDIn env rid = Some i \<and> find (\<lambda>r. rw_id r = i) (db_runs db) = Some r \<and> run_Status rec = statusName (rw_status r) \<and>
    pg_DecScenario env (rw_scenario_snapshot r) \<noteq> None \<and> (isTerminalRunStatus (run_Status rec) \<longleftrightarrow> \<not> activeRow r)"
proof -
  obtain i r rec0 where "pg_UUIDIn env rid = Some i" "find (\<lambda>r. rw_id r = i) (db_runs db) = Some r" "runRecord env db r = Some rec0"
    "rec = withReport (storedReport env rid i (db_reports db)) rec0"
    using assms by (auto simp: found_eq bind_splits)
  moreover from this(3) have "pg_DecScenario env (rw_scenario_snapshot r) \<noteq> None"
    by (auto simp: runRecord_def)
  ultimately show ?thesis
    using runRecord_Some [of env db r rec0] by (auto simp: terminal_row)
qed

text \<open>A call on a row that is not active changes nothing.\<close>

lemma update_inactive:
  assumes "integrity db" and "pg_UUIDIn env rid = Some i" and "\<And>r. find (\<lambda>r. rw_id r = i) (db_runs db) = Some r \<Longrightarrow> \<not> activeRow r"
    and "updateActive env rid f db = Some (n, db')"
  shows "n = 0" and "db' = db"
proof -
  have "filter (\<lambda>r. rw_id r = i \<and> activeRow r) (db_runs db) = []"
    using active_found [of "db_runs db" i] assms(1,3) by (auto simp: integrity_def runKeys_def)
  moreover from this have "map (\<lambda>r. if rw_id r = i \<and> activeRow r then f r else r) (db_runs db) = db_runs db"
    by (intro map_idI) (auto simp: filter_empty_conv)
  ultimately show "n = 0" and "db' = db"
    using assms(2,4) by (auto simp: updateActive_def updateRuns_def Let_def split: if_splits)
qed

lemma write_inactive:
  assumes "integrity db" and "\<And>i r. pg_UUIDIn env rid = Some i \<Longrightarrow> find (\<lambda>r. rw_id r = i) (db_runs db) = Some r \<Longrightarrow> \<not> activeRow r"
  shows "pgMarkRunStarted env w rid db = db" "pgErrorRun env w rid msg db = db"
    "pgCompleteRun env w rid rep db = db" "pgCancelRun env w rid rep db = db"
proof -
  have u: "n = 0 \<and> db' = db" if "updateActive env rid f db = Some (n, db')" for f n db'
    using that update_inactive [OF assms(1) _ assms(2) that] by (auto simp: updateActive_def bind_splits)
  have "finishRunWithReport env w rid st rep' m db = None" for st rep' m
  proof -
    have "finishRunWithReport env w rid st rep' m db \<noteq> Some db'" for db'
      unfolding finishRunWithReport_def using u by (fastforce simp: bind_splits)
    then show ?thesis by (meson not_None_eq)
  qed
  then show "pgCompleteRun env w rid rep db = db" "pgCancelRun env w rid rep db = db"
    by (simp_all add: pgCompleteRun_def pgCancelRun_def Let_def)
  show "pgMarkRunStarted env w rid db = db" "pgErrorRun env w rid msg db = db"
    using u by (auto simp: pgMarkRunStarted_def pgErrorRun_def stmt_def split: option.splits dest!: u)
qed

lemma found_updated:
  assumes "find (\<lambda>r. rw_id r = i) (db_runs db') = Some (f r)" and "pg_UUIDIn env rid = Some i"
    and "pg_DecScenario env (rw_scenario_snapshot r) \<noteq> None" and "rw_scenario_snapshot (f r) = rw_scenario_snapshot r"
  shows "\<exists>rec. found env rid db' = Some rec \<and> run_Status rec = statusName (rw_status (f r)) \<and> run_Error rec = orEmpty (rw_error (f r))"
proof -
  obtain rec0 where "runRecord env db' (f r) = Some rec0"
    using assms(3,4) by (auto simp: runRecord_def)
  then show ?thesis
    using assms(1,2) runRecord_Some [of env db' "f r" rec0] by (simp add: found_eq)
qed

lemma row_fields [simp]:
  "rw_id (startRow now r) = rw_id r" "rw_scenario_snapshot (startRow now r) = rw_scenario_snapshot r" "rw_status (startRow now r) = Running"
  "rw_id (finishRow st err now r) = rw_id r" "rw_scenario_snapshot (finishRow st err now r) = rw_scenario_snapshot r"
  "rw_status (finishRow st err now r) = st" "rw_error (finishRow st err now r) = err"
  by (simp_all add: startRow_def finishRow_def)

lemma found_append [simp]: "found env rid (snd (pgAppendRunEvent env w j e db)) = found env rid db"
  by (rule found_cong) simp_all

lemma quiet_calm [simp]: "\<not> pi_Fail (quietIO fresh clock db) k"
  by (simp add: quietIO_def)

lemma update_active:
  assumes "integrity db" and "found env rid db = Some rec" and "\<not> isTerminalRunStatus (run_Status rec)"
    and "f = startRow (pi_Now (quietIO fresh clock db) k) \<or> f = finishRow st err (pi_Now (quietIO fresh clock db) k)"
  obtains i r n d where "pg_UUIDIn env rid = Some i" and "updateActive env rid f db = Some (n, d)" and "n \<noteq> 0"
    and "list_ex (\<lambda>x. rw_id x = i) (db_runs d)"
    and "\<forall>d'. db_runs d' = db_runs d \<longrightarrow>
      (\<exists>rec. found env rid d' = Some rec \<and> run_Status rec = statusName (rw_status (f r)) \<and> run_Error rec = orEmpty (rw_error (f r)))"
proof -
  obtain i r where r: "pg_UUIDIn env rid = Some i" "find (\<lambda>r. rw_id r = i) (db_runs db) = Some r"
      "pg_DecScenario env (rw_scenario_snapshot r) \<noteq> None" "activeRow r"
    using found_row [OF assms(2)] assms(3) by auto
  have hit: "length (filter (\<lambda>r. rw_id r = i \<and> activeRow r) (db_runs db)) \<noteq> 0"
    using active_found [of "db_runs db" i] assms(1) r(2,4) by (auto simp: integrity_def runKeys_def)
  obtain n d where u: "updateActive env rid f db = Some (n, d)"
    using quiet_update [OF assms(1) r(1) assms(4)] by blast
  have kept: "rw_id (f x) = rw_id x \<and> rw_scenario_snapshot (f x) = rw_scenario_snapshot x" for x
    using assms(4) by auto
  have f: "find (\<lambda>r. rw_id r = i) (db_runs d) = Some (f r)" and "n \<noteq> 0"
    using updateActive_find [OF u _ r(1)] kept r(2,4) hit by auto
  moreover have "list_ex (\<lambda>x. rw_id x = i) (db_runs d)"
    using f by (auto simp: find_Some_iff list_ex_iff)
  moreover have "\<exists>rec. found env rid d' = Some rec \<and> run_Status rec = statusName (rw_status (f r)) \<and> run_Error rec = orEmpty (rw_error (f r))"
    if "db_runs d' = db_runs d" for d'
    using found_updated [of i d' f r env rid, OF _ r(1,3)] f \<open>db_runs d' = db_runs d\<close> kept by simp
  ultimately show thesis
    using that [OF r(1) u] by blast
qed

lemma write_active:
  assumes "integrity db" and "found env rid db = Some rec" and "\<not> isTerminalRunStatus (run_Status rec)"
  shows "\<exists>r'. found env rid (pgMarkRunStarted env (quietIO fresh clock db) rid db) = Some r' \<and> run_Status r' = RunRunning"
    and "\<exists>r'. found env rid (pgErrorRun env (quietIO fresh clock db) rid msg db) = Some r' \<and> run_Status r' = RunErrored \<and> run_Error r' = msg"
proof -
  let ?w = "quietIO fresh clock db"
  obtain r n d where u: "updateActive env rid (startRow (pi_Now ?w 0)) db = Some (n, d)" "n \<noteq> 0" and
    f: "\<forall>d'. db_runs d' = db_runs d \<longrightarrow> (\<exists>rec. found env rid d' = Some rec \<and>
      run_Status rec = statusName (rw_status (startRow (pi_Now ?w 0) r)) \<and> run_Error rec = orEmpty (rw_error (startRow (pi_Now ?w 0) r)))"
    by (rule update_active [OF assms disjI1 [OF refl], of fresh clock 0]) (rule that, assumption+)
  have "pgMarkRunStarted env ?w rid db =
      snd (pgAppendRunEvent env (later 1 ?w) rid (newEvent LevelInfo TypeRunStarted ''run started'' None) d)"
    using u by (simp add: pgMarkRunStarted_def stmt_def)
  then show "\<exists>r'. found env rid (pgMarkRunStarted env ?w rid db) = Some r' \<and> run_Status r' = RunRunning"
    using f [rule_format, of d] by (auto simp: statusName_def)
  obtain r n d where u: "updateActive env rid (finishRow Errored (Some msg) (pi_Now ?w 0)) db = Some (n, d)" "n \<noteq> 0" and
    f: "\<forall>d'. db_runs d' = db_runs d \<longrightarrow> (\<exists>rec. found env rid d' = Some rec \<and>
      run_Status rec = statusName (rw_status (finishRow Errored (Some msg) (pi_Now ?w 0) r)) \<and>
      run_Error rec = orEmpty (rw_error (finishRow Errored (Some msg) (pi_Now ?w 0) r)))"
    by (rule update_active [OF assms disjI2 [OF refl], of Errored "Some msg" fresh clock 0]) (rule that, assumption+)
  have "pgErrorRun env ?w rid msg db = snd (pgAppendRunEvent env (later 1 ?w) rid (newEvent LevelError TypeRunFailed msg None) d)"
    using u by (simp add: pgErrorRun_def stmt_def)
  then show "\<exists>r'. found env rid (pgErrorRun env ?w rid msg db) = Some r' \<and> run_Status r' = RunErrored \<and> run_Error r' = msg"
    using f [rule_format, of d] by (auto simp: statusName_def orEmpty_def)
qed

lemma finish_active:
  assumes "integrity db" and "found env rid db = Some rec" and "\<not> isTerminalRunStatus (run_Status rec)"
    and "statusIn status = Some st" and "finishedStatus st"
  shows "\<exists>d r'. finishRunWithReport env (quietIO fresh clock db) rid status rep msg db = Some d \<and>
    found env rid d = Some r' \<and> run_Status r' = statusName st"
proof -
  let ?f = "finishRow st (if msg = '''' then None else Some msg) (pi_Now (quietIO fresh clock db) 0)"
  obtain i r n d where u: "pg_UUIDIn env rid = Some i" "updateActive env rid ?f db = Some (n, d)" "n \<noteq> 0"
      "list_ex (\<lambda>x. rw_id x = i) (db_runs d)"
    and f: "\<forall>d'. db_runs d' = db_runs d \<longrightarrow> (\<exists>rec. found env rid d' = Some rec \<and>
      run_Status rec = statusName (rw_status (?f r)) \<and> run_Error rec = orEmpty (rw_error (?f r)))"
    by (rule update_active [OF assms(1-3) disjI2 [OF refl], of st "if msg = '''' then None else Some msg" fresh clock 0]) (rule that, assumption+)
  obtain d2 where "finishRunWithReport env (quietIO fresh clock db) rid status rep msg db = Some d2" "db_runs d2 = db_runs d"
    using u assms(4,5) unfolding finishRunWithReport_def finishedStatus_def
    by (fastforce simp: stmt_def upsertReport_def)
  then show ?thesis
    using f by auto
qed

lemma report_active:
  assumes "integrity db" and "found env rid db = Some rec" and "\<not> isTerminalRunStatus (run_Status rec)"
  shows "\<exists>r'. found env rid (pgCompleteRun env (quietIO fresh clock db) rid rep db) = Some r' \<and> run_Status r' = runStatusOf rep"
    and "\<exists>r'. found env rid (pgCancelRun env (quietIO fresh clock db) rid rep db) = Some r' \<and> run_Status r' = RunCanceled"
proof -
  have "statusIn RunFailed = Some Failed" "statusIn RunPassed = Some Passed" "statusIn RunCanceled = Some Canceled"
    by (simp_all add: statusIn_def statusName_def run_status)
  note st = finish_active [OF assms this(1), of fresh clock rep "''''"] finish_active [OF assms this(2), of fresh clock rep "''''"]
    finish_active [OF assms this(3), of fresh clock "rep\<lparr>rp_Status := StatusCanceled\<rparr>" "''run canceled''"]
  show "\<exists>r'. found env rid (pgCompleteRun env (quietIO fresh clock db) rid rep db) = Some r' \<and> run_Status r' = runStatusOf rep"
    using st(1,2) by (auto simp: pgCompleteRun_def Let_def runStatusOf_def finishedStatus_def statusName_def)
  show "\<exists>r'. found env rid (pgCancelRun env (quietIO fresh clock db) rid rep db) = Some r' \<and> run_Status r' = RunCanceled"
    using st(3) by (auto simp: pgCancelRun_def Let_def finishedStatus_def statusName_def)
qed

section \<open>What a lifecycle call leaves alone\<close>

text \<open>Only the run \<open>i\<close> and its report differ, and what the run was created from is the same.\<close>

definition touches :: "string \<Rightarrow> DB \<Rightarrow> DB \<Rightarrow> bool" where
  "touches i db db' \<longleftrightarrow> db_versions db' = db_versions db \<and>
     (\<forall>j. j \<noteq> i \<longrightarrow> find (\<lambda>r. rw_id r = j) (db_runs db') = find (\<lambda>r. rw_id r = j) (db_runs db) \<and>
        find (\<lambda>p. pw_run_id p = j) (db_reports db') = find (\<lambda>p. pw_run_id p = j) (db_reports db)) \<and>
     map_option rw_scenario_snapshot (find (\<lambda>r. rw_id r = i) (db_runs db')) =
       map_option rw_scenario_snapshot (find (\<lambda>r. rw_id r = i) (db_runs db))"

lemma touches_refl [simp]: "touches i db db"
  by (simp add: touches_def)

lemma touches_append [simp]: "touches i db (snd (pgAppendRunEvent env w rid e db')) = touches i db db'"
  by (simp add: touches_def)

lemma touches_update:
  assumes "updateActive env rid f db = Some (n, db')" and "f = startRow now \<or> f = finishRow st err now" and "pg_UUIDIn env rid = Some i"
  shows "touches i db db'" "db_events db' = db_events db"
proof -
  have kept: "rw_id (f r) = rw_id r" "rw_scenario_snapshot (f r) = rw_scenario_snapshot r" for r
    using assms(2) by auto
  note u = updateActive_find [OF assms(1) kept(1) assms(3)]
  have "map_option rw_scenario_snapshot (map_option (\<lambda>r. if activeRow r then f r else r) x) = map_option rw_scenario_snapshot x" for x
    using kept(2) by (cases x) simp_all
  then show "touches i db db'" "db_events db' = db_events db"
    using u by (simp_all add: touches_def option.map_ident)
qed

lemma touches_upsert:
  assumes "upsertReport p db1 = Some db2" and "touches (pw_run_id p) db db1"
  shows "touches (pw_run_id p) db db2" "db_events db2 = db_events db1"
proof -
  have "find (\<lambda>x. pw_run_id x = j) (map (\<lambda>x. if pw_run_id x = pw_run_id p then p else x) ps) = find (\<lambda>x. pw_run_id x = j) ps"
    if "j \<noteq> pw_run_id p" for j ps
    using that by (induction ps) auto
  moreover have "find (\<lambda>x. pw_run_id x = j) (ps @ [p]) = find (\<lambda>x. pw_run_id x = j) ps" if "j \<noteq> pw_run_id p" for j ps
    using that by (induction ps) auto
  ultimately show "touches (pw_run_id p) db db2" "db_events db2 = db_events db1"
    using assms by (auto simp: touches_def upsertReport_def split: if_splits)
qed

lemma touches_finish:
  assumes "finishRunWithReport env w rid status rep msg db = Some db'"
  shows "\<exists>i. pg_UUIDIn env rid = Some i \<and> touches i db db'" "db_events db' = db_events db"
proof -
  let ?p = "\<lambda>i st. \<lparr>pw_run_id = i, pw_status = st, pw_summary = pg_EncSummary env (rp_Summary rep),
    pw_thresholds = pg_EncChecks env (rp_Thresholds rep), pw_invariants = pg_EncChecks env (rp_Invariants rep),
    pw_failures = pg_EncFailures env (rp_Failures rep)\<rparr>"
  obtain i st n db1 where u: "pg_UUIDIn env rid = Some i" "upsertReport (?p i st) db1 = Some db'"
      "updateActive env rid (finishRow st (if msg = '''' then None else Some msg) (pi_Now w 0)) db = Some (n, db1)"
    using assms by (auto simp: finishRunWithReport_def bind_splits)
  note t = touches_update [OF u(3) disjI2 [OF refl] u(1)]
  from touches_upsert [OF u(2)] t(1) have "touches i db db'" by simp
  then show "\<exists>i. pg_UUIDIn env rid = Some i \<and> touches i db db'"
    using u(1) by blast
  show "db_events db' = db_events db"
    using u(2) t(2) by (auto simp: upsertReport_def split: if_splits)
qed

lemma write_touches:
  "pgMarkRunStarted env w rid db = db \<or> (\<exists>i. pg_UUIDIn env rid = Some i \<and> touches i db (pgMarkRunStarted env w rid db))"
  "pgErrorRun env w rid msg db = db \<or> (\<exists>i. pg_UUIDIn env rid = Some i \<and> touches i db (pgErrorRun env w rid msg db))"
  "pgCompleteRun env w rid rep db = db \<or> (\<exists>i. pg_UUIDIn env rid = Some i \<and> touches i db (pgCompleteRun env w rid rep db))"
  "pgCancelRun env w rid rep db = db \<or> (\<exists>i. pg_UUIDIn env rid = Some i \<and> touches i db (pgCancelRun env w rid rep db))"
proof -
  have u: "\<exists>i. pg_UUIDIn env rid = Some i \<and> touches i db db'"
    if upd: "updateActive env rid f db = Some (n, db')" and kind: "f = startRow now \<or> f = finishRow st err now" for f n db' now st err
  proof -
    obtain i where "pg_UUIDIn env rid = Some i"
      using upd by (auto simp: updateActive_def bind_splits)
    with touches_update(1) [OF upd kind] show ?thesis by blast
  qed
  show "pgMarkRunStarted env w rid db = db \<or> (\<exists>i. pg_UUIDIn env rid = Some i \<and> touches i db (pgMarkRunStarted env w rid db))"
    by (auto simp: pgMarkRunStarted_def dest!: u split: option.split)
  show "pgErrorRun env w rid msg db = db \<or> (\<exists>i. pg_UUIDIn env rid = Some i \<and> touches i db (pgErrorRun env w rid msg db))"
    by (auto simp: pgErrorRun_def dest!: u split: option.split)
  show "pgCompleteRun env w rid rep db = db \<or> (\<exists>i. pg_UUIDIn env rid = Some i \<and> touches i db (pgCompleteRun env w rid rep db))"
    by (auto simp: pgCompleteRun_def Let_def dest!: touches_finish(1) split: option.split)
  show "pgCancelRun env w rid rep db = db \<or> (\<exists>i. pg_UUIDIn env rid = Some i \<and> touches i db (pgCancelRun env w rid rep db))"
    by (auto simp: pgCancelRun_def Let_def dest!: touches_finish(1) split: option.split)
qed

lemma found_touched:
  assumes "touches i db db'"
  shows "pg_UUIDIn env rid \<noteq> Some i \<Longrightarrow> found env rid db' = found env rid db"
    and "found env rid db = None \<Longrightarrow> found env rid db' = None"
proof -
  have ver: "runRecord env db' = runRecord env db"
    using assms by (intro runRecord_cong) (simp add: touches_def)
  have same: "found env rid db' = found env rid db" if "pg_UUIDIn env rid = Some j" "j \<noteq> i" for j
    using assms that by (simp add: found_eq ver storedReport_def touches_def)
  have none: "found env rid db = None" if "pg_UUIDIn env rid = None" for db
    using that by (simp add: found_eq)
  show "pg_UUIDIn env rid \<noteq> Some i \<Longrightarrow> found env rid db' = found env rid db"
    using same none by (cases "pg_UUIDIn env rid") auto
  have gone: "found env rid d = None \<longleftrightarrow> find (\<lambda>r. rw_id r = i) (db_runs d) = None \<or>
      (\<exists>r. find (\<lambda>r. rw_id r = i) (db_runs d) = Some r \<and> pg_DecScenario env (rw_scenario_snapshot r) = None)"
    if "pg_UUIDIn env rid = Some i" for d
    using that by (auto simp: found_eq runRecord_def split: Option.bind_splits)
  have "map_option rw_scenario_snapshot (find (\<lambda>r. rw_id r = i) (db_runs db')) =
      map_option rw_scenario_snapshot (find (\<lambda>r. rw_id r = i) (db_runs db))"
    using assms by (simp add: touches_def)
  then show "found env rid db = None \<Longrightarrow> found env rid db' = None"
    using same none gone
    by (cases "pg_UUIDIn env rid = Some i"; cases "find (\<lambda>r. rw_id r = i) (db_runs db)"; cases "find (\<lambda>r. rw_id r = i) (db_runs db')";
        cases "pg_UUIDIn env rid") auto
qed

lemma write_requested:
  "cancelRequested i (pgMarkRunStarted env w rid db) = cancelRequested i db"
  "cancelRequested i (pgErrorRun env w rid msg db) = cancelRequested i db"
  "cancelRequested i (pgCompleteRun env w rid rep db) = cancelRequested i db"
  "cancelRequested i (pgCancelRun env w rid rep db) = cancelRequested i db"
proof -
  have t: "ev_Type (newEvent l k m md) \<noteq> TypeCancelRequested \<longleftrightarrow> k \<noteq> TypeCancelRequested" for l k m md
    by (simp add: newEvent_def)
  have u: "db_events db' = db_events db" if "updateActive env rid f db = Some (n, db')" for f n db'
    using that by (auto simp: updateActive_def updateRuns_def bind_splits Let_def split: if_splits)
  show "cancelRequested i (pgMarkRunStarted env w rid db) = cancelRequested i db" "cancelRequested i (pgErrorRun env w rid msg db) = cancelRequested i db"
    by (auto simp: pgMarkRunStarted_def pgErrorRun_def append_other_type t event_types split: option.split dest!: u intro!: requested_cong)
  show "cancelRequested i (pgCompleteRun env w rid rep db) = cancelRequested i db" "cancelRequested i (pgCancelRun env w rid rep db) = cancelRequested i db"
    by (auto simp: pgCompleteRun_def pgCancelRun_def Let_def append_other_type t event_types split: option.split
        dest!: touches_finish(2) intro!: requested_cong)
qed

section \<open>The other calls\<close>

lemma create_found:
  assumes "pgCreateRun env w sid tid sc ref db = (rec, db')" and "pg_UUIDIn env rid \<noteq> Some (run_ID rec)"
  shows "found env rid db' = found env rid db"
proof -
  have new: "found env rid d = found env rid db" if "insertQueued env w tid s v raw db = Some (row, d)" "rw_id row = run_ID rec" for s v raw row d
  proof -
    have d: "d = db\<lparr>db_runs := db_runs db @ [row]\<rparr>"
      using that(1) by (auto simp: insertQueued_def insertRun_def bind_splits Let_def split: if_splits)
    have "runRecord env d = runRecord env db"
      by (intro runRecord_cong) (simp add: d)
    moreover have "find (\<lambda>r. rw_id r = i) (db_runs d) = find (\<lambda>r. rw_id r = i) (db_runs db)" if "pg_UUIDIn env rid = Some i" for i
      using that assms(2) \<open>rw_id row = run_ID rec\<close> by (auto simp: d find_append split: option.split)
    ultimately show ?thesis
      by (cases "pg_UUIDIn env rid") (simp_all add: found_eq, simp add: d)
  qed
  then show ?thesis
    using assms(1) by (auto simp: pgCreateRun_def Let_def split: option.splits prod.splits)
qed

lemma create_requested: "cancelRequested i (snd (pgCreateRun env w sid tid sc ref db)) = cancelRequested i db"
proof -
  have "db_events d = db_events db" if "insertQueued env w tid s v raw db = Some (row, d)" for s v raw row d
    using that by (auto simp: insertQueued_def insertRun_def bind_splits Let_def split: if_splits)
  then show ?thesis
    by (auto simp: pgCreateRun_def Let_def append_other_type newEvent_def event_types split: option.split prod.split intro!: requested_cong)
qed

lemma catalog_events:
  "db_events (snd (pgCreateTarget env w t db)) = db_events db" "db_events (snd (pgUpdateTarget env w i t db)) = db_events db"
  "db_events (snd (pgDeleteTarget env w i db)) = db_events db" "db_events (snd (pgCreateScenario env w sc db)) = db_events db"
  "db_events (snd (pgUpdateScenario env w i sc db)) = db_events db"
  by (auto simp: pgCreateTarget_def pgUpdateTarget_def pgDeleteTarget_def pgCreateScenario_def pgUpdateScenario_def tx_defs Let_def
      bind_splits split: option.split if_splits option.splits)

lemma request_tables:
  "db_runs (snd (pgRequestRunCancel env w rid db)) = db_runs db" "db_versions (snd (pgRequestRunCancel env w rid db)) = db_versions db"
  "db_reports (snd (pgRequestRunCancel env w rid db)) = db_reports db"
  by (auto simp: pgRequestRunCancel_def insertEvent_def Let_def bind_splits split: option.split if_splits)

lemma request_found: "found env rid (snd (pgRequestRunCancel env w j db)) = found env rid db"
  by (intro found_cong request_tables)

lemmas catalog_requested = catalog_events [THEN requested_cong]

lemma request_accepts:
  assumes "fst (pgRequestRunCancel env w rid db)"
  shows "\<exists>i r. pg_UUIDIn env rid = Some i \<and> find (\<lambda>r. rw_id r = i) (db_runs db) = Some r \<and> isCancelableRunStatus (statusName (rw_status r))"
  using assms by (auto simp: pgRequestRunCancel_def bind_splits split: option.splits if_splits)

lemma request_requested:
  "cancelRequested i (snd (pgRequestRunCancel env w rid db)) \<longleftrightarrow>
     cancelRequested i db \<or> (pg_UUIDIn env rid = Some i \<and> fst (pgRequestRunCancel env w rid db))"
proof (cases "fst (pgRequestRunCancel env w rid db)")
  case True
  then obtain db' where req: "pgRequestRunCancel env w rid db = (True, db')"
    by (cases "pgRequestRunCancel env w rid db") simp
  have "\<exists>j. pg_UUIDIn env rid = Some j \<and> (db' = db \<and> cancelRequested j db \<or>
      (\<exists>row. db_events db' = db_events db @ [row] \<and> ew_run_id row = j \<and> ew_type row = TypeCancelRequested))"
    using req by (auto simp: pgRequestRunCancel_def insertEvent_def bind_splits Let_def split: option.splits if_splits)
  then show ?thesis
    by (auto simp: req cancelRequested_def)
next
  case False
  then have "snd (pgRequestRunCancel env w rid db) = db"
    by (auto simp: pgRequestRunCancel_def split: option.splits)
  with False show ?thesis by simp
qed

lemma targets_found:
  "found env rid (snd (pgCreateTarget env w t db)) = found env rid db"
  "found env rid (snd (pgUpdateTarget env w i t db)) = found env rid db"
  by (rule found_cong; auto simp: pgCreateTarget_def pgUpdateTarget_def insertTarget_def updateTarget_def Let_def bind_splits
      split: option.split if_splits)+

lemma runRecord_target:
  "runRecord env db (r\<lparr>rw_target_id := x\<rparr>) = map_option (\<lambda>rec. rec\<lparr>run_TargetID := orEmpty x\<rparr>) (runRecord env db r)"
  by (simp add: runRecord_def option.map_comp o_def)

lemma withReport_target: "sameRun (withReport rep rec) (withReport rep (rec\<lparr>run_TargetID := x\<rparr>))"
  by (cases rep; cases rec) (simp_all add: withReport_def sameRun_def)

lemma delete_found: "rel_option sameRun (found env rid db) (found env rid (snd (pgDeleteTarget env w tid db)))"
proof (cases "stmt w 0 (deleteTargets env tid db)")
  case None
  then show ?thesis by (simp add: pgDeleteTarget_def option.rel_refl)
next
  case (Some x)
  then obtain n d i where x: "x = (n, d)" "deleteTargets env tid db = Some (n, d)" "pg_UUIDIn env tid = Some i"
    by (cases x) (auto simp: deleteTargets_def bind_splits)
  define g :: "RunRow \<Rightarrow> RunRow" where "g = (\<lambda>r. if filter (\<lambda>x. tw_id x = i \<and> tw_project_id x = pg_ProjectID env) (db_targets db) \<noteq> [] \<and> rw_target_id r = Some i
    then r\<lparr>rw_target_id := None\<rparr> else r)"
  have d: "db_runs d = map g (db_runs db)" "db_versions d = db_versions db" "db_reports d = db_reports db"
    using x(2,3) by (auto simp: deleteTargets_def Let_def g_def)
  have g: "g r = r \<or> g r = r\<lparr>rw_target_id := None\<rparr>" for r
    by (simp add: g_def)
  have "rw_id (g r) = rw_id r" for r
    using g [of r] by auto
  then have f: "find (\<lambda>r. rw_id r = j) (db_runs d) = map_option g (find (\<lambda>r. rw_id r = j) (db_runs db))" for j
    by (simp add: d(1) find_map_same)
  have "rel_option sameRun (runRecord env db r \<bind> (\<lambda>rec. Some (withReport rep rec))) (runRecord env d (g r) \<bind> (\<lambda>rec. Some (withReport rep rec)))" for r rep
    using g [of r] runRecord_cong [OF d(2)] withReport_target by (cases "runRecord env db r") (auto simp: runRecord_target)
  then have "rel_option sameRun (found env rid db) (found env rid d)"
    unfolding found_eq f d(3) by (cases "pg_UUIDIn env rid"; simp) (auto split: Option.bind_split)
  then show ?thesis
    by (simp add: pgDeleteTarget_def Some x(1))
qed

text \<open>A new version does not change the version of a run, which refers to a row that is there.\<close>

lemma versions_found:
  assumes "integrity db" and "db_runs db' = db_runs db" and "db_reports db' = db_reports db" and "\<exists>vs. db_versions db' = db_versions db @ vs"
  shows "found env rid db' = found env rid db"
proof -
  have "versionNumberOf (rw_scenario_version_id r) db' = versionNumberOf (rw_scenario_version_id r) db" if "r \<in> set (db_runs db)" for r
  proof (cases "rw_scenario_version_id r")
    case (Some v)
    then have "v \<in> vw_id ` set (db_versions db)"
      using assms(1) that by (auto simp: integrity_def runRefs_def list_all_iff refersTo_def split: option.splits)
    then have "find (\<lambda>x. vw_id x = v) (db_versions db) \<noteq> None"
      by (auto simp: find_None_iff)
    then show ?thesis
      using Some assms(4) by (auto simp: versionNumberOf_def find_append)
  qed (simp add: versionNumberOf_def)
  then have "runRecord env db' r = runRecord env db r" if "r \<in> set (db_runs db)" for r
    using that by (simp add: runRecord_def)
  moreover have "find (\<lambda>r. rw_id r = i) (db_runs db) = Some r \<Longrightarrow> r \<in> set (db_runs db)" for i r
    by (auto simp: find_Some_iff)
  ultimately show ?thesis
    unfolding found_eq assms(2,3) by (auto intro!: bind_option_cong)
qed

lemma scenarios_found:
  assumes "integrity db"
  shows "found env rid (snd (pgCreateScenario env w sc db)) = found env rid db"
    and "found env rid (snd (pgUpdateScenario env w sid sc db)) = found env rid db"
proof -
  show "found env rid (snd (pgCreateScenario env w sc db)) = found env rid db"
    by (rule versions_found [OF assms])
      (auto simp: pgCreateScenario_def insertScenario_def insertVersion_def setCurrentVersion_def Let_def bind_splits split: option.split if_splits)
  show "found env rid (snd (pgUpdateScenario env w sid sc db)) = found env rid db"
    by (rule versions_found [OF assms])
      (auto simp: pgUpdateScenario_def insertVersion_def updateScenarioRow_def Let_def bind_splits split: option.split if_splits option.splits)
qed

section \<open>The store on databases with integrity\<close>

typedef database = "{db. integrity db}"
  morphisms tables Database
  using integrity_empty by blast

lemma tables_integrity [simp]: "integrity (tables d)"
  using tables by simp

lemma tables_Database: "integrity db \<Longrightarrow> tables (Database db) = db"
  by (simp add: Database_inverse)

text \<open>The text form of a uuid as the database prints it; with other spellings two texts may denote one identifier.\<close>

definition isUUID :: "string \<Rightarrow> bool" where
  "isUUID s \<longleftrightarrow> map length (Split s CHR ''-'') = [8, 4, 4, 4, 12] \<and>
     list_all (list_all (\<lambda>c. isDigit c \<or> (97 \<le> code c \<and> code c \<le> 102))) (Split s CHR ''-'')"

definition canonical :: "PgEnv \<Rightarrow> PgEnv" where
  "canonical env = env\<lparr>pg_UUIDIn := (\<lambda>s. if isUUID s then Some s else None)\<rparr>"

definition commit :: "'a \<times> DB \<Rightarrow> 'a \<times> database" where
  "commit x = (fst x, Database (snd x))"

definition databaseOps :: "PgEnv \<Rightarrow> (DB \<Rightarrow> nat \<Rightarrow> string) \<Rightarrow> database StoreOps" where
  "databaseOps env fresh =
     (let ops = postgresOps (canonical env) fresh
      in \<lparr>so_CreateTarget = (\<lambda>c t d. commit (so_CreateTarget ops c t (tables d))),
          so_UpdateTarget = (\<lambda>c i t d. commit (so_UpdateTarget ops c i t (tables d))),
          so_DeleteTarget = (\<lambda>i d. commit (so_DeleteTarget ops i (tables d))),
          so_GetTarget = (\<lambda>i d. so_GetTarget ops i (tables d)), so_ListTargets = (\<lambda>d. so_ListTargets ops (tables d)),
          so_CreateScenario = (\<lambda>c sc d. commit (so_CreateScenario ops c sc (tables d))),
          so_UpdateScenario = (\<lambda>c i sc d. commit (so_UpdateScenario ops c i sc (tables d))),
          so_GetScenario = (\<lambda>i d. so_GetScenario ops i (tables d)), so_ListScenarios = (\<lambda>d. so_ListScenarios ops (tables d)),
          so_ListScenarioVersions = (\<lambda>i d. so_ListScenarioVersions ops i (tables d)),
          so_GetScenarioVersion = (\<lambda>i n d. so_GetScenarioVersion ops i n (tables d)),
          so_CreateRun = (\<lambda>c i t sc ref d. commit (so_CreateRun ops c i t sc ref (tables d))),
          so_MarkRunStarted = (\<lambda>c i d. Database (so_MarkRunStarted ops c i (tables d))),
          so_CompleteRun = (\<lambda>c i rep d. Database (so_CompleteRun ops c i rep (tables d))),
          so_CancelRun = (\<lambda>c i rep d. Database (so_CancelRun ops c i rep (tables d))),
          so_ErrorRun = (\<lambda>c i err d. Database (so_ErrorRun ops c i err (tables d))),
          so_GetRun = (\<lambda>i d. so_GetRun ops i (tables d)), so_ListRuns = (\<lambda>d. so_ListRuns ops (tables d)),
          so_RequestRunCancel = (\<lambda>c i d. commit (so_RequestRunCancel ops c i (tables d))),
          so_IsRunCancelRequested = (\<lambda>i d. so_IsRunCancelRequested ops i (tables d)),
          so_AppendRunEvent = (\<lambda>c i e d. commit (so_AppendRunEvent ops c i e (tables d))),
          so_ListRunEvents = (\<lambda>i d. so_ListRunEvents ops i (tables d))\<rparr>)"

lemma canonical_UUID [simp]: "pg_UUIDIn (canonical env) s = Some i \<longleftrightarrow> isUUID s \<and> i = s"
  by (auto simp: canonical_def)

lemma database_reads [simp]:
  "so_GetRun (databaseOps env fresh) rid d = found (canonical env) rid (tables d)"
  "so_IsRunCancelRequested (databaseOps env fresh) rid d \<longleftrightarrow> isUUID rid \<and> cancelRequested rid (tables d)"
  by (auto simp: databaseOps_def postgresOps_def found_def pgIsRunCancelRequested_def readIO_def stmt_def canonical_def)

lemma database_tables: "txSteps env (tables d) db \<Longrightarrow> tables (Database db) = db"
  using tables_Database txs_integrity tables_integrity by blast

lemma database_lifecycle [simp]:
  "tables (so_MarkRunStarted (databaseOps env fresh) c rid d) = pgMarkRunStarted (canonical env) (quietIO fresh c (tables d)) rid (tables d)"
  "tables (so_CompleteRun (databaseOps env fresh) c rid rep d) = pgCompleteRun (canonical env) (quietIO fresh c (tables d)) rid rep (tables d)"
  "tables (so_CancelRun (databaseOps env fresh) c rid rep d) = pgCancelRun (canonical env) (quietIO fresh c (tables d)) rid rep (tables d)"
  "tables (so_ErrorRun (databaseOps env fresh) c rid err d) = pgErrorRun (canonical env) (quietIO fresh c (tables d)) rid err (tables d)"
  by (simp_all add: databaseOps_def postgresOps_def database_tables [OF tx_lifecycle(1)] database_tables [OF tx_lifecycle(2)]
      database_tables [OF tx_lifecycle(3)] database_tables [OF tx_lifecycle(4)])

lemma database_runs [simp]:
  "tables (snd (so_CreateRun (databaseOps env fresh) c sid tid sc ref d)) =
     snd (pgCreateRun (canonical env) (quietIO fresh c (tables d)) sid tid sc ref (tables d))"
  "tables (snd (so_RequestRunCancel (databaseOps env fresh) c rid d)) =
     snd (pgRequestRunCancel (canonical env) (quietIO fresh c (tables d)) rid (tables d))"
  "tables (snd (so_AppendRunEvent (databaseOps env fresh) c rid e d)) =
     snd (pgAppendRunEvent (canonical env) (quietIO fresh c (tables d)) rid e (tables d))"
  "fst (so_CreateRun (databaseOps env fresh) c sid tid sc ref d) =
     fst (pgCreateRun (canonical env) (quietIO fresh c (tables d)) sid tid sc ref (tables d))"
  "fst (so_RequestRunCancel (databaseOps env fresh) c rid d) =
     fst (pgRequestRunCancel (canonical env) (quietIO fresh c (tables d)) rid (tables d))"
  by (simp_all add: databaseOps_def postgresOps_def commit_def database_tables [OF tx_runs(1)] database_tables [OF tx_runs(2)]
      database_tables [OF tx_append])

lemma database_catalog [simp]:
  "tables (snd (so_CreateTarget (databaseOps env fresh) c t d)) = snd (pgCreateTarget (canonical env) (quietIO fresh c (tables d)) t (tables d))"
  "tables (snd (so_UpdateTarget (databaseOps env fresh) c tid t d)) =
     snd (pgUpdateTarget (canonical env) (quietIO fresh c (tables d)) tid t (tables d))"
  "tables (snd (so_DeleteTarget (databaseOps env fresh) tid d)) = snd (pgDeleteTarget (canonical env) readIO tid (tables d))"
  "tables (snd (so_CreateScenario (databaseOps env fresh) c sc d)) =
     snd (pgCreateScenario (canonical env) (quietIO fresh c (tables d)) sc (tables d))"
  "tables (snd (so_UpdateScenario (databaseOps env fresh) c sid sc d)) =
     snd (pgUpdateScenario (canonical env) (quietIO fresh c (tables d)) sid sc (tables d))"
  by (simp_all add: databaseOps_def postgresOps_def commit_def database_tables [OF tx_catalog(1)] database_tables [OF tx_catalog(2)]
      database_tables [OF tx_catalog(3)] database_tables [OF tx_scenario(1)] database_tables [OF tx_scenario(2)])

text \<open>The laws of the lifecycle calls, for any of the four.\<close>

lemma database_write:
  assumes "runWrite (databaseOps env fresh) j d d'"
  shows "cancelRequested i (tables d') = cancelRequested i (tables d)"
    and "tables d' = tables d \<or> (isUUID j \<and> touches j (tables d) (tables d'))"
    and "found (canonical env) j (tables d) = Some r \<Longrightarrow> isTerminalRunStatus (run_Status r) \<Longrightarrow> tables d' = tables d"
proof -
  show "cancelRequested i (tables d') = cancelRequested i (tables d)"
    using assms by (cases rule: runWrite.cases) (simp_all add: write_requested)
  show "tables d' = tables d \<or> (isUUID j \<and> touches j (tables d) (tables d'))"
    using assms write_touches [where env = "canonical env" and rid = j and db = "tables d"] by (cases rule: runWrite.cases) auto
  assume r: "found (canonical env) j (tables d) = Some r" "isTerminalRunStatus (run_Status r)"
  have "\<not> activeRow x" if "pg_UUIDIn (canonical env) j = Some k" "find (\<lambda>r. rw_id r = k) (db_runs (tables d)) = Some x" for k x
    using found_row [OF r(1)] r(2) that by auto
  note same = write_inactive [OF tables_integrity this]
  show "tables d' = tables d"
    using assms by (cases rule: runWrite.cases) (simp_all add: same)
qed

interpretation pg: run_store "databaseOps env fresh"
proof
  fix rid j s s' r clock rep err event scenarioID targetID sc ref target
  let ?ops = "databaseOps env fresh"
  show "so_GetRun ?ops rid s = Some r \<Longrightarrow> \<not> isTerminalRunStatus (run_Status r) \<Longrightarrow>
      \<exists>r'. so_GetRun ?ops rid (so_MarkRunStarted ?ops clock rid s) = Some r' \<and> run_Status r' = RunRunning"
    by (simp add: write_active)
  show "so_GetRun ?ops rid s = Some r \<Longrightarrow> \<not> isTerminalRunStatus (run_Status r) \<Longrightarrow>
      \<exists>r'. so_GetRun ?ops rid (so_CompleteRun ?ops clock rid rep s) = Some r' \<and> run_Status r' = runStatusOf rep"
    by (simp add: report_active)
  show "so_GetRun ?ops rid s = Some r \<Longrightarrow> \<not> isTerminalRunStatus (run_Status r) \<Longrightarrow>
      \<exists>r'. so_GetRun ?ops rid (so_CancelRun ?ops clock rid rep s) = Some r' \<and> run_Status r' = RunCanceled"
    by (simp add: report_active)
  show "so_GetRun ?ops rid s = Some r \<Longrightarrow> \<not> isTerminalRunStatus (run_Status r) \<Longrightarrow>
      \<exists>r'. so_GetRun ?ops rid (so_ErrorRun ?ops clock rid err s) = Some r' \<and> run_Status r' = RunErrored \<and> run_Error r' = err"
    by (simp add: write_active)
  show "runWrite ?ops rid s s' \<Longrightarrow> so_GetRun ?ops rid s = Some r \<Longrightarrow> isTerminalRunStatus (run_Status r) \<Longrightarrow>
      so_GetRun ?ops rid s' = Some r"
    by (simp add: database_write(3))
  show "runWrite ?ops rid s s' \<Longrightarrow> so_GetRun ?ops rid s = None \<Longrightarrow> so_GetRun ?ops rid s' = None"
    using database_write(2) [of env fresh rid s s'] found_touched(2) [of rid "tables s" "tables s'"] by auto
  show "runWrite ?ops j s s' \<Longrightarrow> rid \<noteq> j \<Longrightarrow> so_GetRun ?ops rid s' = so_GetRun ?ops rid s"
    using database_write(2) [of env fresh j s s'] found_touched(1) [of j "tables s" "tables s'" "canonical env" rid] by auto
  show "runWrite ?ops j s s' \<Longrightarrow> so_IsRunCancelRequested ?ops rid s' = so_IsRunCancelRequested ?ops rid s"
    by (simp add: database_write(1))
  show "so_GetRun ?ops rid (snd (so_AppendRunEvent ?ops clock j event s)) = so_GetRun ?ops rid s"
    by simp
  show "so_IsRunCancelRequested ?ops rid s \<Longrightarrow> so_IsRunCancelRequested ?ops rid (snd (so_AppendRunEvent ?ops clock j event s))"
    by (simp add: append_requested(2))
  show "so_IsRunCancelRequested ?ops rid (snd (so_AppendRunEvent ?ops clock j event s)) \<Longrightarrow>
      so_IsRunCancelRequested ?ops rid s \<or> (j = rid \<and> ev_Type event = TypeCancelRequested)"
    by (auto dest: append_requested(1))
  show "so_GetRun ?ops rid (snd (so_RequestRunCancel ?ops clock j s)) = so_GetRun ?ops rid s"
    by (simp add: request_found)
  show "fst (so_RequestRunCancel ?ops clock rid s) \<Longrightarrow> so_GetRun ?ops rid s = Some r \<Longrightarrow> isCancelableRunStatus (run_Status r)"
    by (auto dest!: request_accepts found_row)
  show "so_IsRunCancelRequested ?ops rid (snd (so_RequestRunCancel ?ops clock j s)) \<longleftrightarrow>
      so_IsRunCancelRequested ?ops rid s \<or> (j = rid \<and> fst (so_RequestRunCancel ?ops clock j s))"
    by (auto simp: request_requested dest: request_accepts)
  show "so_GetRun ?ops rid s' = so_GetRun ?ops rid s" if "so_CreateRun ?ops clock scenarioID targetID sc ref s = (r, s')" "rid \<noteq> run_ID r"
    using that database_runs(1,4) [of env fresh clock scenarioID targetID sc ref s] by (auto intro!: create_found [OF prod.collapse [symmetric]])
  show "so_CreateRun ?ops clock scenarioID targetID sc ref s = (r, s') \<Longrightarrow>
      so_IsRunCancelRequested ?ops rid s' = so_IsRunCancelRequested ?ops rid s"
    using database_runs(1) [of env fresh clock scenarioID targetID sc ref s] by (simp add: create_requested)
  show "rel_option sameRun (so_GetRun ?ops rid s) (so_GetRun ?ops rid (snd (so_DeleteTarget ?ops targetID s)))"
    by (simp add: delete_found)
qed (simp_all add: targets_found scenarios_found option.rel_refl catalog_requested)

lemma statusName_known: "knownRunStatus (statusName st)"
  by (cases st) (simp_all add: statusName_def knownRunStatus_def isCancelableRunStatus_def)


section \<open>Concrete runs\<close>

definition completedDB :: DB where
  "completedDB = pgCompleteRun sampleEnv (later 9 (sampleIO (\<lambda>_. False))) ''u1'' passedReport runDB"


text \<open>A database with one queued run, with identifiers as Postgres makes them.\<close>

definition sampleUUID :: "nat \<Rightarrow> string" where
  "sampleUUID i = ''00000000-0000-4000-8000-00000000000'' @ Itoa (int i)"

definition uuidIO :: PgIO where
  "uuidIO = \<lparr>pi_Fail = (\<lambda>_. False), pi_Now = (\<lambda>i. 1000 * int i), pi_UUID = sampleUUID\<rparr>"

definition uuidEnv :: PgEnv where
  "uuidEnv = sampleEnv\<lparr>pg_ProjectID := sampleUUID 0\<rparr>"

definition uuidDB :: DB where
  "uuidDB = snd (pgCreateRun (canonical uuidEnv) uuidIO '''' '''' checkoutRace [] (snd (NewPostgres uuidIO emptyDB)))"

lemma uuidDB_integrity: "integrity uuidDB"
  unfolding uuidDB_def by (rule txs_integrity [OF tx_runs(1) txs_integrity [OF tx_catalog(4) integrity_empty]])

definition databaseExecutor :: "(database, BlobMemory) Executor" where
  "databaseExecutor = \<lparr>ex_Store = databaseOps uuidEnv (\<lambda>_. sampleUUID), ex_BlobStore = Some blobMemoryOps,
     ex_Runner = (\<lambda>_ _. Inr passedReport), ex_Timeout = 0, ex_CancelCheckInterval = 0\<rparr>"


end
