(* ===== verification/Worker.thy ===== *)
theory Worker
  imports RunExec
begin

text \<open>
  \<^verbatim>\<open>internal/runqueue/asynq.go\<close>, the queue of run tasks, and \<^verbatim>\<open>internal/worker/worker.go\<close>, the handler of such a task.

  The asynq library is not part of the sources. A task is its type and its payload; the client that stores a task
  (\<^verbatim>\<open>asynq.Client.EnqueueContext\<close>) is the parameter \<open>enqueue\<close>; what asynq keeps in the context of a delivery is a record of
  options, each \<open>None\<close> where the getter of asynq returns false. The text of a decoding error of \<^verbatim>\<open>encoding/json\<close> is the
  parameter \<open>jsonErr\<close>.
\<close>

section \<open>The queue\<close>

definition QueueRuns :: string where "QueueRuns = ''runs''"
definition TypeRunExecute :: string where "TypeRunExecute = ''runs.execute''"

record RunPayload =
  pl_RunID :: string

record Task =
  tk_Type :: string
  tk_Payload :: string

record EnqueueOptions =
  eo_Queue :: string
  eo_MaxRetry :: int
  eo_Timeout :: int

definition NewAsynqEnqueuer :: "int \<Rightarrow> EnqueueOptions" where
  "NewAsynqEnqueuer timeout =
     \<lparr>eo_Queue = QueueRuns, eo_MaxRetry = 3, eo_Timeout = (if timeout \<le> 0 then 5 * Minute else timeout)\<rparr>"

text \<open>\<^verbatim>\<open>json.Marshal\<close> of the payload: an object with one member. It has no failing case for a struct of one string.\<close>

definition encodePayload :: "RunPayload \<Rightarrow> string" where
  "encodePayload p = CHR ''{'' # encodeString ''run_id'' @ CHR '':'' # encodeString (pl_RunID p) @ ''}''"

definition NewRunTask :: "string \<Rightarrow> Task" where
  "NewRunTask runID = \<lparr>tk_Type = TypeRunExecute, tk_Payload = encodePayload \<lparr>pl_RunID = runID\<rparr>\<rparr>"

text \<open>
  \<^verbatim>\<open>json.Unmarshal\<close> into the payload: the member named \<^verbatim>\<open>run_id\<close>, in any case, must be a string or null; a
  later member overwrites an earlier one; other members are skipped; a value that is neither an object nor null is an
  error. An error of one member leaves the rest to be decoded and is returned at the end.
\<close>

fun decodePayloadMembers :: "(string \<times> json) list \<Rightarrow> string \<Rightarrow> bool \<Rightarrow> string \<times> bool" where
  "decodePayloadMembers [] runID bad = (runID, bad)"
| "decodePayloadMembers ((k, v) # ms) runID bad =
     (if EqualFold k ''run_id'' then
        (case v of
           JStr s \<Rightarrow> decodePayloadMembers ms s bad
         | JNull \<Rightarrow> decodePayloadMembers ms runID bad
         | _ \<Rightarrow> decodePayloadMembers ms runID True)
      else decodePayloadMembers ms runID bad)"

definition DecodeRunPayload :: "(string \<Rightarrow> string) \<Rightarrow> Task \<Rightarrow> RunPayload result" where
  "DecodeRunPayload jsonErr task =
     (case parseJSON (tk_Payload task) of
        None \<Rightarrow> Inl (jsonErr (tk_Payload task))
      | Some v \<Rightarrow>
          (case v of
             JObj ms \<Rightarrow>
               (let (runID, bad) = decodePayloadMembers ms '''' False
                in if bad then Inl (jsonErr (tk_Payload task)) else Inr \<lparr>pl_RunID = runID\<rparr>)
           | JNull \<Rightarrow> Inr \<lparr>pl_RunID = ''''\<rparr>
           | _ \<Rightarrow> Inl (jsonErr (tk_Payload task))))"

definition EnqueueRun :: "(EnqueueOptions \<Rightarrow> Task \<Rightarrow> 'q \<Rightarrow> string option \<times> 'q) \<Rightarrow> EnqueueOptions \<Rightarrow> string \<Rightarrow> 'q \<Rightarrow> string option \<times> 'q" where
  "EnqueueRun enqueue opts runID q = enqueue opts (NewRunTask runID) q"

section \<open>The handler\<close>

record TaskInfo =
  ti_TaskID :: string
  ti_Queue :: string
  ti_RetryCount :: int
  ti_MaxRetry :: int
  ti_Known :: bool

record TaskContext =
  tc_TaskID :: "string option"
  tc_QueueName :: "string option"
  tc_RetryCount :: "int option"
  tc_MaxRetry :: "int option"

definition taskInfoFromAsynq :: "TaskContext \<Rightarrow> TaskInfo" where
  "taskInfoFromAsynq ctx =
     (let info = \<lparr>ti_TaskID = (case tc_TaskID ctx of None \<Rightarrow> '''' | Some t \<Rightarrow> t),
                  ti_Queue = (case tc_QueueName ctx of None \<Rightarrow> '''' | Some q \<Rightarrow> q),
                  ti_RetryCount = 0, ti_MaxRetry = 0, ti_Known = False\<rparr>
      in case (tc_RetryCount ctx, tc_MaxRetry ctx) of
           (Some retryCount, Some maxRetry) \<Rightarrow>
             info\<lparr>ti_RetryCount := retryCount, ti_MaxRetry := maxRetry, ti_Known := True\<rparr>
         | _ \<Rightarrow> info)"

record 's Handler =
  hd_Events :: "'s StoreOps option"
  hd_TaskInfo :: "(TaskContext \<Rightarrow> TaskInfo) option"

definition taskInfo :: "'s Handler \<Rightarrow> TaskContext \<Rightarrow> TaskInfo" where
  "taskInfo h ctx = (case hd_TaskInfo h of Some f \<Rightarrow> f ctx | None \<Rightarrow> taskInfoFromAsynq ctx)"

definition workerMetadata :: "TaskInfo \<Rightarrow> Task \<Rightarrow> meta gomap \<Rightarrow> meta gomap" where
  "workerMetadata info task md =
     (let md = mapSet ''task_type'' (MString (tk_Type task)) md;
          md = (if ti_TaskID info \<noteq> '''' then mapSet ''task_id'' (MString (ti_TaskID info)) md else md);
          md = (if ti_Queue info \<noteq> '''' then mapSet ''queue'' (MString (ti_Queue info)) md else md)
      in if ti_Known info
         then mapSet ''max_retries'' (MInt (ti_MaxRetry info))
                (mapSet ''retry_count'' (MInt (ti_RetryCount info))
                   (mapSet ''attempt'' (MInt (ti_RetryCount info + 1)) md))
         else md)"

definition recordWorkerEvent :: "clock \<Rightarrow> 's Handler \<Rightarrow> TaskContext \<Rightarrow> Task \<Rightarrow> string \<Rightarrow> Event \<Rightarrow> 's \<Rightarrow> 's" where
  "recordWorkerEvent clock h ctx task runID event s =
     (case hd_Events h of
        None \<Rightarrow> s
      | Some store \<Rightarrow>
          (let md = (case ev_Metadata event of None \<Rightarrow> [] | Some m \<Rightarrow> m)
           in snd (so_AppendRunEvent store clock runID
                (event\<lparr>ev_Metadata := Some (workerMetadata (taskInfo h ctx) task md)\<rparr>) s)))"

text \<open>\<open>execute\<close> is the method of the executor the handler holds.\<close>

definition handleRunExecute :: "(string \<Rightarrow> string) \<Rightarrow> clock \<Rightarrow> (string \<Rightarrow> 's \<times> 'b \<Rightarrow> string option \<times> 's \<times> 'b) \<Rightarrow>
    's Handler \<Rightarrow> TaskContext \<Rightarrow> Task \<Rightarrow> 's \<times> 'b \<Rightarrow> string option \<times> 's \<times> 'b" where
  "handleRunExecute jsonErr clock execute h ctx task sb =
     (case DecodeRunPayload jsonErr task of
        Inl err \<Rightarrow> (Some (''decode run task: '' @ err), sb)
      | Inr payload \<Rightarrow>
          (if pl_RunID payload = '''' then (Some ''run task missing run_id'', sb)
           else let s' = recordWorkerEvent clock h ctx task (pl_RunID payload)
                           (newEvent LevelInfo TypeWorkerAttemptStarted ''worker attempt started'' None) (fst sb)
                in execute (pl_RunID payload) (s', snd sb)))"

definition HandleError :: "(string \<Rightarrow> string) \<Rightarrow> clock \<Rightarrow> 's Handler \<Rightarrow> TaskContext \<Rightarrow> Task \<Rightarrow> string \<Rightarrow> 's \<Rightarrow> 's" where
  "HandleError jsonErr clock h ctx task err s =
     (case DecodeRunPayload jsonErr task of
        Inl _ \<Rightarrow> s
      | Inr payload \<Rightarrow>
          (if pl_RunID payload = '''' then s
           else let info = taskInfo h ctx;
                    md = Some [(''error'', MString err)];
                    s1 = recordWorkerEvent clock h ctx task (pl_RunID payload)
                           (newEvent LevelError TypeWorkerAttemptFailed ''worker attempt failed'' md) s
                in if ti_Known info \<and> ti_RetryCount info \<ge> ti_MaxRetry info
                   then recordWorkerEvent (clock \<circ> Suc) h ctx task (pl_RunID payload)
                          (newEvent LevelError TypeWorkerDeadLettered ''worker retries exhausted'' md) s1
                   else if ti_Known info
                   then recordWorkerEvent (clock \<circ> Suc) h ctx task (pl_RunID payload)
                          (newEvent LevelWarn TypeWorkerRetryScheduled ''worker retry scheduled'' md) s1
                   else s1))"

section \<open>A task carries its run\<close>

lemma skipWs_plain [simp]:
  "skipWs (CHR ''{'' # s) = CHR ''{'' # s" "skipWs (dquote # s) = dquote # s" "skipWs (CHR '':'' # s) = CHR '':'' # s"
  "skipWs (CHR ''}'' # s) = CHR ''}'' # s" "skipWs [] = []"
  by (simp_all add: skipWs_def isJsonSpace_def code_def dquote_def)

lemma parse_encodeString:
  "parseValue (Suc f) d (encodeString s @ t) = Some (JStr s, t)"
  by (simp add: encodeString_def parseStr_encode) (simp add: dquote_def)

lemma parse_encodePayload: "parseJSON (encodePayload p) = Some (JObj [(''run_id'', JStr (pl_RunID p))])"
proof -
  obtain f where f: "2 * length (encodePayload p) + 4 = Suc (Suc (Suc f))"
    using that [of "2 * length (encodePayload p) + 1"] by simp
  have m: "parseMembers (Suc (Suc f)) d (encodeString ''run_id'' @ CHR '':'' # encodeString (pl_RunID p) @ ''}'') =
      Some ([(''run_id'', JStr (pl_RunID p))], [])" for d
    using parse_encodeString [of f d "pl_RunID p" "''}''"] parseStr_encode [of "''run_id''"]
    by (simp add: encodeString_def [of "''run_id''"] HasPrefix_def del: parseValue.simps)
  have "HasPrefix (skipWs (encodeString ''run_id'' @ t)) ''}'' = False" for t
    by (simp add: encodeString_def HasPrefix_def) (simp add: dquote_def)
  then have "parseValue (Suc (Suc (Suc f))) maxNestingDepth (encodePayload p) =
      Some (JObj [(''run_id'', JStr (pl_RunID p))], [])"
    by (simp add: encodePayload_def m maxNestingDepth_def del: parseMembers.simps)
  then show ?thesis
    by (simp only: parseJSON_def f) simp
qed

lemma DecodeRunPayload_NewRunTask: "DecodeRunPayload jsonErr (NewRunTask runID) = Inr \<lparr>pl_RunID = runID\<rparr>"
  by (simp add: DecodeRunPayload_def NewRunTask_def parse_encodePayload EqualFold_def)

text \<open>
  A task carries its run: the payload of a task made for a run decodes to the identifier of that run, for every
  identifier of ASCII characters, whatever it contains.
\<close>

theorem run_task_roundtrip:
  assumes "list_all (\<lambda>c. code c < 128) runID"
  shows "DecodeRunPayload jsonErr (NewRunTask runID) = Inr \<lparr>pl_RunID = runID\<rparr> \<and> tk_Type (NewRunTask runID) = TypeRunExecute"
  using DecodeRunPayload_NewRunTask by (simp add: NewRunTask_def)

theorem run_task_roundtrip_witness:
  "DecodeRunPayload (\<lambda>_. ''bad'') (NewRunTask (''a'' @ [dquote] @ ''<b>'')) = Inr \<lparr>pl_RunID = ''a'' @ [dquote] @ ''<b>''\<rparr>"
  using run_task_roundtrip [of "''a'' @ [dquote] @ ''<b>''" "\<lambda>_. ''bad''"] by (simp add: dquote_def code_def)

section \<open>Deliveries on the memory store\<close>

lemma reachable_append: "memReachable m \<Longrightarrow> memReachable (snd (AppendRunEvent clock runID event m))"
  by (erule rtranclp.rtrancl_into_rtrancl) (rule memStep.appendEvent)

lemma recordWorkerEvent_frame:
  assumes "hd_Events h = None \<or> hd_Events h = Some (memoryOps a b c)"
  shows "GetRun j (recordWorkerEvent clock h ctx task runID event m) = GetRun j m"
    and "memReachable m \<Longrightarrow> memReachable (recordWorkerEvent clock h ctx task runID event m)"
  using assms
  by (auto simp: recordWorkerEvent_def Let_def intro: reachable_append)

text \<open>
  A delivered task finishes its run: when the queue delivers the task of a run that the memory store holds, the run is
  finished when the handler returns, whatever the runner does and whatever other clients do meanwhile.
\<close>

theorem delivered_task_finishes_run:
  assumes "memReachable m" and "GetRun runID m = Some r" and "runID \<noteq> ''''"
    and "hd_Events h = None \<or> hd_Events h = Some (memoryOps iterT iterS iterR)"
    and "anyClients (memoryOps iterT iterS iterR) runID w" and "ex_Store e = memoryOps iterT iterS iterR"
  shows "\<exists>err m' b' r'. handleRunExecute jsonErr clock (Execute encode e w) h ctx (NewRunTask runID) (m, b) = (err, m', b') \<and>
    GetRun runID m' = Some r' \<and> isTerminalRunStatus (run_Status r')"
proof -
  define m1 where "m1 = recordWorkerEvent clock h ctx (NewRunTask runID) runID
    (newEvent LevelInfo TypeWorkerAttemptStarted ''worker attempt started'' None) m"
  have "memReachable m1" and g: "GetRun runID m1 = Some r"
    using recordWorkerEvent_frame [OF assms(4)] assms(1,2) by (auto simp: m1_def)
  then have "knownRunStatus (run_Status r)"
    using reachable_invariants(1) [of m1] by (auto simp: runsWf_def runWf_def)
  moreover obtain err m' b' where ex: "Execute encode e w runID (m1, b) = (err, m', b')"
    by (cases "Execute encode e w runID (m1, b)")
  ultimately have "\<exists>r'. GetRun runID m' = Some r' \<and> isTerminalRunStatus (run_Status r')"
    using mem.Execute_finishes [OF assms(5) _ _ assms(6) ex] g by simp
  moreover have "handleRunExecute jsonErr clock (Execute encode e w) h ctx (NewRunTask runID) (m, b) = (err, m', b')"
    using assms(3) ex by (simp add: handleRunExecute_def DecodeRunPayload_NewRunTask Let_def m1_def)
  ultimately show ?thesis
    by blast
qed

definition sampleHandler :: "Memory Handler" where
  "sampleHandler = \<lparr>hd_Events = Some plainMemory, hd_TaskInfo = None\<rparr>"

definition sampleContext :: TaskContext where
  "sampleContext = \<lparr>tc_TaskID = Some ''t1'', tc_QueueName = Some ''runs'', tc_RetryCount = Some 3, tc_MaxRetry = Some 3\<rparr>"

theorem delivered_task_finishes_run_witness:
  "\<exists>err m' b' r'. handleRunExecute (\<lambda>_. '''') sampleClock (Execute statusText sampleExecutor quietWorld) sampleHandler
       sampleContext (NewRunTask ''run_7'') (queuedState, NewMemoryStore) = (err, m', b') \<and>
     GetRun ''run_7'' m' = Some r' \<and> isTerminalRunStatus (run_Status r')"
  by (rule queuedRun, rule delivered_task_finishes_run [OF queuedState_reachable _ _ _ quiet(1) sampleExecutor_store])
    (simp_all add: sampleHandler_def plainMemory_def)

text \<open>
  A failed attempt is reported: the error handler appends one event that says so, then one that says the retries are
  exhausted when the retry count has reached the maximum and one that says a retry is scheduled when it has not, to
  the log of the run of the task and to no other, and it leaves every run as it is.
\<close>

theorem HandleError_reports:
  assumes "hd_Events h = Some (memoryOps iterT iterS iterR)" and "runID \<noteq> ''''" and "ti_Known (taskInfo h ctx)"
  shows "map ev_Type (ListRunEvents j (HandleError jsonErr clock h ctx (NewRunTask runID) err m)) =
      map ev_Type (ListRunEvents j m) @
      (if j = runID then [TypeWorkerAttemptFailed,
         if ti_RetryCount (taskInfo h ctx) \<ge> ti_MaxRetry (taskInfo h ctx) then TypeWorkerDeadLettered
         else TypeWorkerRetryScheduled] else []) \<and>
    GetRun j (HandleError jsonErr clock h ctx (NewRunTask runID) err m) = GetRun j m"
  using assms by (auto simp: HandleError_def DecodeRunPayload_NewRunTask recordWorkerEvent_def AppendRunEvent_def Let_def)

theorem HandleError_reports_witness:
  "map ev_Type (ListRunEvents ''run_7'' (HandleError (\<lambda>_. '''') sampleClock sampleHandler sampleContext (NewRunTask ''run_7'') ''boom'' queuedState)) =
     [TypeRunQueued, TypeWorkerAttemptFailed, TypeWorkerDeadLettered]"
proof -
  have "ti_Known (taskInfo sampleHandler sampleContext)"
    by (simp add: taskInfo_def sampleHandler_def taskInfoFromAsynq_def sampleContext_def)
  moreover have "hd_Events sampleHandler = Some (memoryOps (\<lambda>x. x) (\<lambda>x. x) (\<lambda>x. x))"
    by (simp add: sampleHandler_def plainMemory_def)
  moreover have "map ev_Type (ListRunEvents ''run_7'' queuedState) = [TypeRunQueued]"
    by code_simp
  ultimately show ?thesis
    using HandleError_reports [of sampleHandler "\<lambda>x. x" "\<lambda>x. x" "\<lambda>x. x" "''run_7''" sampleContext "''run_7''" "\<lambda>_. ''''"
        sampleClock "''boom''" queuedState]
    by (simp add: taskInfo_def sampleHandler_def taskInfoFromAsynq_def sampleContext_def)
qed

text \<open>A handler without an event store, as the one the worker process registers, records no attempt.\<close>

lemma handler_without_events:
  "hd_Events h = None \<Longrightarrow> recordWorkerEvent clock h ctx task runID event s = s"
  by (simp add: recordWorkerEvent_def)

end
