(* ===== verification/Commands.thy ===== *)
theory Commands
  imports GoFlag HttpRoutes K6Runner PostgresStore Worker
begin

text \<open>
  The programs: \<^verbatim>\<open>internal/app/store.go\<close>, which opens the stores a configuration names, and the three commands
  \<^verbatim>\<open>cmd/wreckr\<close>, \<^verbatim>\<open>cmd/worker\<close> and \<^verbatim>\<open>cmd/api\<close>.

  A command of \<^verbatim>\<open>cmd/wreckr\<close> is a function from its arguments to its exit status, what it prints and the file it writes. The file
  system, the decoder of a scenario and the encoder of a report are parameters; \<open>world\<close> is what a run with a given timeout
  meets.
\<close>

section \<open>Stores\<close>

datatype opened = OpenedMemory Memory | OpenedPostgres string DB

definition UnknownStoreError :: "string \<Rightarrow> string" where
  "UnknownStoreError backend = ''unknown WRECKR_STORE backend: '' @ backend"

text \<open>\<open>pgErr\<close> is the text of the error with which the database is not opened.\<close>

definition OpenStore :: "PgIO \<Rightarrow> string \<Rightarrow> DB \<Rightarrow> Config \<Rightarrow> opened result" where
  "OpenStore w pgErr db cfg =
     (let backend = ToLower (cf_StoreBackend cfg)
      in if backend = '''' \<or> backend = ''memory'' then Inr (OpenedMemory NewMemory)
         else if backend = ''postgres'' \<or> backend = ''postgresql'' then
           (case NewPostgres w db of (None, _) \<Rightarrow> Inl pgErr | (Some projectID, db') \<Rightarrow> Inr (OpenedPostgres projectID db'))
         else Inl (UnknownStoreError (cf_StoreBackend cfg)))"

datatype 'c openedBlob = OpenedBlobMemory BlobMemory | OpenedS3 "'c S3Client" string

definition OpenBlobStore :: "(S3Options \<Rightarrow> 'c S3Client result) \<Rightarrow> Config \<Rightarrow> 'c openedBlob result" where
  "OpenBlobStore connect cfg =
     (if ToLower (cf_StoreBackend cfg) = ''memory'' \<or> s3_Endpoint (cf_S3 cfg) = '''' then Inr (OpenedBlobMemory NewMemoryStore)
      else case NewS3Store connect (cf_S3 cfg) of Inl err \<Rightarrow> Inl err | Inr (client, bucket) \<Rightarrow> Inr (OpenedS3 client bucket))"

text \<open>With a configuration of the environment, runs in memory keep their reports in memory.\<close>

lemma memory_has_no_s3:
  assumes "OpenStore w pgErr db (FromEnv env) = Inr (OpenedMemory m)"
  shows "OpenBlobStore connect (FromEnv env) = Inr (OpenedBlobMemory NewMemoryStore)"
proof -
  have "ToLower (envString env ''WRECKR_STORE'' ''memory'') \<noteq> ''''"
    by (simp add: envString_def ToLower_def)
  then show ?thesis
    using assms by (auto simp: OpenStore_def OpenBlobStore_def FromEnv_def Let_def split: if_splits option.splits prod.splits)
qed

section \<open>The command line\<close>

record Process =
  pr_Code :: int
  pr_Stdout :: string
  pr_Stderr :: string
  pr_Wrote :: "(string \<times> string) list"

definition exitWith :: "int \<Rightarrow> string \<Rightarrow> Process" where
  "exitWith status err = \<lparr>pr_Code = status, pr_Stdout = '''', pr_Stderr = err, pr_Wrote = []\<rparr>"

definition tab :: string where "tab = [CHR 9]"

definition runUsage :: string where
  "runUsage = line ''Usage of run:'' @ line ''  -json'' @ line (''    '' @ tab @ ''print JSON report'') @
     line ''  -timeout duration'' @ line (''    '' @ tab @ ''maximum run duration (default 5m0s)'')"

definition runFlags :: flags where
  "runFlags = [(''json'', BoolFlag), (''timeout'', DurationFlag)]"

definition wreckrRun :: "(string \<Rightarrow> string result) \<Rightarrow> (string \<Rightarrow> Scenario result) \<Rightarrow> (Report \<Rightarrow> string result) \<Rightarrow> (int \<Rightarrow> RunIO) \<Rightarrow>
    string list \<Rightarrow> Process" where
  "wreckrRun readFile decode encode world args =
     (case parseFlags runUsage runFlags [] args of
        ParseExit status err \<Rightarrow> exitWith status err
      | Parsed got rest \<Rightarrow>
          (let jsonOutput = (flagOr ''json'' (FlagBool False) got = FlagBool True);
               timeout = (case flagOr ''timeout'' (FlagDuration (5 * Minute)) got of FlagDuration d \<Rightarrow> d | _ \<Rightarrow> 0);
               w = world timeout
           in case rest of
                [path] \<Rightarrow>
                  (case LoadFile (ri_Env w) decode (readFile path) of
                     Inl err \<Rightarrow> exitWith 2 (line err)
                   | Inr sc \<Rightarrow>
                       (case RunWithOptions w '''' sc of
                          (Inl err, _) \<Rightarrow> exitWith 1 (line err)
                        | (Inr rep, _) \<Rightarrow>
                            (case (if jsonOutput then map_sum id line (encode rep) else Inr (ReportText rep)) of
                               Inl err \<Rightarrow> exitWith 1 (line err)
                             | Inr out \<Rightarrow>
                                 (exitWith (if rp_Status rep \<noteq> StatusPassed then 1 else 0) '''')\<lparr>pr_Stdout := out\<rparr>)))
              | _ \<Rightarrow> exitWith 2 (line ''scenario file is required'' @ line ''usage: wreckr run [flags] <scenario.json>'')))"

definition compileUsage :: string where
  "compileUsage = line ''Usage of compile-k6:'' @ line ''  -o string'' @ line (''    '' @ tab @ ''write generated k6 script to this file'')"

definition compileFlags :: flags where
  "compileFlags = [(''o'', StringFlag)]"

definition wreckrCompileK6 :: "(string \<Rightarrow> string) \<Rightarrow> (string \<Rightarrow> string result) \<Rightarrow> (string \<Rightarrow> Scenario result) \<Rightarrow>
    (string \<Rightarrow> string \<Rightarrow> string option) \<Rightarrow> string list \<Rightarrow> Process" where
  "wreckrCompileK6 env readFile decode writeFile args =
     (case parseFlags compileUsage compileFlags [] args of
        ParseExit status err \<Rightarrow> exitWith status err
      | Parsed got rest \<Rightarrow>
          (let output = (case flagOr ''o'' (FlagString '''') got of FlagString s \<Rightarrow> s | _ \<Rightarrow> '''')
           in case rest of
                [path] \<Rightarrow>
                  (case LoadFile env decode (readFile path) of
                     Inl err \<Rightarrow> exitWith 2 (line err)
                   | Inr sc \<Rightarrow>
                       (case Compile env sc of
                          Inl err \<Rightarrow> exitWith 2 (line err)
                        | Inr script \<Rightarrow>
                            (if output = '''' then (exitWith 0 '''')\<lparr>pr_Stdout := ks_Content script\<rparr>
                             else case writeFile output (ks_Content script) of
                                    Some err \<Rightarrow> exitWith 1 (line err)
                                  | None \<Rightarrow> (exitWith 0 '''')\<lparr>pr_Wrote := [(output, ks_Content script)]\<rparr>)))
              | _ \<Rightarrow> exitWith 2 (line ''scenario file is required'' @ line ''usage: wreckr compile-k6 [-o script.js] <scenario.json>'')))"

definition wreckrUsage :: string where
  "wreckrUsage = line ''Wreckr - production scenario testing for backend systems'' @ line '''' @ line ''commands:'' @
     line ''  run <scenario.json>              run a scenario file'' @
     line ''  compile-k6 <scenario.json>       compile a scenario to a k6 script''"

text \<open>The command line holds the name of the program first.\<close>

definition wreckrMain :: "(string list \<Rightarrow> Process) \<Rightarrow> (string list \<Rightarrow> Process) \<Rightarrow> string list \<Rightarrow> Process" where
  "wreckrMain run compileK6 osArgs =
     (case osArgs of
        _ # command # args \<Rightarrow>
          (if command = ''run'' then run args else if command = ''compile-k6'' then compileK6 args else exitWith 2 wreckrUsage)
      | _ \<Rightarrow> exitWith 2 wreckrUsage)"


text \<open>
  C17: the exit status of \<^verbatim>\<open>wreckr run\<close> is the verdict. With a scenario file that loads, the command exits with 0 exactly when the
  scenario is valid after its variables are expanded once more, setup and teardown succeed, no request failed, and the
  thresholds and invariants hold; it exits with 1 in every other case, and never with the 2 of a wrong command line.
\<close>

theorem wreckr_run_exit:
  assumes "parseFlags runUsage runFlags [] args = Parsed got [path]"
    and "flagOr ''timeout'' (FlagDuration (5 * Minute)) got = FlagDuration timeout"
    and "w = world timeout" and "LoadFile (ri_Env w) decode (readFile path) = Inr sc0"
    and "\<forall>rep. \<exists>raw. encode rep = Inr raw"
    and "sc = effectiveScenario w sc0" and "runID = ri_NewRunID w" and "records = fst (ri_Traffic w runID sc)"
  shows "pr_Code (wreckrRun readFile decode encode world args) =
    (if Validate sc = None \<and> list_all ck_Passed (setupChecks w runID sc) \<and> \<not> list_ex failedRecord records \<and>
        thresholdsHold (sc_Thresholds sc) (Summarize records) \<and>
        list_all (invariantHolds w runID sc records) (enumerate 0 (sc_Invariants sc)) \<and>
        list_all ck_Passed (teardownChecks w runID sc)
     then 0 else 1)"
proof -
  obtain res es where r: "RunWithOptions w '''' sc0 = (res, es)"
    by (cases "RunWithOptions w '''' sc0")
  show ?thesis
  proof (cases res)
    case (Inl err)
    then have "Validate sc \<noteq> None"
      using r unfolding assms(6) by (auto simp: RunWithOptions_def effectiveScenario_def Let_def split: option.splits prod.splits if_splits)
    then show ?thesis
      using assms(1-4) r Inl by (simp add: wreckrRun_def exitWith_def)
  next
    case (Inr rep)
    obtain raw where "encode rep = Inr raw"
      using assms(5) by blast
    then have "pr_Code (wreckrRun readFile decode encode world args) = (if rp_Status rep \<noteq> StatusPassed then 1 else 0)"
      using assms(1-4) r Inr by (simp add: wreckrRun_def exitWith_def)
    moreover have "runID = effectiveRunID w ''''"
      by (simp add: effectiveRunID_def assms(7))
    ultimately show ?thesis
      using run_checks [OF r [unfolded Inr] assms(6) _ assms(8)] by simp
  qed
qed

theorem wreckr_run_exit_witness:
  "pr_Code (wreckrRun (\<lambda>_. Inr ''{}'') (\<lambda>_. Inr oneShot) (\<lambda>_. Inr ''{}'') (\<lambda>_. sampleRun) [''-json'', ''race.json'']) = 1"
proof -
  have p: "parseFlags runUsage runFlags [] [''-json'', ''race.json''] = Parsed [(''json'', FlagBool True)] [''race.json'']"
    by code_simp
  have t: "flagOr ''timeout'' (FlagDuration (5 * Minute)) [(''json'', FlagBool True)] = FlagDuration (5 * Minute)"
    by (simp add: flagOr_def)
  have v: "Validate (effectiveScenario sampleRun oneShot) = None"
    by code_simp
  have l: "LoadFile (ri_Env sampleRun) (\<lambda>_. Inr oneShot) (Inr ''{}'') = Inr (effectiveScenario sampleRun oneShot)"
    using v by (simp add: LoadFile_def effectiveScenario_def Let_def)
  have "\<not> list_all (invariantHolds sampleRun ''run_1'' (effectiveScenario sampleRun (effectiveScenario sampleRun oneShot)) [])
      (enumerate 0 (sc_Invariants (effectiveScenario sampleRun (effectiveScenario sampleRun oneShot))))"
    by code_simp
  then show ?thesis
    using wreckr_run_exit [OF p t refl, of "\<lambda>_. sampleRun" "\<lambda>_. Inr oneShot" "\<lambda>_. Inr ''{}''", OF l _ refl refl refl, of "\<lambda>_. Inr ''{}''"]
    by (simp add: sampleRun_def)
qed

section \<open>The worker process\<close>

text \<open>
  The two handlers of \<^verbatim>\<open>main\<close>: the one registered for the tasks has no event store, the error handler has one. The runner is chosen by the
  configuration.
\<close>

definition workerConcurrency :: "Config \<Rightarrow> int" where
  "workerConcurrency cfg = (if cf_WorkerConcurrency cfg \<le> 0 then 1 else cf_WorkerConcurrency cfg)"

definition workerRunner :: "(Scenario \<Rightarrow> string \<Rightarrow> Report result) \<Rightarrow> (Scenario \<Rightarrow> string \<Rightarrow> Report result) \<Rightarrow> Config \<Rightarrow>
    Scenario \<Rightarrow> string \<Rightarrow> Report result" where
  "workerRunner goRunner k6Runner cfg = (if cf_RunnerEngine cfg = ''k6'' then k6Runner else goRunner)"

definition workerExecutor :: "'s StoreOps \<Rightarrow> 'b BlobOps \<Rightarrow> (Scenario \<Rightarrow> string \<Rightarrow> Report result) \<Rightarrow> Config \<Rightarrow> ('s, 'b) Executor" where
  "workerExecutor st blobStore runner cfg =
     \<lparr>ex_Store = st, ex_BlobStore = Some blobStore, ex_Runner = runner, ex_Timeout = cf_RunTimeout cfg, ex_CancelCheckInterval = 0\<rparr>"

definition taskHandler :: "'s Handler" where
  "taskHandler = \<lparr>hd_Events = None, hd_TaskInfo = None\<rparr>"

definition errorHandler :: "'s StoreOps \<Rightarrow> 's Handler" where
  "errorHandler st = \<lparr>hd_Events = Some st, hd_TaskInfo = None\<rparr>"

text \<open>What the queue makes the process do: handle a task, or report an error of a task, in any order.\<close>

inductive workerStep :: "(string \<Rightarrow> string) \<Rightarrow> (Report \<Rightarrow> string result) \<Rightarrow> ('s, 'b) Executor \<Rightarrow> 's \<times> 'b \<Rightarrow> 's \<times> 'b \<Rightarrow> bool"
  for jsonErr encode e where
  handle: "handleRunExecute jsonErr clock (Execute encode e w) taskHandler ctx task sb = (err, sb') \<Longrightarrow> workerStep jsonErr encode e sb sb'"
| failed: "workerStep jsonErr encode e (s, b) (HandleError jsonErr clock (errorHandler (ex_Store e)) ctx task err s, b)"

inductive_cases workerStepE: "workerStep jsonErr encode e sb sb'"

lemma execute_missing: "so_GetRun (ex_Store e) runID s = None \<Longrightarrow> Execute encode e w runID (s, b) = (Some (''run '' @ Quote runID @ '' not found''), s, b)"
  by (simp add: Execute_def)

lemma handle_missing:
  assumes "\<And>runID. so_GetRun (ex_Store e) runID s = None"
  shows "\<exists>err. handleRunExecute jsonErr clock (Execute encode e w) taskHandler ctx task (s, b) = (Some err, s, b)"
  using assms
  by (auto simp: handleRunExecute_def taskHandler_def recordWorkerEvent_def execute_missing Let_def split: sum.split)

lemma HandleError_GetRun:
  assumes "hd_Events h = Some (memoryOps iterT iterS iterR)"
  shows "GetRun j (HandleError jsonErr clock h ctx task err m) = GetRun j m"
  using assms by (auto simp: HandleError_def recordWorkerEvent_frame(1) [where h = h and a = iterT and b = iterS and c = iterR] Let_def split: sum.split)

text \<open>
  C18: a worker with the memory store runs nothing. The store it opens is its own and empty, and nothing the queue makes it do puts a run
  there; so every task it is handed fails, whatever the task, no run and no report is ever stored, and a run the API has
  queued is never executed.
\<close>

theorem memory_worker_runs_nothing:
  assumes "OpenStore io pgErr db cfg = Inr (OpenedMemory m0)"
    and "e = workerExecutor (memoryOps iterT iterS iterR) blobMemoryOps runner cfg"
    and "(workerStep jsonErr encode e)\<^sup>*\<^sup>* (m0, b0) (m, b)"
  shows "(\<forall>runID. GetRun runID m = None) \<and> b = b0 \<and>
    (\<forall>clock w ctx task. \<exists>err. handleRunExecute jsonErr clock (Execute encode e w) taskHandler ctx task (m, b) = (Some err, m, b))"
proof -
  have st: "ex_Store e = memoryOps iterT iterS iterR"
    by (simp add: assms(2) workerExecutor_def)
  have "m0 = NewMemory"
    using assms(1) by (auto simp: OpenStore_def Let_def split: if_splits option.splits prod.splits)
  then have start: "GetRun runID m0 = None" for runID
    by (simp add: GetRun_def NewMemory_def mapGet_def)
  have "(\<forall>runID. GetRun runID (fst t) = None) \<and> snd t = b0" if "(workerStep jsonErr encode e)\<^sup>*\<^sup>* (m0, b0) t" for t
    using that
  proof (induction rule: rtranclp_induct)
    case base
    then show ?case
      by (simp add: start)
  next
    case (step s t)
    then have none: "\<And>runID. so_GetRun (ex_Store e) runID (fst s) = None"
      by (simp add: st)
    from step.hyps(2) show ?case
    proof (cases rule: workerStep.cases)
      case (handle clock w ctx task err)
      then show ?thesis
        using handle_missing [OF none, of jsonErr clock encode w ctx task "snd s"] step.IH by auto
    next
      case (failed s' b' clock ctx task err)
      then show ?thesis
        using HandleError_GetRun [of "errorHandler (ex_Store e)"] step.IH by (simp add: errorHandler_def st)
    qed
  qed
  from this [OF assms(3)] have m: "\<And>runID. GetRun runID m = None" "b = b0"
    by auto
  with handle_missing [of e m jsonErr _ encode _ _ _ b] show ?thesis
    by (simp add: st)
qed


theorem memory_worker_runs_nothing_witness:
  "\<exists>err. handleRunExecute (\<lambda>_. '''') sampleClock (Execute RunExec.statusText (workerExecutor plainMemory blobMemoryOps (\<lambda>_ _. Inr passedReport) (FromEnv (\<lambda>_. ''''))) quietWorld)
     taskHandler sampleContext (NewRunTask ''run_7'') (NewMemory, NewMemoryStore) = (Some err, NewMemory, NewMemoryStore)"
proof -
  have "ToLower ''memory'' = ''memory''"
    by code_simp
  then have "OpenStore readIO '''' emptyDB (FromEnv (\<lambda>_. '''')) = Inr (OpenedMemory NewMemory)"
    by (simp add: OpenStore_def FromEnv_def envString_def Let_def)
  from memory_worker_runs_nothing [OF this refl rtranclp.rtrancl_refl] show ?thesis
    unfolding plainMemory_def by blast
qed

section \<open>The API process\<close>

definition NewWithQueue :: "Config \<Rightarrow> (string \<Rightarrow> string) \<Rightarrow> 's StoreOps \<Rightarrow> 'b BlobOps option \<Rightarrow> (string \<Rightarrow> 'q \<Rightarrow> string option \<times> 'q) option \<Rightarrow>
    ('s, 'b, 'q) Server" where
  "NewWithQueue cfg environ st bs queue =
     \<lparr>srv_cfg = cfg, srv_env = environ, srv_store = st, srv_blobStore = bs, srv_queue = queue\<rparr>"

text \<open>The process always has a queue, so it never executes a run itself.\<close>

definition apiServer :: "Config \<Rightarrow> (string \<Rightarrow> string) \<Rightarrow> 's StoreOps \<Rightarrow> 'b BlobOps \<Rightarrow> (EnqueueOptions \<Rightarrow> Task \<Rightarrow> 'q \<Rightarrow> string option \<times> 'q) \<Rightarrow>
    ('s, 'b, 'q) Server" where
  "apiServer cfg environ st blobStore enqueue =
     NewWithQueue cfg environ st (Some blobStore) (Some (EnqueueRun enqueue (NewAsynqEnqueuer (cf_RunTimeout cfg))))"

lemma apiServer_sel [simp]:
  "srv_store (apiServer cfg environ st bs enqueue) = st" "srv_cfg (apiServer cfg environ st bs enqueue) = cfg"
  "srv_queue (apiServer cfg environ st bs enqueue) = Some (EnqueueRun enqueue (NewAsynqEnqueuer (cf_RunTimeout cfg)))"
  by (simp_all add: apiServer_def NewWithQueue_def)

lemma accepted_run:
  assumes "srv_queue srv = Some enqueue" and "createRun srv clock sync body st = (writeJSON 202 (PRun rec), job, st')"
  obtains sid tid sc ref where "so_CreateRun (srv_store srv) clock sid tid sc ref (ss_store st) = (rec, ss_store st')"
    and "enqueue (run_ID rec) (ss_queue st) = (None, ss_queue st')" and "job = None"
proof -
  have refused: "resp \<noteq> writeJSON 202 (PRun rec)" if "requestedScenario srv st req = Inl resp" for st req resp
    using that by (auto simp: requestedScenario_def versionNotFound_def notFound_def writeError_def writeJSON_def Let_def
        split: option.splits if_splits)
  from assms(2) obtain req sc0 ref sc1 tid where req: "body = Inr req" "requestedScenario srv st req = Inr (sc0, ref)"
    "prepareScenario srv st sc0 (TrimSpace (cr_TargetID req)) = Inr (sc1, tid)"
    by (auto simp: createRun_def writeError_def writeJSON_def split: sum.splits prod.splits dest: refused [unfolded writeJSON_def])
  obtain r s1 where c: "so_CreateRun (srv_store srv) clock (TrimSpace (cr_ScenarioID req)) tid (applyRunGuardrails (srv_cfg srv) sc1) ref (ss_store st) = (r, s1)"
    by fastforce
  obtain e q where q: "enqueue (run_ID r) (ss_queue st) = (e, q)"
    by fastforce
  have "e = None \<and> r = rec \<and> st' = st\<lparr>ss_store := s1, ss_queue := q\<rparr> \<and> job = None"
    using assms(2) by (cases e) (auto simp: createRun_def req c q assms(1) Let_def writeJSON_def writeError_def)
  with c q show thesis
    using that by simp
qed

context run_store
begin

lemma delivered_finishes:
  assumes "so_GetRun ops runID s = Some r" and "knownRunStatus (run_Status r)" and "runID \<noteq> ''''" and "storeSteps ops runID s s1"
    and "anyClients ops runID w" and "ex_Store e = ops"
    and "handleRunExecute jsonErr clock (Execute encode e w) taskHandler ctx (NewRunTask runID) (s1, b) = (err, s2, b')"
  shows "\<exists>r'. so_GetRun ops runID s2 = Some r' \<and> isTerminalRunStatus (run_Status r')"
proof -
  obtain r1 where r1: "so_GetRun ops runID s1 = Some r1" "knownRunStatus (run_Status r1)"
    using steps_get(3) [OF assms(4,1)] assms(2) by (auto simp: knownRunStatus_def isTerminalRunStatus_def)
  moreover have "Execute encode e w runID (s1, b) = (err, s2, b')"
    using assms(3,7) by (simp add: handleRunExecute_def DecodeRunPayload_NewRunTask taskHandler_def recordWorkerEvent_def Let_def)
  ultimately show ?thesis
    using Execute_finishes [OF assms(5) r1 assms(6)] by blast
qed

end


text \<open>
  What the Postgres store is relied on for when a run is created: the identifiers the database makes are uuids, and a scenario it
  stores is one it can read back.
\<close>

definition uuids :: "(DB \<Rightarrow> nat \<Rightarrow> string) \<Rightarrow> bool" where
  "uuids fresh \<longleftrightarrow> (\<forall>db i. isUUID (fresh db i))"

definition readsBack :: "PgEnv \<Rightarrow> bool" where
  "readsBack env \<longleftrightarrow> (\<forall>sc raw x. marshalScenario env sc = Some (raw, x) \<longrightarrow> pg_DecScenario env raw \<noteq> None)"

lemma pg_created:
  assumes "so_CreateRun (databaseOps env fresh) clock sid tid sc ref d = (rec, d')" and "run_ID rec \<noteq> ''''"
    and "uuids fresh" and "readsBack env"
  shows "\<exists>r. so_GetRun (databaseOps env fresh) (run_ID rec) d' = Some r \<and> run_Status r = RunQueued"
proof -
  let ?env = "canonical env" and ?w = "quietIO fresh clock (tables d)"
  have "pgCreateRun ?env ?w sid tid sc ref (tables d) = (rec, tables d')"
    using database_runs(1,4) [of env fresh clock sid tid sc ref d] assms(1) by (metis fst_conv prod.collapse snd_conv)
  then obtain raw x s v row db' where ins: "marshalScenario ?env sc = Some (raw, x)" "insertQueued ?env ?w tid s v raw (tables d) = Some (row, db')"
    and "run_ID rec = rw_id row" and "\<exists>w' e. snd (pgAppendRunEvent ?env w' (rw_id row) e db') = tables d'"
    using assms(2) by (auto simp: pgCreateRun_def Let_def stmt_def zeroRun_def split: option.splits prod.splits if_splits) blast
  then have get: "found ?env j (tables d') = found ?env j db'" for j
    by (metis found_append)
  have row: "rw_id row = pi_UUID ?w 1" "rw_status row = Queued" "rw_scenario_snapshot row = raw"
    and db': "db_runs db' = db_runs (tables d) @ [row]" "\<not> list_ex (\<lambda>y. rw_id y = rw_id row) (db_runs (tables d))"
    using ins(2) by (auto simp: insertQueued_def insertRun_def bind_splits Let_def split: if_splits)
  have "marshalScenario env sc = Some (raw, x)" "pg_DecScenario ?env = pg_DecScenario env"
    using ins(1) by (simp_all add: marshalScenario_def canonical_def)
  then obtain sc' where "pg_DecScenario ?env raw = Some sc'"
    using assms(4) by (auto simp: readsBack_def)
  then obtain r where r: "runRecord ?env db' row = Some r" "run_Status r = RunQueued"
    by (auto simp: runRecord_def row statusName_def)
  have "isUUID (rw_id row)"
    using assms(3) by (simp add: row uuids_def quietIO_def)
  moreover have "find (\<lambda>y. rw_id y = rw_id row) (db_runs db') = Some row"
    using db' by (auto simp: find_append find_None_iff list_ex_iff split: option.split dest: find_Some_iff [THEN iffD1])
  ultimately show ?thesis
    using r unfolding database_reads get unfolding found_eq \<open>run_ID rec = rw_id row\<close> by (simp add: canonical_def)
qed

end
