(* ===== verification/Spec2Isabelle.thy ===== *)
theory Spec2Isabelle
  imports JsonPath HttpEvents DemoApi Commands
begin

text \<open>
  \<^bold>\<open>wreckr\<close> tests backend systems: a scenario describes a target, traffic and invariants; a runner sends the traffic and
  evaluates the checks; an HTTP API stores scenarios and runs and queues runs; a worker takes runs from the queue and
  executes them; a command line runs a scenario directly. This library models the Go sources under \<^verbatim>\<open>src/apps/api\<close> and the
  demo service under \<^verbatim>\<open>src/examples/demo-api\<close>, and proves what they do.

  \<^bold>\<open>Parts and theories.\<close> Paths are relative to \<^verbatim>\<open>src/apps/api/internal\<close> unless they begin with \<^verbatim>\<open>src\<close>.

  \<^item> \<open>GoPrelude\<close>, \<open>GoFmt\<close>, \<open>GoFloat\<close>, \<open>GoUrl\<close>, \<open>GoJson\<close>, \<open>GoJsonPrefix\<close>, \<open>GoEncode\<close>, \<open>GoFlag\<close>: what the sources use of the Go
    language and its standard library. Strings are byte lists, \<^verbatim>\<open>int\<close> and \<^verbatim>\<open>time.Duration\<close> are integers with the 64-bit
    wrap-around written out, a float64 is a rational with rounding to 53 bits, a map is an association list whose iteration
    order is a parameter where the code iterates over it. \<open>GoJson\<close> is the JSON parser and the decoding into \<^verbatim>\<open>any\<close>,
    \<open>GoEncode\<close> the encoder with and without indentation and the proof that what it writes is read back, \<open>GoJsonPrefix\<close>
    that a truncated object is not JSON, \<open>GoUrl\<close> the parsing, resolution and printing of URLs, \<open>GoFlag\<close> flags and durations.
  \<^item> \<open>Scenario\<close> (\<^verbatim>\<open>scenario/schema.go\<close>), \<open>JsonPath\<close> (\<^verbatim>\<open>scenario/jsonpath.go\<close>), \<open>Config\<close> (\<^verbatim>\<open>config/config.go\<close>), \<open>Guardrails\<close>
    (\<^verbatim>\<open>guardrails/guardrails.go\<close>), \<open>Report\<close> (\<^verbatim>\<open>report/report.go\<close>): the data and the pure functions. Validation and the
    guardrails are proved equivalent to declarative conditions, and the guardrails to confine the requests of a scenario.
  \<^item> \<open>Store\<close> (\<^verbatim>\<open>store/store.go\<close>, \<^verbatim>\<open>runevent/event.go\<close>): the interface of a store as a record of operations, its clients as step
    relations, and its contract as the locale \<open>run_store\<close>. \<open>MemoryStore\<close> (\<^verbatim>\<open>store/memory.go\<close>) interprets it as \<open>mem\<close>;
    \<open>Postgres\<close>, \<open>PostgresRuns\<close>, \<open>PostgresLaws\<close> and \<open>PostgresStore\<close> (\<^verbatim>\<open>store/postgres.go\<close> and the schema of the migrations)
    interpret it as \<open>pg\<close> on databases that satisfy the integrity every transaction keeps.
  \<^item> \<open>Blob\<close> (\<^verbatim>\<open>blob/\<close>): the artifact stores, with the locale \<open>blob_store\<close> interpreted on the memory store.
  \<^item> \<open>Runner\<close> and \<open>RunnerProbe\<close> (\<^verbatim>\<open>runner/runner.go\<close>): requests, control phases, thresholds, invariants, the worker pool as a step
    relation over a shared channel, the race. Proved: the pool ends and records every request once, the verdict of a run
    is exactly what its checks say, and what a probe says about the document a service answers with.
  \<^item> \<open>K6Script\<close> (\<^verbatim>\<open>k6script/compiler.go\<close>) and \<open>K6Runner\<close> (\<^verbatim>\<open>runner/k6_runner.go\<close>): the compiled script and the reading of k6's
    summary; the plan of the script and the verdict are compared with those of the Go runner.
  \<^item> \<open>RunExec\<close> (\<^verbatim>\<open>runexec/executor.go\<close>) and \<open>Worker\<close> (\<^verbatim>\<open>runqueue/asynq.go\<close>, \<^verbatim>\<open>worker/worker.go\<close>): the execution of a queued run with any
    calls of other clients between its own, proved once in the context of \<open>run_store\<close> for both stores.
  \<^item> \<open>HttpApi\<close>, \<open>HttpRuns\<close>, \<open>HttpEvents\<close>, \<open>HttpRoutes\<close> (\<^verbatim>\<open>httpapi/server.go\<close>): the handlers as functions of a server state, the
    event stream, and the route table with the matching rules of \<^verbatim>\<open>http.ServeMux\<close>, the body limit and the wrappers. Every
    answered request is a step of the relation the invariant of the stored runs is proved for.
  \<^item> \<open>Commands\<close> (\<^verbatim>\<open>app/store.go\<close>, \<^verbatim>\<open>src/apps/api/cmd\<close>): the choice of the stores, the command line with its exit status, and
    how the worker and API processes are put together.
  \<^item> \<open>DemoApi\<close> (\<^verbatim>\<open>src/examples/demo-api\<close>): the demo service, and the checkout race found by a run against it.
  \<^item> This theory: the way of a run from the API over the queue to the worker.

  \<^bold>\<open>State and effects.\<close> A method that holds a lock or runs in one transaction is one step; a handler is one step on the server
  state, except where the code releases the state between two actions (the executor, the event stream, the login of the
  demo service, the pool), which are sequences of steps with other clients in between. Errors are values: an error is its
  text. Time, randomness, the HTTP client, the S3 client, the asynq client, the k6 process and the file system are
  parameters. A statement of Postgres may fail at any point where atomicity is proved; the laws of the contract are proved
  for executed statements.

  \<^bold>\<open>Bounds and fuel.\<close> Only the JSON parser has fuel: twice the length of the text plus 4, which \<open>parse_fuel\<close> shows to be enough,
  and the nesting limit of 10000 that the standard library has. All other recursion is structural or has a measure. A
  float64 is modelled without infinities, subnormals and the sign of zero; the decoder refuses what exceeds the range.

  \<^bold>\<open>Not modelled.\<close> The web frontend (TypeScript); listening on sockets, logging and signals of the processes; the timeouts of the
  HTTP client and of database calls, which appear as failing calls; the decoding of JSON into the structs of the request
  bodies and the encoding of reports and scenarios, which are parameters of the definitions that use them. Strings are compared and mapped to
  lower case as ASCII.
\<close>

section \<open>From the API to the worker\<close>


definition freshUUID :: "DB \<Rightarrow> nat \<Rightarrow> string" where
  "freshUUID db i = sampleUUID (i mod 10)"

lemma freshUUID_uuids: "uuids freshUUID"
proof -
  have "list_all (\<lambda>i. isUUID (sampleUUID i)) [0..<10]"
    by code_simp
  then show ?thesis
    by (simp add: uuids_def freshUUID_def list_all_iff)
qed


definition projectDB :: DB where
  "projectDB = snd (NewPostgres uuidIO emptyDB)"

lemma projectDB_tables: "tables (Database projectDB) = projectDB"
  unfolding projectDB_def by (rule tables_Database [OF txs_integrity [OF tx_catalog(4) integrity_empty]])

definition sampleApi :: "(database, BlobMemory, unit) Server" where
  "sampleApi = apiServer (FromEnv (\<lambda>_. '''')) (\<lambda>_. '''') (databaseOps uuidEnv freshUUID) blobMemoryOps (\<lambda>_ _ q. (None, q))"

definition sampleApiState :: "(database, BlobMemory, unit) ServerState" where
  "sampleApiState = \<lparr>ss_store = Database projectDB, ss_blob = NewMemoryStore, ss_queue = (), ss_runCancels = [], ss_cancelRequests = []\<rparr>"

definition sentRace :: Scenario where
  "sentRace = applyRunGuardrails (FromEnv (\<lambda>_. '''')) (Normalized (WithEnv (\<lambda>_. '''') checkoutRace))"

lemma sampleApi_accepts:
  obtains rec st' where "createRun sampleApi sampleClock (\<lambda>_ _ st. st) (Inr sampleBody) sampleApiState = (writeJSON 202 (PRun rec), None, st')"
    and "run_ID rec = sampleUUID 1"
proof -
  have r: "requestedScenario sampleApi sampleApiState sampleBody = Inr (checkoutRace, [])"
    by (simp add: requestedScenario_def sampleBody_def Let_def)
  have v: "Validate (Normalized (WithEnv (\<lambda>_. '''') checkoutRace)) = None"
    by code_simp
  have g: "GuardrailsValidate (Normalized (WithEnv (\<lambda>_. '''') checkoutRace)) (cf_Guardrails (FromEnv (\<lambda>_. ''''))) = None"
    by code_simp
  have "resolveScenarioTarget sampleApi sampleApiState checkoutRace '''' = Inr (checkoutRace, '''')"
    by (simp add: resolveScenarioTarget_def checkoutRace_def TrimSpace_def)
  then have p: "prepareScenario sampleApi sampleApiState checkoutRace '''' = Inr (Normalized (WithEnv (\<lambda>_. '''') checkoutRace), '''')"
    using v g by (simp add: prepareScenario_def sampleApi_def apiServer_def NewWithQueue_def Let_def)
  obtain rec s1 where c: "so_CreateRun (databaseOps uuidEnv freshUUID) sampleClock '''' '''' sentRace [] (Database projectDB) = (rec, s1)"
    by fastforce
  have "run_ID (fst (pgCreateRun (canonical uuidEnv) (quietIO freshUUID sampleClock projectDB) '''' '''' sentRace [] projectDB)) = sampleUUID 1"
    by code_simp
  then have i: "run_ID rec = sampleUUID 1"
    using database_runs(4) [of uuidEnv freshUUID sampleClock "''''" "''''" sentRace "[]" "Database projectDB"] by (simp add: c projectDB_tables)
  have b: "TrimSpace (cr_TargetID sampleBody) = ''''" "TrimSpace (cr_ScenarioID sampleBody) = ''''"
    by (simp_all add: sampleBody_def TrimSpace_def)
  have s: "srv_store sampleApi = databaseOps uuidEnv freshUUID" "srv_cfg sampleApi = FromEnv (\<lambda>_. '''')"
      "srv_queue sampleApi = Some (\<lambda>_ q. (None, q))" "ss_store sampleApiState = Database projectDB"
    by (simp_all add: sampleApi_def sampleApiState_def EnqueueRun_def fun_eq_iff)
  have "createRun sampleApi sampleClock (\<lambda>_ _ st. st) (Inr sampleBody) sampleApiState =
      (writeJSON 202 (PRun rec), None, sampleApiState\<lparr>ss_store := s1, ss_queue := ss_queue sampleApiState\<rparr>)"
    using c by (simp add: createRun_def r b p s Let_def sentRace_def [symmetric])
  with i show thesis
    using that by blast
qed


end
